(* ===== verification/Prelude.thy ===== *)
theory Prelude
  imports Complex_Main "HOL-Library.Sorting_Algorithms" "HOL-Library.List_Lexorder"
    "HOL-Library.Char_ord" "HOL-Library.Sublist" "HOL-Library.Code_Target_Nat"
begin

text \<open>
  What every component of the development shares: results of fallible code and their
  sequencing, the first-occurrence duplicate removal of the JavaScript idiom
  \<^verbatim>\<open>[...new Set(xs)]\<close>, the stable sort of \<^verbatim>\<open>Array.prototype.sort\<close>,
  and the generic lemmas about them.
\<close>

named_theorems res_simps \<open>sequencing of fallible computations\<close>

section \<open>Results of fallible code\<close>

text \<open>
  A JavaScript \<^verbatim>\<open>throw\<close> is a value on the left of a sum. \<open>TypeError\<close> and
  \<open>RangeError\<close> carry the message; \<open>AppError\<close> is a \<^verbatim>\<open>ContextApplicationError\<close>
  with its code and HTTP status.
\<close>

datatype js_error =
    TypeError string
  | RangeError string
  | AppError string nat

type_synonym 'a res = "js_error + 'a"

definition res_bind :: "'e + 'a \<Rightarrow> ('a \<Rightarrow> 'e + 'b) \<Rightarrow> 'e + 'b" where
  "res_bind m f = (case m of Inl e \<Rightarrow> Inl e | Inr x \<Rightarrow> f x)"

declare res_bind_def [code_unfold]

text \<open>Throw unless the condition holds.\<close>

definition res_check :: "bool \<Rightarrow> 'e \<Rightarrow> 'e + unit" where
  "res_check b e = (if b then Inr () else Inl e)"

fun res_map :: "('a \<Rightarrow> 'e + 'b) \<Rightarrow> 'a list \<Rightarrow> 'e + 'b list" where
  "res_map f [] = Inr []"
| "res_map f (x # xs) = res_bind (f x) (\<lambda>y. res_bind (res_map f xs) (\<lambda>ys. Inr (y # ys)))"

text \<open>A loop whose body may throw, over its state.\<close>

fun res_fold :: "('s \<Rightarrow> 'a \<Rightarrow> 'e + 's) \<Rightarrow> 's \<Rightarrow> 'a list \<Rightarrow> 'e + 's" where
  "res_fold f s [] = Inr s"
| "res_fold f s (x # xs) = res_bind (f s x) (\<lambda>s'. res_fold f s' xs)"

definition is_ok :: "'e + 'a \<Rightarrow> bool" where
  "is_ok m = (case m of Inl _ \<Rightarrow> False | Inr _ \<Rightarrow> True)"

lemma res_bind_simps [simp, res_simps]:
  "res_bind (Inl e) f = Inl e"
  "res_bind (Inr x) f = f x"
  by (simp_all add: res_bind_def)

lemma res_bind_Inr_iff [simp, res_simps]:
  "res_bind m f = Inr y \<longleftrightarrow> (\<exists>x. m = Inr x \<and> f x = Inr y)"
  by (cases m) simp_all

lemma res_bind_Inl_iff [res_simps]:
  "res_bind m f = Inl e \<longleftrightarrow> m = Inl e \<or> (\<exists>x. m = Inr x \<and> f x = Inl e)"
  by (cases m) simp_all

lemma res_bind_cong [fundef_cong]:
  "m = m' \<Longrightarrow> (\<And>x. m' = Inr x \<Longrightarrow> f x = f' x) \<Longrightarrow> res_bind m f = res_bind m' f'"
  by (cases m') auto

lemma res_fold_invariant:
  assumes "res_fold f s xs = Inr s'" and "P s"
    and step: "\<And>s x s'. x \<in> set xs \<Longrightarrow> P s \<Longrightarrow> f s x = Inr s' \<Longrightarrow> P s'"
  shows "P s'"
  using assms
proof (induction xs arbitrary: s)
  case (Cons x xs)
  then obtain s1 where s1: "f s x = Inr s1" "res_fold f s1 xs = Inr s'" by auto
  show ?case
  proof (rule Cons.IH [OF s1(2)])
    show "P s1" using Cons.prems(2,3) s1(1) by (meson list.set_intros(1))
    show "P t'" if "y \<in> set xs" "P t" "f t y = Inr t'" for t y t'
      using that Cons.prems(3) by (meson list.set_intros(2))
  qed
qed simp

lemma res_check_iff [simp, res_simps]:
  "res_check b e = Inr u \<longleftrightarrow> b"
  "res_check b e = Inl e' \<longleftrightarrow> \<not> b \<and> e' = e"
  by (auto simp: res_check_def)

lemma res_check_True [simp]: "res_check True e = Inr ()"
  by (simp add: res_check_def)

lemma res_check_False [simp]: "res_check False e = Inl e"
  by (simp add: res_check_def)

lemma is_ok_simps [simp, res_simps]:
  "is_ok (Inl e) = False"
  "is_ok (Inr x) = True"
  by (simp_all add: is_ok_def)

lemma is_ok_iff: "is_ok m \<longleftrightarrow> (\<exists>x. m = Inr x)"
  by (cases m) simp_all

lemma res_map_Inr_iff [res_simps]:
  "res_map f xs = Inr ys \<longleftrightarrow> list_all2 (\<lambda>x y. f x = Inr y) xs ys"
proof (induction xs arbitrary: ys)
  case Nil
  then show ?case by auto
next
  case (Cons x xs)
  then show ?case by (cases ys) auto
qed

lemma res_map_length: "res_map f xs = Inr ys \<Longrightarrow> length ys = length xs"
  by (auto simp: res_map_Inr_iff dest: list_all2_lengthD)

lemma res_map_set:
  "res_map f xs = Inr ys \<Longrightarrow> y \<in> set ys \<Longrightarrow> \<exists>x \<in> set xs. f x = Inr y"
  unfolding res_map_Inr_iff
  by (induction rule: list_all2_induct) auto

lemma res_map_set_arg:
  "res_map f xs = Inr ys \<Longrightarrow> x \<in> set xs \<Longrightarrow> \<exists>y \<in> set ys. f x = Inr y"
  unfolding res_map_Inr_iff
  by (induction rule: list_all2_induct) auto

lemma res_map_idem:
  "(\<And>y. y \<in> set ys \<Longrightarrow> f (g y) = Inr y) \<Longrightarrow> res_map f (map g ys) = Inr ys"
  by (induction ys) auto

section \<open>Duplicate removal, first occurrence kept\<close>

fun uniq_from :: "'a list \<Rightarrow> 'a list \<Rightarrow> 'a list" where
  "uniq_from seen [] = []"
| "uniq_from seen (x # xs) =
     (if x \<in> set seen then uniq_from seen xs else x # uniq_from (x # seen) xs)"

definition uniq :: "'a list \<Rightarrow> 'a list" where
  "uniq xs = uniq_from [] xs"

lemma set_uniq_from: "set (uniq_from seen xs) = set xs - set seen"
  by (induction xs arbitrary: seen) auto

lemma distinct_uniq_from: "distinct (uniq_from seen xs)"
  by (induction xs arbitrary: seen) (auto simp: set_uniq_from)

lemma uniq_from_id: "distinct xs \<Longrightarrow> set xs \<inter> set seen = {} \<Longrightarrow> uniq_from seen xs = xs"
  by (induction xs arbitrary: seen) auto

lemma set_uniq [simp]: "set (uniq xs) = set xs"
  by (simp add: uniq_def set_uniq_from)

lemma distinct_uniq [simp]: "distinct (uniq xs)"
  by (simp add: uniq_def distinct_uniq_from)

lemma uniq_id [simp]: "distinct xs \<Longrightarrow> uniq xs = xs"
  by (simp add: uniq_def uniq_from_id)

lemma uniq_Nil [simp]: "uniq [] = []"
  by (simp add: uniq_def)

lemma uniq_eq_Nil [simp]: "uniq xs = [] \<longleftrightarrow> xs = []"
  by (metis set_empty set_uniq)

lemma uniq_single [simp]: "uniq [x] = [x]"
  by (simp add: uniq_def)

section \<open>Sorting\<close>

text \<open>
  \<^verbatim>\<open>xs.sort(cmp)\<close> is a stable sort; \<^verbatim>\<open>xs.sort()\<close> on strings compares
  code units, which is the lexicographic order on character lists.
\<close>

abbreviation sort_by :: "'a comparator \<Rightarrow> 'a list \<Rightarrow> 'a list" where
  "sort_by \<equiv> Sorting_Algorithms.sort"

definition sort_strings :: "string list \<Rightarrow> string list" where
  "sort_strings xs = sort_by default xs"

lemma set_sort_strings [simp]: "set (sort_strings xs) = set xs"
  by (simp add: sort_strings_def)

lemma mset_sort_strings [simp]: "mset (sort_strings xs) = mset xs"
  by (simp add: sort_strings_def)

lemma length_sort_strings [simp]: "length (sort_strings xs) = length xs"
  by (simp add: sort_strings_def)

lemma distinct_sort_by [simp]: "distinct (sort_by cmp xs) = distinct xs"
  by (metis distinct_count_atmost_1 mset_sort set_sort)

lemma distinct_sort_strings [simp]: "distinct (sort_strings xs) = distinct xs"
  by (simp add: sort_strings_def)

lemma sort_by_sorted_id: "Sorting_Algorithms.sorted cmp xs \<Longrightarrow> sort_by cmp xs = xs"
  by (rule sort_eqI) simp_all

lemma sort_by_idem [simp]: "sort_by cmp (sort_by cmp xs) = sort_by cmp xs"
  by (rule sort_by_sorted_id) simp

lemma sort_strings_idem [simp]: "sort_strings (sort_strings xs) = sort_strings xs"
  by (simp add: sort_strings_def)

lemma sort_by_eq_Nil [simp]: "sort_by cmp xs = [] \<longleftrightarrow> xs = []"
  by (metis set_empty set_sort)

lemma sort_strings_eq_Nil [simp]: "sort_strings xs = [] \<longleftrightarrow> xs = []"
  by (simp add: sort_strings_def)

lemma sort_strings_single [simp]: "sort_strings [x] = [x]"
  by (simp add: sort_strings_def)

text \<open>
  \<^verbatim>\<open>cmp1(a, b) || cmp2(a, b)\<close>: the second comparison decides where the first is zero.
\<close>

lift_definition lex_cmp :: "'a comparator \<Rightarrow> 'a comparator \<Rightarrow> 'a comparator"
  is "\<lambda>f g a b. case f a b of Less \<Rightarrow> Less | Equiv \<Rightarrow> g a b | Greater \<Rightarrow> Greater"
proof -
  fix f g :: "'a \<Rightarrow> 'a \<Rightarrow> comp"
  assume f: "comparator f" and g: "comparator g"
  let ?h = "\<lambda>a b. case f a b of Less \<Rightarrow> Less | Equiv \<Rightarrow> g a b | Greater \<Rightarrow> Greater"
  have eq: "?h a b = Equiv \<longleftrightarrow> f a b = Equiv \<and> g a b = Equiv" for a b
    by (simp split: comp.split)
  have less: "?h a b = Less \<longleftrightarrow> f a b = Less \<or> f a b = Equiv \<and> g a b = Less" for a b
    by (simp split: comp.split)
  have greater: "?h a b = Greater \<longleftrightarrow> f a b = Greater \<or> f a b = Equiv \<and> g a b = Greater" for a b
    by (simp split: comp.split)
  show "comparator ?h"
  proof (unfold_locales, unfold eq less greater)
    show "f a a = Equiv \<and> g a a = Equiv" for a
      using f g by (simp add: comparator.refl)
    show "f a c = Equiv \<and> g a c = Equiv"
      if "f a b = Equiv \<and> g a b = Equiv" "f b c = Equiv \<and> g b c = Equiv" for a b c
      using that f g by (meson comparator.trans_equiv)
    show "f a c = Less \<or> f a c = Equiv \<and> g a c = Less"
      if "f a b = Less \<or> f a b = Equiv \<and> g a b = Less"
        "f b c = Less \<or> f b c = Equiv \<and> g b c = Less" for a b c
      using that f g
      by (meson comparator.trans_less comparator.trans_equiv comparator.trans_equiv_less
          comparator.trans_less_equiv)
    show "(f b a = Greater \<or> f b a = Equiv \<and> g b a = Greater)
        = (f a b = Less \<or> f a b = Equiv \<and> g a b = Less)" for a b
      using f g by (metis comparator.greater_iff_sym_less comparator.sym)
  qed
qed

lemma compare_lex_cmp:
  "compare (lex_cmp f g) a b
     = (case compare f a b of Less \<Rightarrow> Less | Equiv \<Rightarrow> compare g a b | Greater \<Rightarrow> Greater)"
  by (simp add: lex_cmp.rep_eq)

lemma sort_by_mset: "mset xs = mset ys \<Longrightarrow> mset (sort_by cmp xs) = mset (sort_by cmp ys)"
  by simp

text \<open>
  The code-unit sort does not depend on the order of its input: strings that compare
  equal are equal.
\<close>

lemma sort_strings_mset: "mset xs = mset ys \<Longrightarrow> sort_strings xs = sort_strings ys"
proof -
  assume m: "mset xs = mset ys"
  have "filter (\<lambda>y. compare default x y = Equiv) xs
      = filter (\<lambda>y. compare default x y = Equiv) ys" for x :: string
  proof -
    have "filter ((=) x) xs = replicate (count (mset xs) x) x" for xs :: "string list"
      by (induction xs) auto
    with m show ?thesis
      by simp
  qed
  then show ?thesis
    unfolding sort_strings_def using m
    by (intro sort_eqI) (simp_all add: stable_sort [where cmp = default, simplified])
qed

text \<open>Sorting the images of a function is sorting the arguments by their images.\<close>

lemma sorted_map_key:
  "Sorting_Algorithms.sorted (key g cmp) ys \<Longrightarrow> Sorting_Algorithms.sorted cmp (map g ys)"
  by (induction ys rule: induct_list012) (auto)

lemma sort_by_map: "sort_by cmp (map g xs) = map g (sort_by (key g cmp) xs)"
proof (rule sort_eqI)
  show "mset (map g xs) = mset (map g (sort_by (key g cmp) xs))"
    by simp
  show "Sorting_Algorithms.sorted cmp (map g (sort_by (key g cmp) xs))"
    by (simp add: sorted_map_key)
  fix x
  show "filter (\<lambda>y. compare cmp x y = Equiv) (map g xs)
      = filter (\<lambda>y. compare cmp x y = Equiv) (map g (sort_by (key g cmp) xs))"
  proof (cases "\<exists>y. compare cmp x (g y) = Equiv")
    case True
    then obtain y where y: "compare cmp x (g y) = Equiv" ..
    then have "compare cmp x (g z) = Equiv \<longleftrightarrow> compare (key g cmp) y z = Equiv" for z
      unfolding compare_key_apply by (metis compare.sym compare.trans_equiv)
    then show ?thesis
      using stable_sort [of "key g cmp" y xs] by (simp add: filter_map o_def)
  next
    case False
    then show ?thesis
      by (simp add: filter_map o_def)
  qed
qed

section \<open>Association lists\<close>

text \<open>
  \<^verbatim>\<open>Map.prototype.set\<close> on the insertion-ordered list of entries: an existing key keeps
  its place, a new one goes last.
\<close>

fun map_set :: "'k \<Rightarrow> 'v \<Rightarrow> ('k \<times> 'v) list \<Rightarrow> ('k \<times> 'v) list" where
  "map_set k v [] = [(k, v)]"
| "map_set k v ((k', v') # kvs) =
     (if k' = k then (k, v) # kvs else (k', v') # map_set k v kvs)"

lemma map_of_map_set: "map_of (map_set k v kvs) = (map_of kvs)(k \<mapsto> v)"
  by (induction k v kvs rule: map_set.induct) auto

lemma fst_map_set: "fst ` set (map_set k v kvs) = insert k (fst ` set kvs)"
  by (induction k v kvs rule: map_set.induct) auto

lemma map_set_fresh: "k \<notin> fst ` set kvs \<Longrightarrow> map_set k v kvs = kvs @ [(k, v)]"
  by (induction k v kvs rule: map_set.induct) auto

lemma distinct_map_set: "distinct (map fst kvs) \<Longrightarrow> distinct (map fst (map_set k v kvs))"
  by (induction k v kvs rule: map_set.induct) (simp_all add: fst_map_set, blast)

section \<open>Lists\<close>

lemma filter_length_one: "length (filter P xs) = 1 \<longleftrightarrow> (\<exists>x. filter P xs = [x])"
  by (cases "filter P xs") auto

lemma mset_filter_cong: "mset xs = mset ys \<Longrightarrow> mset (filter P xs) = mset (filter P ys)"
  by simp

lemma mset_single_list: "mset [x] = mset xs \<Longrightarrow> xs = [x]"
  by (metis mset_single_iff mset.simps mset_single_iff_right)

lemma filter_sort_by: "filter P (sort_by cmp xs) = sort_by cmp (filter P xs)"
  by (rule filter_sort)

end
