(* ===== verification/JS_Value.thy ===== *)
theory JS_Value
  imports Prelude
begin

text \<open>
  The part of JavaScript the kernel's sources use, as a shallow embedding: values that
  reach a function untyped, property access, truthiness, the conversions
  \<^verbatim>\<open>String(v)\<close> and \<^verbatim>\<open>Number(v)\<close>, and the string functions
  \<^verbatim>\<open>trim\<close>, \<^verbatim>\<open>toLowerCase\<close> and \<^verbatim>\<open>toUpperCase\<close>.
  Strings are lists of code units below 256 (Latin-1); a character list has the length
  JavaScript reports for such a string. Numbers are finite doubles as the rationals they
  denote, with NaN and the infinities apart. Values are immutable and have no identity.
\<close>

section \<open>Values\<close>

datatype jsval =
    JUndef
  | JNull
  | JBool bool
  | JNum rat
  | JNaN
  | JInf bool
  | JStr string
  | JDate "int option"
  | JFun string
  | JArr "jsval list"
  | JObj "(string \<times> jsval) list"

text \<open>
  What the ECMAScript standard leaves to the host, or what the sources take from
  \<^verbatim>\<open>node:crypto\<close>: the collation of \<^verbatim>\<open>localeCompare\<close> (a total
  preorder), the reading of date strings that are not in the format of
  \<^verbatim>\<open>toISOString\<close>, the local-time string of a date, the decimal rendering of a
  number that is not a small integer, the numeric reading of a string, and the hexadecimal
  SHA-256 digest of a string.
\<close>

record host =
  collate :: "string comparator"
  legacy_date :: "string \<Rightarrow> int option"
  local_date_string :: "int option \<Rightarrow> string"
  number_string :: "rat \<Rightarrow> string"
  string_number :: "string \<Rightarrow> jsval"
  sha256_hex :: "string \<Rightarrow> string"

text \<open>
  A concrete host: strings compare by code units, only \<^verbatim>\<open>toISOString\<close> dates
  are read, and the digest is a constant of the right shape. The examples of the
  development evaluate on it.
\<close>

definition plain_host :: host where
  "plain_host = \<lparr>collate = default, legacy_date = (\<lambda>_. None),
     local_date_string = (\<lambda>_. ''Invalid Date''), number_string = (\<lambda>_. ''NaN''),
     string_number = (\<lambda>_. JNaN), sha256_hex = (\<lambda>_. replicate 64 (CHR ''0''))\<rparr>"

section \<open>Characters and strings\<close>

abbreviation code :: "char \<Rightarrow> nat" where
  "code c \<equiv> of_char c"

definition is_upper :: "char \<Rightarrow> bool" where
  "is_upper c = (65 \<le> code c \<and> code c \<le> 90)"

definition is_lower :: "char \<Rightarrow> bool" where
  "is_lower c = (97 \<le> code c \<and> code c \<le> 122)"

definition is_digit :: "char \<Rightarrow> bool" where
  "is_digit c = (48 \<le> code c \<and> code c \<le> 57)"

definition is_alnum :: "char \<Rightarrow> bool" where
  "is_alnum c = (is_upper c \<or> is_lower c \<or> is_digit c)"

text \<open>\<^verbatim>\<open>WhiteSpace\<close> and \<^verbatim>\<open>LineTerminator\<close> below 256.\<close>

definition is_space :: "char \<Rightarrow> bool" where
  "is_space c = (code c \<in> {9, 10, 11, 12, 13, 32, 160})"

definition trim :: "string \<Rightarrow> string" where
  "trim s = rev (dropWhile is_space (rev (dropWhile is_space s)))"

definition lower_char :: "char \<Rightarrow> char" where
  "lower_char c = (let n = code c in
     if 65 \<le> n \<and> n \<le> 90 \<or> 192 \<le> n \<and> n \<le> 222 \<and> n \<noteq> 215 then char_of (n + 32) else c)"

definition to_lower :: "string \<Rightarrow> string" where
  "to_lower s = map lower_char s"

text \<open>
  The sharp s becomes two letters. The two letters below 256 whose upper case lies above
  it (micro sign and y with diaeresis) are left as they are.
\<close>

definition upper_char :: "char \<Rightarrow> string" where
  "upper_char c = (let n = code c in
     if 97 \<le> n \<and> n \<le> 122 \<or> 224 \<le> n \<and> n \<le> 254 \<and> n \<noteq> 247 then [char_of (n - 32)]
     else if n = 223 then ''SS'' else [c])"

definition to_upper :: "string \<Rightarrow> string" where
  "to_upper s = concat (map upper_char s)"

fun join :: "string \<Rightarrow> string list \<Rightarrow> string" where
  "join sep [] = []"
| "join sep [s] = s"
| "join sep (s # ss) = s @ sep @ join sep ss"

fun show_nat :: "nat \<Rightarrow> string" where
  "show_nat n = (if n < 10 then [char_of (48 + n)]
     else show_nat (n div 10) @ [char_of (48 + n mod 10)])"

declare show_nat.simps [simp del]

definition show_int :: "int \<Rightarrow> string" where
  "show_int i = (if i < 0 then CHR ''-'' # show_nat (nat (- i)) else show_nat (nat i))"

section \<open>Objects\<close>

text \<open>
  Every object inherits the members of \<^verbatim>\<open>Object.prototype\<close>; reading one of
  these names where the object has no own property gives the inherited function.
\<close>

definition object_prototype :: "string list" where
  "object_prototype = [''constructor'', ''hasOwnProperty'', ''isPrototypeOf'',
     ''propertyIsEnumerable'', ''toLocaleString'', ''toString'', ''valueOf'']"

definition own_get :: "(string \<times> jsval) list \<Rightarrow> string \<Rightarrow> jsval" where
  "own_get kvs k = (case map_of kvs k of Some v \<Rightarrow> v
     | None \<Rightarrow> if k \<in> set object_prototype then JFun k else JUndef)"

definition get :: "jsval \<Rightarrow> string \<Rightarrow> jsval" where
  "get v k = (case v of JObj kvs \<Rightarrow> own_get kvs k | _ \<Rightarrow> JUndef)"

text \<open>\<^verbatim>\<open>!v || typeof v !== "object" || Array.isArray(v)\<close> is false.\<close>

definition is_object :: "jsval \<Rightarrow> bool" where
  "is_object v = (case v of JObj _ \<Rightarrow> True | JDate _ \<Rightarrow> True | _ \<Rightarrow> False)"

definition truthy :: "jsval \<Rightarrow> bool" where
  "truthy v = (case v of
     JUndef \<Rightarrow> False | JNull \<Rightarrow> False | JBool b \<Rightarrow> b | JNum r \<Rightarrow> r \<noteq> 0
   | JNaN \<Rightarrow> False | JStr s \<Rightarrow> s \<noteq> [] | _ \<Rightarrow> True)"

definition nullish :: "jsval \<Rightarrow> bool" where
  "nullish v = (v = JUndef \<or> v = JNull)"

text \<open>\<^verbatim>\<open>value === null || value === undefined || value === ""\<close>.\<close>

definition absent :: "jsval \<Rightarrow> bool" where
  "absent v = (v = JUndef \<or> v = JNull \<or> v = JStr [])"

text \<open>\<^verbatim>\<open>a || b\<close>.\<close>

definition js_or :: "jsval \<Rightarrow> jsval \<Rightarrow> jsval" where
  "js_or a b = (if truthy a then a else b)"

text \<open>
  \<^verbatim>\<open>a === b\<close>. NaN differs from itself. Objects compare by identity, which values
  of the model lack: two object values never compare equal.
\<close>

definition strict_eq :: "jsval \<Rightarrow> jsval \<Rightarrow> bool" where
  "strict_eq a b = (case a of
     JNaN \<Rightarrow> False | JDate _ \<Rightarrow> False | JArr _ \<Rightarrow> False | JObj _ \<Rightarrow> False | _ \<Rightarrow> a = b)"

definition jopt :: "string option \<Rightarrow> jsval" where
  "jopt x = (case x of None \<Rightarrow> JNull | Some s \<Rightarrow> JStr s)"

section \<open>Conversions\<close>

definition rat_string :: "host \<Rightarrow> rat \<Rightarrow> string" where
  "rat_string h r =
     (if r = of_int \<lfloor>r\<rfloor> \<and> \<bar>r\<bar> < 10 ^ 21 then show_int \<lfloor>r\<rfloor> else number_string h r)"

text \<open>\<^verbatim>\<open>String(v)\<close>.\<close>

fun js_string :: "host \<Rightarrow> jsval \<Rightarrow> string" where
  "js_string h JUndef = ''undefined''"
| "js_string h JNull = ''null''"
| "js_string h (JBool b) = (if b then ''true'' else ''false'')"
| "js_string h (JNum r) = rat_string h r"
| "js_string h JNaN = ''NaN''"
| "js_string h (JInf pos) = (if pos then ''Infinity'' else ''-Infinity'')"
| "js_string h (JStr s) = s"
| "js_string h (JDate t) = local_date_string h t"
| "js_string h (JFun f) = ''function '' @ f @ ''() { [native code] }''"
| "js_string h (JArr vs) =
     join '','' (map (\<lambda>v. if v = JUndef \<or> v = JNull then [] else js_string h v) vs)"
| "js_string h (JObj kvs) = ''[object Object]''"

text \<open>\<^verbatim>\<open>String(v ?? "")\<close> and \<^verbatim>\<open>String(v || "")\<close>.\<close>

definition string_or_empty :: "host \<Rightarrow> jsval \<Rightarrow> string" where
  "string_or_empty h v = (if nullish v then [] else js_string h v)"

definition string_if_truthy :: "host \<Rightarrow> jsval \<Rightarrow> string" where
  "string_if_truthy h v = (if truthy v then js_string h v else [])"

text \<open>\<^verbatim>\<open>Number(v)\<close>; a date gives its time value, other objects their string.\<close>

definition to_number :: "host \<Rightarrow> jsval \<Rightarrow> jsval" where
  "to_number h v = (case v of
     JUndef \<Rightarrow> JNaN | JNull \<Rightarrow> JNum 0 | JBool b \<Rightarrow> JNum (if b then 1 else 0)
   | JNum r \<Rightarrow> JNum r | JNaN \<Rightarrow> JNaN | JInf p \<Rightarrow> JInf p
   | JStr s \<Rightarrow> string_number h s
   | JDate None \<Rightarrow> JNaN | JDate (Some t) \<Rightarrow> JNum (of_int t)
   | _ \<Rightarrow> string_number h (js_string h v))"

section \<open>Lemmas\<close>

lemma get_simps [simp]:
  "get (JObj kvs) k = own_get kvs k"
  "get JUndef k = JUndef"
  "get JNull k = JUndef"
  "get (JDate t) k = JUndef"
  "get (JStr s) k = JUndef"
  "get (JArr vs) k = JUndef"
  by (simp_all add: get_def)

lemma own_get_Cons [simp]:
  "own_get ((k', v) # kvs) k = (if k = k' then v else own_get kvs k)"
  by (simp add: own_get_def)

lemma truthy_simps [simp]:
  "truthy JUndef = False"
  "truthy JNull = False"
  "truthy (JBool b) = b"
  "truthy (JStr s) = (s \<noteq> [])"
  "truthy (JDate t)"
  "truthy (JArr vs)"
  "truthy (JObj kvs)"
  by (simp_all add: truthy_def)

lemma absent_simps [simp]:
  "absent JUndef"
  "absent JNull"
  "absent (JStr s) = (s = [])"
  "\<not> absent (JDate t)"
  "\<not> absent (JNum r)"
  by (simp_all add: absent_def)

lemma strict_eq_JStr [simp]:
  "strict_eq (JStr s) v \<longleftrightarrow> v = JStr s"
  "strict_eq v (JStr s) \<longleftrightarrow> v = JStr s"
  by (auto simp: strict_eq_def split: jsval.splits)

lemma strict_eq_prim [simp]:
  "strict_eq v (JBool b) \<longleftrightarrow> v = JBool b"
  "strict_eq v JNull \<longleftrightarrow> v = JNull"
  "strict_eq v JUndef \<longleftrightarrow> v = JUndef"
  by (auto simp: strict_eq_def split: jsval.splits)

lemma strict_eq_imp_eq: "strict_eq a b \<Longrightarrow> a = b"
  by (auto simp: strict_eq_def split: jsval.splits)

lemma jopt_simps [simp]:
  "jopt None = JNull"
  "jopt (Some s) = JStr s"
  by (simp_all add: jopt_def)

lemma jopt_inject [simp]: "jopt a = jopt b \<longleftrightarrow> a = b"
  by (cases a; cases b) simp_all

lemma dropWhile_fixed: "s = [] \<or> \<not> P (hd s) \<Longrightarrow> dropWhile P s = s"
  by (cases s) auto

lemma dropWhile_rev_fixed:
  assumes "s = [] \<or> \<not> P (hd s)" and "s = [] \<or> \<not> P (last s)"
  shows "rev (dropWhile P (rev (dropWhile P s))) = s"
proof -
  have "dropWhile P s = s"
    using assms(1) by (rule dropWhile_fixed)
  moreover have "dropWhile P (rev s) = rev s"
    using assms(2) by (intro dropWhile_fixed) (simp add: hd_rev)
  ultimately show ?thesis by simp
qed

text \<open>Trimming is idempotent, and a trimmed string has no space at either end.\<close>

lemma trim_ends:
  assumes "trim s \<noteq> []"
  shows "\<not> is_space (hd (trim s))" and "\<not> is_space (last (trim s))"
proof -
  define d where "d = dropWhile is_space s"
  define e where "e = dropWhile is_space (rev d)"
  have t: "trim s = rev e"
    by (simp add: trim_def d_def e_def)
  from assms t have e: "e \<noteq> []" by simp
  then have "\<not> is_space (hd e)"
    unfolding e_def by (rule hd_dropWhile)
  with t e show "\<not> is_space (last (trim s))"
    by (simp add: last_rev)
  from e have "d \<noteq> []"
    by (auto simp: e_def)
  then have "\<not> is_space (hd d)"
    unfolding d_def by (rule hd_dropWhile)
  moreover obtain p where "rev d = p @ e"
    using takeWhile_dropWhile_id [of is_space "rev d"] by (metis e_def)
  then have "d = rev e @ rev p"
    by (metis rev_append rev_rev_ident)
  with e t have "hd d = hd (trim s)"
    by simp
  ultimately show "\<not> is_space (hd (trim s))"
    by simp
qed

lemma trim_idem [simp]: "trim (trim s) = trim s"
proof -
  have "rev (dropWhile is_space (rev (dropWhile is_space (trim s)))) = trim s"
    by (rule dropWhile_rev_fixed) (use trim_ends in blast)+
  then show ?thesis
    by (simp add: trim_def)
qed

lemma length_trim: "length (trim s) \<le> length s"
  using length_dropWhile_le [of is_space s]
    length_dropWhile_le [of is_space "rev (dropWhile is_space s)"]
  by (simp add: trim_def)

lemma trim_Nil [simp]: "trim [] = []"
  by (simp add: trim_def)

lemma trim_id: "(\<And>c. c \<in> set s \<Longrightarrow> \<not> is_space c) \<Longrightarrow> trim s = s"
  unfolding trim_def
  by (rule dropWhile_rev_fixed) auto

lemma length_to_lower [simp]: "length (to_lower s) = length s"
  by (simp add: to_lower_def)

lemma lower_char_idem [simp]: "lower_char (lower_char c) = lower_char c"
proof -
  have "of_char (char_of (of_char c + 32 :: nat) :: char) = (of_char c + 32 :: nat)"
    if "of_char c \<le> (222 :: nat)"
    using that by simp
  then show ?thesis
    by (auto simp: lower_char_def Let_def)
qed

lemma to_lower_idem [simp]: "to_lower (to_lower s) = to_lower s"
  by (simp add: to_lower_def)

end
