(* ===== verification/JS_Date.thy ===== *)
theory JS_Date
  imports JS_Value
begin

text \<open>
  JavaScript dates: a time value in milliseconds, its rendering by
  \<^verbatim>\<open>toISOString\<close>, and the reading of strings by \<^verbatim>\<open>Date.parse\<close>. A
  string in the exact format of \<^verbatim>\<open>toISOString\<close> is read back here; any other
  string is left to the host, as the standard allows.
\<close>

section \<open>Time values and the calendar\<close>

definition time_ok :: "int \<Rightarrow> bool" where
  "time_ok t = (\<bar>t\<bar> \<le> 8640000000000000)"

definition time_clip :: "int \<Rightarrow> int option" where
  "time_clip t = (if time_ok t then Some t else None)"

abbreviation ms_per_day :: int where
  "ms_per_day \<equiv> 86400000"

text \<open>
  The proleptic Gregorian calendar over days since 1970-01-01, by 400-year eras that start
  in March: centuries, then four-year groups, then years.
\<close>

definition civil_from_days :: "int \<Rightarrow> int \<times> int \<times> int" where
  "civil_from_days z = (let
     era = (z + 719468) div 146097; doe = (z + 719468) mod 146097;
     c = min 3 (doe div 36524); doc = doe - 36524 * c;
     q = doc div 1461; doq = doc - 1461 * q;
     a = min 3 (doq div 365); doy = doq - 365 * a;
     mp = (5 * doy + 2) div 153; d = doy - (153 * mp + 2) div 5 + 1;
     m = (if mp < 10 then mp + 3 else mp - 9);
     y = 400 * era + 100 * c + 4 * q + a + (if m \<le> 2 then 1 else 0)
   in (y, m, d))"

definition days_from_civil :: "int \<Rightarrow> int \<Rightarrow> int \<Rightarrow> int" where
  "days_from_civil y m d = (let
     y' = (if m \<le> 2 then y - 1 else y);
     era = y' div 400; yoe = y' mod 400;
     mp = (if m > 2 then m - 3 else m + 9);
     doy = (153 * mp + 2) div 5 + d - 1
   in 146097 * era + (yoe * 365 + yoe div 4 - yoe div 100 + doy) - 719468)"

section \<open>Digits\<close>

fun digits :: "nat \<Rightarrow> nat \<Rightarrow> string" where
  "digits 0 n = []"
| "digits (Suc k) n = digits k (n div 10) @ [char_of (48 + n mod 10)]"

definition undigits :: "string \<Rightarrow> nat" where
  "undigits s = foldl (\<lambda>a c. 10 * a + (code c - 48)) 0 s"

lemma length_digits [simp]: "length (digits k n) = k"
  by (induction k arbitrary: n) auto

lemma undigits_snoc: "undigits (s @ [c]) = 10 * undigits s + (code c - 48)"
  by (simp add: undigits_def)

lemma code_digit [simp]: "code (char_of (48 + n mod 10 :: nat) :: char) = 48 + n mod 10"
  by simp

lemma undigits_digits: "n < 10 ^ k \<Longrightarrow> undigits (digits k n) = n"
proof (induction k arbitrary: n)
  case 0
  then show ?case by (simp add: undigits_def)
next
  case (Suc k)
  then have "undigits (digits k (n div 10)) = n div 10"
    by (simp add: div_less_iff_less_mult)
  then show ?case
    by (simp add: undigits_snoc)
qed

section \<open>Rendering and reading\<close>

definition year_string :: "int \<Rightarrow> string" where
  "year_string y = (if 0 \<le> y \<and> y \<le> 9999 then digits 4 (nat y)
     else (if y < 0 then CHR ''-'' else CHR ''+'') # digits 6 (nat \<bar>y\<bar>))"

definition iso_string :: "int \<Rightarrow> string" where
  "iso_string t = (let tod = t mod ms_per_day in
     case civil_from_days (t div ms_per_day) of (y, m, d) \<Rightarrow>
       year_string y @ ''-'' @ digits 2 (nat m) @ ''-'' @ digits 2 (nat d) @ ''T''
       @ digits 2 (nat (tod div 3600000)) @ '':''
       @ digits 2 (nat (tod div 60000 mod 60)) @ '':''
       @ digits 2 (nat (tod div 1000 mod 60)) @ ''.''
       @ digits 3 (nat (tod mod 1000)) @ ''Z'')"

text \<open>The time a string in that format denotes, read off its fixed positions.\<close>

definition iso_field :: "string \<Rightarrow> nat \<Rightarrow> nat \<Rightarrow> int" where
  "iso_field s pos k = int (undigits (take k (drop pos s)))"

definition iso_rest :: "int \<Rightarrow> string \<Rightarrow> int" where
  "iso_rest y s = ms_per_day * days_from_civil y (iso_field s 1 2) (iso_field s 4 2)
     + 3600000 * iso_field s 7 2 + 60000 * iso_field s 10 2
     + 1000 * iso_field s 13 2 + iso_field s 16 3"

definition iso_time :: "string \<Rightarrow> int" where
  "iso_time s =
     (if take 1 s = ''-'' then iso_rest (- iso_field s 1 6) (drop 7 s)
      else if take 1 s = ''+'' then iso_rest (iso_field s 1 6) (drop 7 s)
      else iso_rest (iso_field s 0 4) (drop 4 s))"

text \<open>\<^verbatim>\<open>Date.parse(s)\<close> and \<^verbatim>\<open>new Date(v).getTime()\<close>, NaN as \<open>None\<close>.\<close>

definition date_parse :: "host \<Rightarrow> string \<Rightarrow> int option" where
  "date_parse h s = (let t = iso_time s in
     if time_ok t \<and> iso_string t = s then Some t
     else Option.bind (legacy_date h s) time_clip)"

definition truncate_rat :: "rat \<Rightarrow> int" where
  "truncate_rat r = (if r < 0 then \<lceil>r\<rceil> else \<lfloor>r\<rfloor>)"

definition to_time :: "host \<Rightarrow> jsval \<Rightarrow> int option" where
  "to_time h v = (case v of
     JDate t \<Rightarrow> Option.bind t time_clip
   | JStr s \<Rightarrow> date_parse h s
   | JNum r \<Rightarrow> time_clip (truncate_rat r)
   | JNull \<Rightarrow> Some 0
   | JBool b \<Rightarrow> Some (if b then 1 else 0)
   | JUndef \<Rightarrow> None
   | JNaN \<Rightarrow> None
   | JInf _ \<Rightarrow> None
   | _ \<Rightarrow> date_parse h (js_string h v))"

section \<open>The round trip\<close>

lemma div_bounds:
  fixes n k :: int
  assumes "0 < k"
  shows "k * (n div k) \<le> n" and "n < k * (n div k) + k"
  using assms pos_mod_bound [of k n] pos_mod_sign [of k n] mult_div_mod_eq [of k n]
  by linarith+

lemma div_unique_bounds:
  fixes n k x :: int
  assumes "0 < k" and "k * x \<le> n" and "n < k * x + k"
  shows "n div k = x"
  using int_div_pos_eq [of n k x "n - k * x"] assms by (simp add: algebra_simps)

text \<open>The day number split into era, century, four-year group, year and day of year.\<close>

lemma civil_parts:
  assumes "civil_from_days z = (y, m, d)"
  obtains era c q a doy mp where
    "z + 719468 = 146097 * era + 36524 * c + 1461 * q + 365 * a + doy"
    "era = (z + 719468) div 146097"
    "0 \<le> c" "c \<le> 3" "0 \<le> q" "q \<le> 24" "0 \<le> a" "a \<le> 3" "0 \<le> doy" "doy \<le> 365"
    "153 * mp \<le> 5 * doy + 2" "5 * doy + 2 < 153 * mp + 153"
    "d = doy - (153 * mp + 2) div 5 + 1"
    "m = (if mp < 10 then mp + 3 else mp - 9)"
    "y = 400 * era + 100 * c + 4 * q + a + (if m \<le> 2 then 1 else 0)"
proof -
  define era doe where "era = (z + 719468) div 146097" and "doe = (z + 719468) mod 146097"
  define c0 where "c0 = doe div 36524"
  define c where "c = min 3 c0"
  define q where "q = (doe - 36524 * c) div 1461"
  define a0 where "a0 = (doe - 36524 * c - 1461 * q) div 365"
  define a where "a = min 3 a0"
  define doy where "doy = doe - 36524 * c - 1461 * q - 365 * a"
  define mp where "mp = (5 * doy + 2) div 153"
  have z: "z + 719468 = 146097 * era + doe" and doe: "0 \<le> doe" "doe < 146097"
    unfolding era_def doe_def by simp_all
  have c0: "36524 * c0 \<le> doe" "doe < 36524 * c0 + 36524"
    unfolding c0_def by (rule div_bounds; simp)+
  then have c: "0 \<le> c" "c \<le> 3" "0 \<le> doe - 36524 * c" "doe - 36524 * c \<le> 36524"
    using doe unfolding c_def by linarith+
  have "1461 * q \<le> doe - 36524 * c" "doe - 36524 * c < 1461 * q + 1461"
    unfolding q_def by (rule div_bounds; simp)+
  then have q: "0 \<le> q" "q \<le> 24" "0 \<le> doe - 36524 * c - 1461 * q"
      "doe - 36524 * c - 1461 * q \<le> 1460"
    using c by linarith+
  have "365 * a0 \<le> doe - 36524 * c - 1461 * q" "doe - 36524 * c - 1461 * q < 365 * a0 + 365"
    unfolding a0_def by (rule div_bounds; simp)+
  then have a: "0 \<le> a" "a \<le> 3" "0 \<le> doy" "doy \<le> 365"
    using q unfolding a_def doy_def by linarith+
  have mp: "153 * mp \<le> 5 * doy + 2" "5 * doy + 2 < 153 * mp + 153"
    unfolding mp_def by (rule div_bounds; simp)+
  have e: "d = doy - (153 * mp + 2) div 5 + 1"
    "m = (if mp < 10 then mp + 3 else mp - 9)"
    "y = 400 * era + 100 * c + 4 * q + a + (if m \<le> 2 then 1 else 0)"
    using assms
    unfolding civil_from_days_def Let_def era_def [symmetric] doe_def [symmetric]
      c0_def [symmetric] c_def [symmetric] q_def [symmetric] a0_def [symmetric]
      a_def [symmetric] doy_def [symmetric] mp_def [symmetric]
    by auto
  have "z + 719468 = 146097 * era + 36524 * c + 1461 * q + 365 * a + doy"
    using z unfolding doy_def by linarith
  then show thesis
    using that era_def c(1,2) q(1,2) a mp e by blast
qed

lemma civil_bounds:
  assumes "civil_from_days z = (y, m, d)"
  shows "1 \<le> m" and "m \<le> 12" and "1 \<le> d" and "d \<le> 31"
    and "days_from_civil y m d = z"
proof -
  obtain era c q a doy mp where
    z: "z + 719468 = 146097 * era + 36524 * c + 1461 * q + 365 * a + doy"
    and b: "0 \<le> c" "c \<le> 3" "0 \<le> q" "q \<le> 24" "0 \<le> a" "a \<le> 3" "0 \<le> doy" "doy \<le> 365"
    and mp: "153 * mp \<le> 5 * doy + 2" "5 * doy + 2 < 153 * mp + 153"
    and d: "d = doy - (153 * mp + 2) div 5 + 1"
    and m: "m = (if mp < 10 then mp + 3 else mp - 9)"
    and y: "y = 400 * era + 100 * c + 4 * q + a + (if m \<le> 2 then 1 else 0)"
    using civil_parts [OF assms] by metis
  have mpb: "0 \<le> mp" "mp \<le> 11"
    using mp b by linarith+
  then show "1 \<le> m" "m \<le> 12"
    by (auto simp: m)
  define x where "x = (153 * mp + 2) div 5"
  have "5 * x \<le> 153 * mp + 2" "153 * mp + 2 < 5 * x + 5"
    unfolding x_def by (rule div_bounds; simp)+
  then show "1 \<le> d" "d \<le> 31"
    using mp unfolding d x_def [symmetric] by linarith+
  define yoe where "yoe = 100 * c + 4 * q + a"
  have yoe: "0 \<le> yoe" "yoe < 400"
    using b unfolding yoe_def by linarith+
  have divs: "yoe div 4 = 25 * c + q" "yoe div 100 = c"
  proof -
    show "yoe div 4 = 25 * c + q"
      by (rule div_unique_bounds) (use b in \<open>simp_all add: yoe_def\<close>)
    show "yoe div 100 = c"
      by (rule div_unique_bounds) (use b in \<open>simp_all add: yoe_def\<close>)
  qed
  have y': "(if m \<le> 2 then y - 1 else y) = 400 * era + yoe"
    by (simp add: y yoe_def)
  have mp': "(if m > 2 then m - 3 else m + 9) = mp"
    using mpb by (auto simp: m)
  have era: "(400 * era + yoe) div 400 = era" "(400 * era + yoe) mod 400 = yoe"
    using yoe by simp_all
  have "days_from_civil y m d
      = 146097 * era + (yoe * 365 + yoe div 4 - yoe div 100 + (x + d - 1)) - 719468"
    unfolding days_from_civil_def Let_def y' mp' era x_def by simp
  also have "\<dots> = z"
    using z by (simp add: divs d x_def [symmetric]) (simp add: yoe_def)
  finally show "days_from_civil y m d = z" .
qed

lemma civil_year_bound:
  assumes "civil_from_days z = (y, m, d)" and "\<bar>z\<bar> \<le> 100000000"
  shows "\<bar>y\<bar> < 1000000"
proof -
  obtain era c q a doy mp where
    z: "z + 719468 = 146097 * era + 36524 * c + 1461 * q + 365 * a + doy"
    and b: "0 \<le> c" "c \<le> 3" "0 \<le> q" "q \<le> 24" "0 \<le> a" "a \<le> 3" "0 \<le> doy" "doy \<le> 365"
    and y: "y = 400 * era + 100 * c + 4 * q + a + (if m \<le> 2 then 1 else 0)"
    using civil_parts [OF assms(1)] by metis
  have "- 1000 \<le> era" "era \<le> 1000"
    using z b assms(2) by linarith+
  with y b show ?thesis
    by (auto split: if_splits)
qed

lemma iso_rest_digits:
  assumes "m < 100" "d < 100" "hh < 100" "mi < 100" "ss < 100" "ms < 1000"
  shows "iso_rest y (''-'' @ digits 2 m @ ''-'' @ digits 2 d @ ''T'' @ digits 2 hh @ '':''
      @ digits 2 mi @ '':'' @ digits 2 ss @ ''.'' @ digits 3 ms @ ''Z'')
    = ms_per_day * days_from_civil y (int m) (int d) + 3600000 * int hh + 60000 * int mi
      + 1000 * int ss + int ms"
  using assms undigits_digits [of m 2] undigits_digits [of d 2] undigits_digits [of hh 2]
    undigits_digits [of mi 2] undigits_digits [of ss 2] undigits_digits [of ms 3]
  by (simp add: iso_rest_def iso_field_def)

lemma digits_all: "c \<in> set (digits k n) \<Longrightarrow> is_digit c"
proof (induction k arbitrary: n)
  case 0
  then show ?case by simp
next
  case (Suc k)
  have "is_digit (char_of (48 + n mod 10))"
    unfolding is_digit_def by simp
  with Suc show ?case by auto
qed

lemma digits_hd: "0 < k \<Longrightarrow> is_digit (hd (digits k n))"
  by (metis digits_all hd_in_set length_digits length_greater_0_conv)

lemma iso_time_year:
  assumes "\<bar>y\<bar> < 1000000"
  shows "iso_time (year_string y @ s) = iso_rest y s"
proof (cases "0 \<le> y \<and> y \<le> 9999")
  case True
  have "is_digit (hd (digits 4 (nat y)))"
    by (rule digits_hd) simp
  moreover obtain c cs where cs: "digits 4 (nat y) = c # cs"
    by (cases "digits 4 (nat y)") (auto dest: arg_cong [where f = length])
  ultimately have "c \<noteq> CHR ''-''" "c \<noteq> CHR ''+''"
    by (auto simp: is_digit_def)
  moreover have "take 4 (digits 4 (nat y) @ s) = digits 4 (nat y)"
    "drop 4 (digits 4 (nat y) @ s) = s"
    by simp_all
  moreover have "undigits (digits 4 (nat y)) = nat y"
    using True by (intro undigits_digits) auto
  ultimately show ?thesis
    using True
    by (simp add: iso_time_def year_string_def iso_field_def cs del: take_append drop_append)
next
  case False
  have "take 6 (digits 6 (nat \<bar>y\<bar>) @ s) = digits 6 (nat \<bar>y\<bar>)"
    "drop 6 (digits 6 (nat \<bar>y\<bar>) @ s) = s"
    by simp_all
  moreover have "undigits (digits 6 (nat \<bar>y\<bar>)) = nat \<bar>y\<bar>"
    using assms by (intro undigits_digits) simp
  ultimately show ?thesis
    using False by (auto simp: iso_time_def year_string_def iso_field_def)
qed

lemma iso_time_iso_string:
  assumes "time_ok t"
  shows "iso_time (iso_string t) = t"
proof -
  define z tod where "z = t div ms_per_day" and "tod = t mod ms_per_day"
  have t: "t = ms_per_day * z + tod" and tod: "0 \<le> tod" "tod < ms_per_day"
    by (simp_all add: z_def tod_def)
  obtain y m d where ymd: "civil_from_days z = (y, m, d)"
    by (cases "civil_from_days z") auto
  note b = civil_bounds [OF ymd]
  have "\<bar>z\<bar> \<le> 100000000"
    using assms unfolding z_def time_ok_def by linarith
  then have y: "\<bar>y\<bar> < 1000000"
    by (rule civil_year_bound [OF ymd])
  define hh mi ss ms where "hh = tod div 3600000" and "mi = tod div 60000 mod 60"
    and "ss = tod div 1000 mod 60" and "ms = tod mod 1000"
  have hh: "0 \<le> hh" "hh < 100" and mi: "0 \<le> mi" "mi < 100" and ss: "0 \<le> ss" "ss < 100"
    and ms: "0 \<le> ms" "ms < 1000"
    using tod by (auto simp: hh_def mi_def ss_def ms_def intro: less_le_trans [of _ 60])
  have sum: "3600000 * hh + 60000 * mi + 1000 * ss + ms = tod"
  proof -
    define a b where "a = tod div 60000" and "b = tod div 1000"
    have "b div 60 = a" "a div 60 = hh"
      by (simp_all add: a_def b_def hh_def zdiv_zmult2_eq [symmetric])
    then have "b = 60 * a + ss" "a = 60 * hh + mi"
      using mult_div_mod_eq [of 60 b] mult_div_mod_eq [of 60 a]
      unfolding ss_def mi_def a_def [symmetric] b_def [symmetric] by linarith+
    moreover have "tod = 1000 * b + ms"
      by (simp add: b_def ms_def)
    ultimately show ?thesis by simp
  qed
  have "iso_string t = year_string y @ (''-'' @ digits 2 (nat m) @ ''-'' @ digits 2 (nat d)
      @ ''T'' @ digits 2 (nat hh) @ '':'' @ digits 2 (nat mi) @ '':'' @ digits 2 (nat ss)
      @ ''.'' @ digits 3 (nat ms) @ ''Z'')"
    using ymd by (simp add: iso_string_def z_def tod_def hh_def mi_def ss_def ms_def Let_def)
  then have "iso_time (iso_string t) = ms_per_day * days_from_civil y m d + 3600000 * hh
      + 60000 * mi + 1000 * ss + ms"
    using b hh mi ss ms
    by (simp only: iso_time_year [OF y]) (subst iso_rest_digits; simp)
  also have "\<dots> = t"
    using b(5) sum t by linarith
  finally show ?thesis .
qed

lemma date_parse_iso [simp]: "time_ok t \<Longrightarrow> date_parse h (iso_string t) = Some t"
  by (simp add: date_parse_def iso_time_iso_string Let_def)

lemma date_parse_ok: "date_parse h s = Some t \<Longrightarrow> time_ok t"
  by (auto simp: date_parse_def time_clip_def Let_def split: if_splits bind_splits)

lemma iso_string_inject: "time_ok t \<Longrightarrow> time_ok u \<Longrightarrow> iso_string t = iso_string u \<Longrightarrow> t = u"
  by (metis iso_time_iso_string)

lemma iso_string_nonempty [simp]: "iso_string t \<noteq> []"
  by (auto simp: iso_string_def Let_def split: prod.splits)

lemma to_time_simps [simp]:
  "to_time h (JDate t) = Option.bind t time_clip"
  "to_time h (JStr s) = date_parse h s"
  by (simp_all add: to_time_def)

lemma to_time_ok: "to_time h v = Some t \<Longrightarrow> time_ok t"
proof -
  have "time_ok 0" "time_ok 1"
    by (simp_all add: time_ok_def)
  then show "to_time h v = Some t \<Longrightarrow> time_ok t"
    by (auto simp: to_time_def time_clip_def dest: date_parse_ok split: jsval.splits if_splits bind_splits)
qed

end
