(* ===== verification/Kernel_Model.thy ===== *)
theory Kernel_Model
  imports JS_Date
begin

text \<open>
  \<^verbatim>\<open>contextKernel/domain/model.js\<close>: the kernel's entities and the constructors that
  normalise untyped input into them. \<^verbatim>\<open>deepFreeze\<close> makes a value immutable, which
  every value here is. Each constructor takes the argument object as a value and reads its
  fields in the order the source does, so that the first offending field is the one
  reported.
\<close>

section \<open>Validation of fields\<close>

definition PRINCIPAL_TYPES :: "string list" where
  "PRINCIPAL_TYPES =
     [''tenant_user'', ''admin'', ''service_principal'', ''delegated_agent'', ''registry_defined'']"

definition RISK_CLASSES :: "string list" where
  "RISK_CLASSES = [''read'', ''low'', ''medium'', ''high'', ''critical'']"

definition OPERATION_KINDS :: "string list" where
  "OPERATION_KINDS = [''read'', ''mutation'']"

definition nonEmptyError :: "string \<Rightarrow> js_error" where
  "nonEmptyError field = TypeError (field @ '' must be a non-empty string.'')"

definition requireNonEmptyString :: "jsval \<Rightarrow> string \<Rightarrow> string res" where
  "requireNonEmptyString value fieldName = (case value of
     JStr s \<Rightarrow> (if trim s = [] then Inl (nonEmptyError fieldName) else Inr (trim s))
   | _ \<Rightarrow> Inl (nonEmptyError fieldName))"

definition optionalString :: "jsval \<Rightarrow> string \<Rightarrow> string option res" where
  "optionalString value fieldName =
     (if nullish value \<or> value = JStr [] then Inr None
      else res_bind (requireNonEmptyString value fieldName) (\<lambda>s. Inr (Some s)))"

definition uniqueSortedStrings :: "jsval \<Rightarrow> string \<Rightarrow> string list res" where
  "uniqueSortedStrings values fieldName = (case values of
     JArr vs \<Rightarrow> res_bind (res_map (\<lambda>v. requireNonEmptyString v fieldName) vs)
       (\<lambda>ss. Inr (sort_strings (uniq ss)))
   | _ \<Rightarrow> Inl (TypeError (fieldName @ '' must be an array.'')))"

text \<open>A parameter's default applies where the argument is undefined.\<close>

definition default_arg :: "jsval \<Rightarrow> jsval \<Rightarrow> jsval" where
  "default_arg v d = (if v = JUndef then d else v)"

text \<open>\<^verbatim>\<open>{ ...v }\<close>: the own enumerable properties of a value.\<close>

definition spread :: "jsval \<Rightarrow> (string \<times> jsval) list" where
  "spread v = (case v of
     JObj kvs \<Rightarrow> kvs
   | JArr vs \<Rightarrow> map (\<lambda>(i, x). (show_nat i, x)) (List.enumerate 0 vs)
   | JStr s \<Rightarrow> map (\<lambda>(i, c). (show_nat i, JStr [c])) (List.enumerate 0 s)
   | _ \<Rightarrow> [])"

section \<open>Principals and subjects\<close>

record principal =
  p_principalType :: string
  p_principalRef :: string
  p_authorizedTenantRefs :: "string list"
  p_attributes :: "(string \<times> jsval) list"

definition createAuthenticatedPrincipal :: "jsval \<Rightarrow> principal res" where
  "createAuthenticatedPrincipal arg =
     res_bind (requireNonEmptyString (get arg ''principalType'') ''principalType'') (\<lambda>normalizedType.
     res_bind (res_check (normalizedType \<in> set PRINCIPAL_TYPES)
       (TypeError (''Unsupported principalType: '' @ normalizedType))) (\<lambda>_.
     res_bind (requireNonEmptyString (get arg ''principalRef'') ''principalRef'') (\<lambda>ref.
     res_bind (uniqueSortedStrings (default_arg (get arg ''authorizedTenantRefs'') (JArr []))
       ''authorizedTenantRefs'') (\<lambda>tenants.
     Inr \<lparr>p_principalType = normalizedType, p_principalRef = ref,
       p_authorizedTenantRefs = tenants, p_attributes = spread (get arg ''attributes'')\<rparr>))))"

record subject =
  s_subjectType :: string
  s_subjectRef :: string
  s_tenantRef :: string
  s_workspaceRef :: "string option"
  s_delegatedByPrincipalRef :: "string option"

definition createEffectiveSubject :: "jsval \<Rightarrow> subject res" where
  "createEffectiveSubject arg =
     res_bind (requireNonEmptyString (default_arg (get arg ''subjectType'') (JStr ''tenant_user''))
       ''subjectType'') (\<lambda>sty.
     res_bind (requireNonEmptyString (get arg ''subjectRef'') ''subjectRef'') (\<lambda>sref.
     res_bind (requireNonEmptyString (get arg ''tenantRef'') ''tenantRef'') (\<lambda>tref.
     res_bind (optionalString (get arg ''workspaceRef'') ''workspaceRef'') (\<lambda>wref.
     res_bind (optionalString (get arg ''delegatedByPrincipalRef'') ''delegatedByPrincipalRef'') (\<lambda>dref.
     Inr \<lparr>s_subjectType = sty, s_subjectRef = sref, s_tenantRef = tref,
       s_workspaceRef = wref, s_delegatedByPrincipalRef = dref\<rparr>)))))"

section \<open>Candidates and pins\<close>

record candidate =
  c_candidateType :: string
  c_stableRef :: string
  c_tenantRef :: string
  c_workspaceRef :: "string option"
  c_brandRef :: "string option"
  c_resourceType :: "string option"
  c_resourceRef :: "string option"
  c_connectionRef :: "string option"
  c_displayLabel :: string
  c_authoritySummary :: string
  c_readinessSummary :: string
  c_metadata :: "(string \<times> jsval) list"

text \<open>\<^verbatim>\<open>typeof v === "string" ? v : ""\<close>.\<close>

definition string_value :: "jsval \<Rightarrow> string" where
  "string_value v = (case v of JStr s \<Rightarrow> s | _ \<Rightarrow> [])"

definition createContextCandidate :: "jsval \<Rightarrow> candidate res" where
  "createContextCandidate arg =
     res_bind (requireNonEmptyString (get arg ''candidateType'') ''candidateType'') (\<lambda>cty.
     res_bind (requireNonEmptyString (get arg ''stableRef'') ''stableRef'') (\<lambda>sref.
     res_bind (requireNonEmptyString (get arg ''tenantRef'') ''tenantRef'') (\<lambda>tref.
     res_bind (optionalString (get arg ''workspaceRef'') ''workspaceRef'') (\<lambda>wref.
     res_bind (optionalString (get arg ''brandRef'') ''brandRef'') (\<lambda>bref.
     res_bind (optionalString (get arg ''resourceType'') ''resourceType'') (\<lambda>rty.
     res_bind (optionalString (get arg ''resourceRef'') ''resourceRef'') (\<lambda>rref.
     res_bind (optionalString (get arg ''connectionRef'') ''connectionRef'') (\<lambda>cref.
     Inr \<lparr>c_candidateType = cty, c_stableRef = sref, c_tenantRef = tref, c_workspaceRef = wref,
       c_brandRef = bref, c_resourceType = rty, c_resourceRef = rref, c_connectionRef = cref,
       c_displayLabel = string_value (get arg ''displayLabel''),
       c_authoritySummary = string_value (get arg ''authoritySummary''),
       c_readinessSummary = string_value (get arg ''readinessSummary''),
       c_metadata = spread (get arg ''metadata'')\<rparr>))))))))"

record pin =
  pin_pinRef :: string
  pin_stableRef :: string
  pin_contextRevision :: string
  pin_expiresAt :: "string option"
  pin_verified :: bool

text \<open>\<^verbatim>\<open>new Date(v).toISOString()\<close> throws on an invalid date.\<close>

definition to_iso :: "host \<Rightarrow> jsval \<Rightarrow> string res" where
  "to_iso h v = (case to_time h v of None \<Rightarrow> Inl (RangeError ''Invalid time value'')
     | Some t \<Rightarrow> Inr (iso_string t))"

definition createContextPin :: "host \<Rightarrow> jsval \<Rightarrow> pin res" where
  "createContextPin h arg =
     res_bind (if nullish (get arg ''expiresAt'') then Inr None
       else res_bind (to_iso h (get arg ''expiresAt'')) (\<lambda>s. Inr (Some s))) (\<lambda>normalizedExpiry.
     res_bind (requireNonEmptyString (get arg ''pinRef'') ''pinRef'') (\<lambda>pref.
     res_bind (requireNonEmptyString (get arg ''stableRef'') ''stableRef'') (\<lambda>sref.
     res_bind (requireNonEmptyString (get arg ''contextRevision'') ''contextRevision'') (\<lambda>revision.
     Inr \<lparr>pin_pinRef = pref, pin_stableRef = sref, pin_contextRevision = revision,
       pin_expiresAt = normalizedExpiry,
       pin_verified = strict_eq (get arg ''verified'') (JBool True)\<rparr>))))"

section \<open>Decision input\<close>

record decision_input =
  di_riskClass :: string
  di_operationKind :: string
  di_operationIntent :: string

definition normalizeDecisionInput :: "jsval \<Rightarrow> jsval \<Rightarrow> jsval \<Rightarrow> decision_input res" where
  "normalizeDecisionInput riskClass operationKind operationIntent =
     res_bind (requireNonEmptyString (default_arg riskClass (JStr ''read'')) ''riskClass'') (\<lambda>normalizedRisk.
     res_bind (requireNonEmptyString (default_arg operationKind (JStr ''read'')) ''operationKind'') (\<lambda>normalizedKind.
     res_bind (res_check (normalizedRisk \<in> set RISK_CLASSES)
       (TypeError (''Unsupported riskClass: '' @ normalizedRisk))) (\<lambda>_.
     res_bind (res_check (normalizedKind \<in> set OPERATION_KINDS)
       (TypeError (''Unsupported operationKind: '' @ normalizedKind))) (\<lambda>_.
     res_bind (requireNonEmptyString operationIntent ''operationIntent'') (\<lambda>intent.
     Inr \<lparr>di_riskClass = normalizedRisk, di_operationKind = normalizedKind,
       di_operationIntent = intent\<rparr>)))))"

section \<open>Lemmas\<close>

lemma requireNonEmptyString_Inr [simp]:
  "requireNonEmptyString v f = Inr s \<longleftrightarrow> (\<exists>r. v = JStr r \<and> s = trim r \<and> s \<noteq> [])"
  by (auto simp: requireNonEmptyString_def split: jsval.splits)

lemma requireNonEmptyString_trim: "requireNonEmptyString v f = Inr s \<Longrightarrow> s \<noteq> [] \<and> trim s = s"
  by auto

lemma optionalString_Inr:
  "optionalString v f = Inr x \<longleftrightarrow>
     (if absent v then x = None else (\<exists>s. requireNonEmptyString v f = Inr s \<and> x = Some s))"
  by (auto simp: optionalString_def absent_def nullish_def)

lemma optionalString_Some: "optionalString v f = Inr (Some s) \<Longrightarrow> s \<noteq> [] \<and> trim s = s"
  by (auto simp: optionalString_Inr split: if_splits)

lemma uniqueSortedStrings_props:
  assumes "uniqueSortedStrings v f = Inr ss"
  shows "distinct ss" and "s \<in> set ss \<Longrightarrow> s \<noteq> [] \<and> trim s = s"
    and "Sorting_Algorithms.sorted default ss"
proof -
  from assms obtain vs rs where vs: "v = JArr vs"
    and rs: "res_map (\<lambda>v. requireNonEmptyString v f) vs = Inr rs"
    and ss: "ss = sort_strings (uniq rs)"
    by (auto simp: uniqueSortedStrings_def split: jsval.splits)
  show "distinct ss" by (simp add: ss)
  show "Sorting_Algorithms.sorted default ss" by (simp add: ss sort_strings_def)
  assume "s \<in> set ss"
  with ss have "s \<in> set rs" by simp
  from res_map_set [OF rs this] show "s \<noteq> [] \<and> trim s = s" by auto
qed

text \<open>
  The stored expiry of a pin reads back as the instant it was given: the constructor keeps
  exactly the time value.
\<close>

lemma createContextPin_expiry:
  assumes "createContextPin h arg = Inr p" and "pin_expiresAt p = Some e"
  shows "\<exists>t. to_time h (get arg ''expiresAt'') = Some t \<and> e = iso_string t"
  using assms
  by (auto simp: createContextPin_def to_iso_def split: if_splits option.splits)

end
