(* ===== verification/Kernel_Decision.thy ===== *)
theory Kernel_Decision
  imports Kernel_Model
begin

text \<open>
  \<^verbatim>\<open>contextKernel/domain/decisionPolicy.js\<close>: which candidates a principal may see and
  how one of them becomes the execution context. A reference argument is a string or null;
  the empty string is falsy, as in the source.
\<close>

section \<open>Definitions\<close>

datatype decision_status = RESOLVED | INTERPRETATION_REQUIRED | BLOCKED

datatype decision_reason =
    EXPLICIT_REFERENCE
  | VERIFIED_PIN
  | EXACT_BINDING
  | LOW_RISK_FALLBACK
  | SINGLE_AUTHORIZED_CANDIDATE
  | MULTIPLE_AUTHORIZED_CANDIDATES
  | NO_AUTHORIZED_CANDIDATES
  | REFERENCE_NOT_AUTHORIZED
  | EFFECTIVE_SUBJECT_REQUIRED
  | FALLBACK_SELECTION_FORBIDDEN
  | PIN_NOT_VERIFIED
  | PIN_EXPIRED
  | PIN_REVISION_CONFLICT

definition FALLBACK_ALLOWED_RISKS :: "string list" where
  "FALLBACK_ALLOWED_RISKS = [''read'', ''low'']"

text \<open>\<^verbatim>\<open>String(x ?? "")\<close> for an optional string.\<close>

definition opt_string :: "string option \<Rightarrow> string" where
  "opt_string x = (case x of None \<Rightarrow> [] | Some s \<Rightarrow> s)"

definition compareNullable :: "host \<Rightarrow> string option comparator" where
  "compareNullable h = key opt_string (collate h)"

definition compareContextCandidates :: "host \<Rightarrow> candidate comparator" where
  "compareContextCandidates h =
     lex_cmp (key (Some \<circ> c_tenantRef) (compareNullable h))
    (lex_cmp (key c_workspaceRef (compareNullable h))
    (lex_cmp (key (Some \<circ> c_candidateType) (compareNullable h))
    (lex_cmp (key c_resourceType (compareNullable h))
    (lex_cmp (key c_resourceRef (compareNullable h))
    (lex_cmp (key c_connectionRef (compareNullable h))
             (key (Some \<circ> c_stableRef) (compareNullable h)))))))"

definition sortContextCandidates :: "host \<Rightarrow> candidate list \<Rightarrow> candidate list" where
  "sortContextCandidates h candidates = sort_by (compareContextCandidates h) candidates"

definition principalCanSeeTenant :: "principal \<Rightarrow> string \<Rightarrow> bool" where
  "principalCanSeeTenant p tenantRef =
     (let refs = p_authorizedTenantRefs p in ''*'' \<in> set refs \<or> tenantRef \<in> set refs)"

text \<open>An optional string that is neither null nor empty.\<close>

definition given :: "string option \<Rightarrow> bool" where
  "given x = (case x of None \<Rightarrow> False | Some s \<Rightarrow> s \<noteq> [])"

definition candidateVisible :: "principal \<Rightarrow> subject option \<Rightarrow> candidate \<Rightarrow> bool" where
  "candidateVisible p effectiveSubject c =
     (if \<not> principalCanSeeTenant p (c_tenantRef c) then False
      else case effectiveSubject of
        None \<Rightarrow> True
      | Some s \<Rightarrow>
          if c_tenantRef c \<noteq> s_tenantRef s then False
          else if given (s_workspaceRef s) \<and> c_workspaceRef c \<noteq> s_workspaceRef s then False
          else True)"

definition enumerateAuthorizedCandidates ::
    "host \<Rightarrow> principal option \<Rightarrow> subject option \<Rightarrow> candidate list option \<Rightarrow> candidate list res" where
  "enumerateAuthorizedCandidates h p effectiveSubject candidates = (case (p, candidates) of
     (Some p, Some cs) \<Rightarrow>
       Inr (sortContextCandidates h (filter (candidateVisible p effectiveSubject) cs))
   | _ \<Rightarrow> Inl (TypeError ''principal and candidates are required.''))"

record context_decision =
  cd_status :: decision_status
  cd_reasonCodes :: "decision_reason list"
  cd_selectedCandidate :: "candidate option"
  cd_candidates :: "candidate list"

definition blockedDecision :: "host \<Rightarrow> decision_reason \<Rightarrow> candidate list \<Rightarrow> context_decision" where
  "blockedDecision h reasonCode candidates =
     \<lparr>cd_status = BLOCKED, cd_reasonCodes = [reasonCode], cd_selectedCandidate = None,
      cd_candidates = sortContextCandidates h candidates\<rparr>"

definition resolvedDecision ::
    "host \<Rightarrow> decision_reason \<Rightarrow> candidate \<Rightarrow> candidate list \<Rightarrow> context_decision" where
  "resolvedDecision h reasonCode candidate candidates =
     \<lparr>cd_status = RESOLVED, cd_reasonCodes = [reasonCode], cd_selectedCandidate = Some candidate,
      cd_candidates = sortContextCandidates h candidates\<rparr>"

definition selectExactReference :: "candidate list \<Rightarrow> string \<Rightarrow> candidate option" where
  "selectExactReference candidates stableRef =
     (if stableRef = [] then None
      else case filter (\<lambda>c. c_stableRef c = stableRef) candidates of
        [c] \<Rightarrow> Some c
      | _ \<Rightarrow> None)"

text \<open>The reason a pin cannot be used; \<open>None\<close> where it can.\<close>

definition pinState :: "host \<Rightarrow> pin \<Rightarrow> int \<Rightarrow> string option \<Rightarrow> decision_reason option" where
  "pinState h p now currentContextRevision =
     (if \<not> pin_verified p then Some PIN_NOT_VERIFIED
      else if (case pin_expiresAt p of None \<Rightarrow> False
               | Some e \<Rightarrow> e \<noteq> [] \<and> (case date_parse h e of None \<Rightarrow> False | Some t \<Rightarrow> t \<le> now))
        then Some PIN_EXPIRED
      else if (case currentContextRevision of None \<Rightarrow> True
               | Some r \<Rightarrow> trim r = [] \<or> pin_contextRevision p \<noteq> r)
        then Some PIN_REVISION_CONFLICT
      else None)"

record decision_request =
  dr_principal :: "principal option"
  dr_effectiveSubject :: "subject option"
  dr_candidates :: "candidate list option"
  dr_operationIntent :: jsval
  dr_operationKind :: jsval
  dr_riskClass :: jsval
  dr_explicitRef :: "string option"
  dr_verifiedPin :: "pin option"
  dr_currentContextRevision :: "string option"
  dr_exactBindingRef :: "string option"
  dr_fallbackRef :: "string option"
  dr_allowLowRiskFallback :: bool
  dr_now :: int

text \<open>Selection by an exact reference, as four branches of the source do it.\<close>

definition decideByReference ::
    "host \<Rightarrow> decision_reason \<Rightarrow> candidate list \<Rightarrow> string \<Rightarrow> context_decision" where
  "decideByReference h reasonCode authorized ref = (case selectExactReference authorized ref of
     Some c \<Rightarrow> resolvedDecision h reasonCode c authorized
   | None \<Rightarrow> blockedDecision h REFERENCE_NOT_AUTHORIZED authorized)"

text \<open>The precedence of the references, over the authorised candidates.\<close>

definition decideContext ::
    "host \<Rightarrow> decision_request \<Rightarrow> decision_input \<Rightarrow> candidate list \<Rightarrow> context_decision" where
  "decideContext h r input authorized =
     (if di_operationKind input = ''mutation'' \<and> dr_effectiveSubject r = None
        then blockedDecision h EFFECTIVE_SUBJECT_REQUIRED authorized
      else if given (dr_explicitRef r)
        then decideByReference h EXPLICIT_REFERENCE authorized (the (dr_explicitRef r))
      else case dr_verifiedPin r of
        Some p \<Rightarrow>
          (case pinState h p (dr_now r) (dr_currentContextRevision r) of
             Some reason \<Rightarrow> blockedDecision h reason authorized
           | None \<Rightarrow> decideByReference h VERIFIED_PIN authorized (pin_stableRef p))
      | None \<Rightarrow>
        if given (dr_exactBindingRef r)
          then decideByReference h EXACT_BINDING authorized (the (dr_exactBindingRef r))
        else if given (dr_fallbackRef r)
          then (if \<not> dr_allowLowRiskFallback r
                   \<or> di_riskClass input \<notin> set FALLBACK_ALLOWED_RISKS
                then blockedDecision h FALLBACK_SELECTION_FORBIDDEN authorized
                else decideByReference h LOW_RISK_FALLBACK authorized (the (dr_fallbackRef r)))
        else case authorized of
          [] \<Rightarrow> blockedDecision h NO_AUTHORIZED_CANDIDATES []
        | [c] \<Rightarrow> resolvedDecision h SINGLE_AUTHORIZED_CANDIDATE c authorized
        | _ \<Rightarrow> \<lparr>cd_status = INTERPRETATION_REQUIRED,
                cd_reasonCodes = [MULTIPLE_AUTHORIZED_CANDIDATES],
                cd_selectedCandidate = None, cd_candidates = authorized\<rparr>)"

definition resolveContextDecision :: "host \<Rightarrow> decision_request \<Rightarrow> context_decision res" where
  "resolveContextDecision h r =
     res_bind (normalizeDecisionInput (dr_riskClass r) (dr_operationKind r) (dr_operationIntent r))
       (\<lambda>input.
     res_bind (enumerateAuthorizedCandidates h (dr_principal r) (dr_effectiveSubject r) (dr_candidates r))
       (\<lambda>authorized. Inr (decideContext h r input authorized)))"

section \<open>Lemmas\<close>

lemma set_sortContextCandidates [simp]: "set (sortContextCandidates h cs) = set cs"
  by (simp add: sortContextCandidates_def)

lemma sortContextCandidates_idem [simp]:
  "sortContextCandidates h (sortContextCandidates h cs) = sortContextCandidates h cs"
  by (simp add: sortContextCandidates_def)

lemma mset_sortContextCandidates [simp]: "mset (sortContextCandidates h cs) = mset cs"
  by (simp add: sortContextCandidates_def)

lemma given_iff: "given x \<longleftrightarrow> (\<exists>s. x = Some s \<and> s \<noteq> [])"
  by (cases x) (simp_all add: given_def)

lemma selectExactReference_Some:
  "selectExactReference cs ref = Some c \<longleftrightarrow> ref \<noteq> [] \<and> filter (\<lambda>c. c_stableRef c = ref) cs = [c]"
  by (auto simp: selectExactReference_def split: list.splits)

lemma selectExactReference_in:
  "selectExactReference cs ref = Some c \<Longrightarrow> c \<in> set cs \<and> c_stableRef c = ref"
  unfolding selectExactReference_Some
  by (metis (mono_tags, lifting) list.set_intros(1) mem_Collect_eq set_filter)

lemma enumerate_Inr:
  "enumerateAuthorizedCandidates h p s cs = Inr as \<longleftrightarrow>
     (\<exists>p' cs'. p = Some p' \<and> cs = Some cs'
        \<and> as = sortContextCandidates h (filter (candidateVisible p' s) cs'))"
  by (auto simp: enumerateAuthorizedCandidates_def split: option.splits)

text \<open>What the candidates of a decision are, and that a selected one is among them.\<close>

lemma decideByReference_selected:
  "cd_selectedCandidate (decideByReference h reason as ref) = Some c \<Longrightarrow> c \<in> set as \<and> c_stableRef c = ref"
  by (auto simp: decideByReference_def blockedDecision_def resolvedDecision_def
      dest: selectExactReference_in split: option.splits)

lemma decision_simps [simp]:
  "cd_status (blockedDecision h q as) = BLOCKED"
  "cd_selectedCandidate (blockedDecision h q as) = None"
  "cd_reasonCodes (blockedDecision h q as) = [q]"
  "cd_status (resolvedDecision h q c as) = RESOLVED"
  "cd_selectedCandidate (resolvedDecision h q c as) = Some c"
  "cd_reasonCodes (resolvedDecision h q c as) = [q]"
  by (simp_all add: blockedDecision_def resolvedDecision_def)

lemma decideByReference_reason:
  "cd_status (decideByReference h q as ref) = RESOLVED \<Longrightarrow> cd_reasonCodes (decideByReference h q as ref) = [q]"
  by (auto simp: decideByReference_def split: option.splits)

lemma decideByReference_status:
  "cd_status (decideByReference h reason as ref) = RESOLVED \<longleftrightarrow>
     (\<exists>c. cd_selectedCandidate (decideByReference h reason as ref) = Some c)"
  by (auto simp: decideByReference_def blockedDecision_def resolvedDecision_def split: option.splits)

lemma resolve_selected_in:
  assumes "resolveContextDecision h r = Inr d"
  shows "(cd_status d = RESOLVED \<longleftrightarrow> cd_selectedCandidate d \<noteq> None)
    \<and> (\<forall>c. cd_selectedCandidate d = Some c \<longrightarrow>
        (\<exists>as. enumerateAuthorizedCandidates h (dr_principal r) (dr_effectiveSubject r) (dr_candidates r)
           = Inr as \<and> c \<in> set as))"
  using assms
  by (auto simp: resolveContextDecision_def decideContext_def decideByReference_status
      resolvedDecision_def blockedDecision_def dest: decideByReference_selected
      split: if_splits option.splits list.splits)

text \<open>
  Selection from two candidate lists with the same elements agrees: a unique match in one
  is the unique match in the other.
\<close>

lemma selectExactReference_mset:
  assumes "mset as = mset bs"
  shows "selectExactReference as ref = selectExactReference bs ref"
proof -
  have m: "mset (filter (\<lambda>c. c_stableRef c = ref) as) = mset (filter (\<lambda>c. c_stableRef c = ref) bs)"
    using assms by simp
  show ?thesis
  proof (cases "selectExactReference as ref")
    case (Some c)
    with m have "filter (\<lambda>c. c_stableRef c = ref) bs = [c]"
      by (metis mset_single_list selectExactReference_Some)
    with Some show ?thesis
      by (metis selectExactReference_Some)
  next
    case None
    show ?thesis
    proof (cases "selectExactReference bs ref")
      case (Some c)
      with m have "filter (\<lambda>c. c_stableRef c = ref) as = [c]"
        by (metis mset_single_list selectExactReference_Some)
      with Some None show ?thesis
        by (metis selectExactReference_Some)
    qed (use None in simp)
  qed
qed

text \<open>Decisions that agree but for the order in which the candidates are listed.\<close>

definition same_decision :: "context_decision \<Rightarrow> context_decision \<Rightarrow> bool" where
  "same_decision d e = (cd_status d = cd_status e \<and> cd_reasonCodes d = cd_reasonCodes e
     \<and> cd_selectedCandidate d = cd_selectedCandidate e \<and> mset (cd_candidates d) = mset (cd_candidates e))"

lemma same_blocked: "mset as = mset bs \<Longrightarrow> same_decision (blockedDecision h q as) (blockedDecision h q bs)"
  by (simp add: same_decision_def blockedDecision_def)

lemma same_byReference:
  "mset as = mset bs \<Longrightarrow> same_decision (decideByReference h q as ref) (decideByReference h q bs ref)"
  using selectExactReference_mset [of as bs ref]
  by (auto simp: same_decision_def decideByReference_def blockedDecision_def resolvedDecision_def
      split: option.splits)

lemma same_ambient:
  assumes "mset as = mset bs"
  shows "same_decision
    (case as of [] \<Rightarrow> blockedDecision h q1 [] | [c] \<Rightarrow> resolvedDecision h q2 c as
      | _ \<Rightarrow> \<lparr>cd_status = st, cd_reasonCodes = q3, cd_selectedCandidate = None, cd_candidates = as\<rparr>)
    (case bs of [] \<Rightarrow> blockedDecision h q1 [] | [c] \<Rightarrow> resolvedDecision h q2 c bs
      | _ \<Rightarrow> \<lparr>cd_status = st, cd_reasonCodes = q3, cd_selectedCandidate = None, cd_candidates = bs\<rparr>)"
proof -
  have len: "length as = length bs"
    using assms by (metis size_mset)
  consider "as = []" | c where "as = [c]" | a b ts where "as = a # b # ts"
    by (cases as rule: remdups_adj.cases) auto
  then show ?thesis
  proof cases
    case 1
    with len show ?thesis by (simp add: same_decision_def)
  next
    case 2
    with assms have "bs = [c]" by (metis mset_single_list)
    with 2 show ?thesis by (simp add: same_decision_def)
  next
    case 3
    with len obtain a' b' ts' where "bs = a' # b' # ts'"
      by (cases bs rule: remdups_adj.cases) auto
    with 3 assms show ?thesis by (simp add: same_decision_def)
  qed
qed

lemma same_decideContext:
  assumes m: "mset as = mset bs"
  shows "same_decision (decideContext h r inp as) (decideContext h r inp bs)"
  unfolding decideContext_def
  by (auto intro: same_blocked [OF m] same_byReference [OF m] same_ambient [OF m]
      split: option.split)

lemma trim_read: "trim ''read'' = ''read''"
  by code_simp

lemma decideContext_candidates [simp]:
  "decideContext h (r\<lparr>dr_candidates := x\<rparr>) = decideContext h r"
  by (cases "dr_verifiedPin r") (simp_all add: decideContext_def fun_eq_iff)

section \<open>Properties\<close>

text \<open>
  C1. Whenever a context is resolved, the selected candidate is one of the candidates the
  caller supplied, its tenant is one the principal is authorised for, and it lies in the
  tenant (and, where the subject has one, the workspace) of the effective subject.
\<close>

theorem resolve_selects_authorized:
  assumes "resolveContextDecision h r = Inr d" and "cd_status d = RESOLVED"
  shows "\<exists>c p cs. cd_selectedCandidate d = Some c \<and> dr_principal r = Some p
    \<and> dr_candidates r = Some cs \<and> c \<in> set cs
    \<and> (''*'' \<in> set (p_authorizedTenantRefs p) \<or> c_tenantRef c \<in> set (p_authorizedTenantRefs p))
    \<and> (\<forall>s. dr_effectiveSubject r = Some s \<longrightarrow> c_tenantRef c = s_tenantRef s
         \<and> (given (s_workspaceRef s) \<longrightarrow> c_workspaceRef c = s_workspaceRef s))"
proof -
  from assms resolve_selected_in [OF assms(1)] obtain c as where c: "cd_selectedCandidate d = Some c"
    and as: "enumerateAuthorizedCandidates h (dr_principal r) (dr_effectiveSubject r) (dr_candidates r) = Inr as"
    and "c \<in> set as"
    by auto
  with as obtain p cs where "dr_principal r = Some p" "dr_candidates r = Some cs" "c \<in> set cs"
    "candidateVisible p (dr_effectiveSubject r) c"
    by (auto simp: enumerate_Inr)
  with c show ?thesis
    by (auto simp: candidateVisible_def principalCanSeeTenant_def Let_def split: if_splits option.splits)
qed

text \<open>Values on which the examples below evaluate.\<close>

definition demo_principal :: principal where
  "demo_principal = \<lparr>p_principalType = ''tenant_user'', p_principalRef = ''user-1'',
     p_authorizedTenantRefs = [''t1''], p_attributes = []\<rparr>"

definition demo_subject :: subject where
  "demo_subject = \<lparr>s_subjectType = ''tenant_user'', s_subjectRef = ''user-1'', s_tenantRef = ''t1'',
     s_workspaceRef = Some ''w1'', s_delegatedByPrincipalRef = None\<rparr>"

definition demo_candidate :: "string \<Rightarrow> string \<Rightarrow> candidate" where
  "demo_candidate tenant ref = \<lparr>c_candidateType = ''brand'', c_stableRef = ref, c_tenantRef = tenant,
     c_workspaceRef = Some ''w1'', c_brandRef = None, c_resourceType = Some ''brand'',
     c_resourceRef = Some ref, c_connectionRef = None, c_displayLabel = [],
     c_authoritySummary = [], c_readinessSummary = [], c_metadata = []\<rparr>"

definition demo_pin :: pin where
  "demo_pin = \<lparr>pin_pinRef = ''pin-1'', pin_stableRef = ''b1'', pin_contextRevision = ''rev-1'',
     pin_expiresAt = Some (iso_string 2000), pin_verified = True\<rparr>"

definition demo_request :: decision_request where
  "demo_request = \<lparr>dr_principal = Some demo_principal, dr_effectiveSubject = Some demo_subject,
     dr_candidates = Some [demo_candidate ''t2'' ''b1'', demo_candidate ''t1'' ''b1'', demo_candidate ''t1'' ''b2''],
     dr_operationIntent = JStr ''publish'', dr_operationKind = JStr ''mutation'', dr_riskClass = JStr ''high'',
     dr_explicitRef = None, dr_verifiedPin = Some demo_pin,
     dr_currentContextRevision = Some ''rev-1'', dr_exactBindingRef = None, dr_fallbackRef = None,
     dr_allowLowRiskFallback = False, dr_now = 1000\<rparr>"

definition demo_decision :: context_decision where
  "demo_decision = resolvedDecision plain_host VERIFIED_PIN (demo_candidate ''t1'' ''b1'')
     [demo_candidate ''t1'' ''b1'', demo_candidate ''t1'' ''b2'']"

lemma demo_request_eval: "resolveContextDecision plain_host demo_request = Inr demo_decision"
  by code_simp

lemma demo_decision_simps [simp]:
  "cd_status demo_decision = RESOLVED"
  "cd_reasonCodes demo_decision = [VERIFIED_PIN]"
  by (simp_all add: demo_decision_def resolvedDecision_def)

theorem resolve_selects_authorized_witness:
  "resolveContextDecision plain_host demo_request = Inr demo_decision
    \<and> (\<exists>c. cd_selectedCandidate demo_decision = Some c \<and> c_tenantRef c = ''t1'' \<and> c_workspaceRef c = Some ''w1'')"
  using resolve_selects_authorized [OF demo_request_eval] demo_request_eval
  by (auto simp: demo_request_def demo_subject_def given_def)

text \<open>
  C5. The decision does not depend on the order in which the repositories list the
  candidates: permuting them changes neither an error nor the status, the reason codes, the
  selected candidate or the set of candidates shown.
\<close>

theorem resolve_order_independent:
  assumes "mset cs = mset cs'"
  shows "case (resolveContextDecision h (r\<lparr>dr_candidates := Some cs\<rparr>),
               resolveContextDecision h (r\<lparr>dr_candidates := Some cs'\<rparr>)) of
           (Inl e, Inl e') \<Rightarrow> e = e'
         | (Inr d, Inr d') \<Rightarrow> same_decision d d'
         | _ \<Rightarrow> False"
proof (cases "normalizeDecisionInput (dr_riskClass r) (dr_operationKind r) (dr_operationIntent r)")
  case (Inl e)
  then show ?thesis by (simp add: resolveContextDecision_def)
next
  case (Inr inp)
  show ?thesis
  proof (cases "dr_principal r")
    case None
    with Inr show ?thesis
      by (simp add: resolveContextDecision_def enumerateAuthorizedCandidates_def)
  next
    case (Some p)
    let ?as = "sortContextCandidates h (filter (candidateVisible p (dr_effectiveSubject r)) cs)"
    let ?bs = "sortContextCandidates h (filter (candidateVisible p (dr_effectiveSubject r)) cs')"
    have m: "mset ?as = mset ?bs"
      using assms by simp
    show ?thesis
      using Inr Some same_decideContext [OF m]
      by (simp add: resolveContextDecision_def enumerateAuthorizedCandidates_def)
  qed
qed

theorem resolve_order_independent_witness:
  "same_decision demo_decision
     (projr (resolveContextDecision plain_host (demo_request\<lparr>dr_candidates :=
        Some [demo_candidate ''t1'' ''b2'', demo_candidate ''t1'' ''b1'', demo_candidate ''t2'' ''b1'']\<rparr>)))"
proof -
  have m: "mset [demo_candidate ''t2'' ''b1'', demo_candidate ''t1'' ''b1'', demo_candidate ''t1'' ''b2'']
      = mset [demo_candidate ''t1'' ''b2'', demo_candidate ''t1'' ''b1'', demo_candidate ''t2'' ''b1'']"
    by simp
  have d: "demo_request\<lparr>dr_candidates := Some [demo_candidate ''t2'' ''b1'',
      demo_candidate ''t1'' ''b1'', demo_candidate ''t1'' ''b2'']\<rparr> = demo_request"
    by (simp add: demo_request_def)
  show ?thesis
    using resolve_order_independent [OF m, of plain_host demo_request]
    unfolding d demo_request_eval by (simp split: sum.splits)
qed



text \<open>
  C7. Naming a context explicitly resolves it exactly when one, and only one, of the visible
  candidates carries that stable reference; a mutation further needs an effective subject.
\<close>

theorem resolve_explicit_iff:
  assumes "resolveContextDecision h r = Inr d" and "dr_explicitRef r = Some ref" and "ref \<noteq> []"
    and "dr_principal r = Some p" and "dr_candidates r = Some cs"
  shows "cd_status d = RESOLVED \<longleftrightarrow>
      length (filter (\<lambda>c. candidateVisible p (dr_effectiveSubject r) c \<and> c_stableRef c = ref) cs) = 1
      \<and> (trim (string_value (dr_operationKind r)) = ''mutation'' \<longrightarrow> dr_effectiveSubject r \<noteq> None)"
proof -
  let ?as = "sortContextCandidates h (filter (candidateVisible p (dr_effectiveSubject r)) cs)"
  let ?m = "filter (\<lambda>c. candidateVisible p (dr_effectiveSubject r) c \<and> c_stableRef c = ref) cs"
  have f: "length (filter (\<lambda>c. c_stableRef c = ref) ?as) = length ?m"
    by (simp add: sortContextCandidates_def filter_sort conj_commute)
  have sel: "(\<exists>c. selectExactReference ?as ref = Some c) \<longleftrightarrow> length ?m = 1"
    unfolding f [symmetric] selectExactReference_Some
    using assms(3) filter_length_one [of _ ?as] by simp
  from assms obtain inp where
    inp: "normalizeDecisionInput (dr_riskClass r) (dr_operationKind r) (dr_operationIntent r) = Inr inp"
    and d: "d = (if di_operationKind inp = ''mutation'' \<and> dr_effectiveSubject r = None
         then blockedDecision h EFFECTIVE_SUBJECT_REQUIRED ?as
         else decideByReference h EXPLICIT_REFERENCE ?as ref)"
    by (auto simp: resolveContextDecision_def decideContext_def enumerateAuthorizedCandidates_def given_def)
  have k: "di_operationKind inp = ''mutation'' \<longleftrightarrow> trim (string_value (dr_operationKind r)) = ''mutation''"
    using inp trim_read
    by (auto simp: normalizeDecisionInput_def default_arg_def string_value_def split: if_splits)
  show ?thesis
    using sel unfolding d k [symmetric]
    by (auto simp: decideByReference_def blockedDecision_def resolvedDecision_def split: option.splits)
qed

theorem resolve_explicit_iff_witness:
  "\<exists>d. resolveContextDecision plain_host (demo_request\<lparr>dr_explicitRef := Some ''b2''\<rparr>) = Inr d
     \<and> cd_status d = RESOLVED"
proof -
  let ?r = "demo_request\<lparr>dr_explicitRef := Some ''b2''\<rparr>"
  let ?d = "resolvedDecision plain_host EXPLICIT_REFERENCE (demo_candidate ''t1'' ''b2'')
      [demo_candidate ''t1'' ''b1'', demo_candidate ''t1'' ''b2'']"
  have e: "resolveContextDecision plain_host ?r = Inr ?d"
    by code_simp
  have "cd_status ?d = RESOLVED"
    using resolve_explicit_iff [OF e, of "''b2''" demo_principal
        "[demo_candidate ''t2'' ''b1'', demo_candidate ''t1'' ''b1'', demo_candidate ''t1'' ''b2'']"]
    by (simp add: demo_request_def demo_principal_def demo_subject_def demo_candidate_def
        candidateVisible_def principalCanSeeTenant_def given_def)
  with e show ?thesis by blast
qed



end
