(* ===== verification/Kernel_Integrity.thy ===== *)
theory Kernel_Integrity
  imports Kernel_Model
begin

text \<open>
  \<^verbatim>\<open>contextKernel/domain/contextIntegrity.js\<close>: the canonical form and hash of a
  context, with secrets removed first; revision checks; and the propagation of a change
  along the dependency graph of the context dimensions.
\<close>

section \<open>Keys that must not be hashed\<close>

definition SENSITIVE_EXACT_KEYS :: "string list" where
  "SENSITIVE_EXACT_KEYS =
     [''authorization'', ''authorizationheader'', ''cookie'', ''setcookie'', ''credential'',
      ''credentials'', ''credentialpayload'', ''secret'', ''secrets'', ''token'', ''tokens'',
      ''accesstoken'', ''refreshtoken'', ''password'', ''privatekey'', ''apikey'']"

definition normalizeKey :: "string \<Rightarrow> string" where
  "normalizeKey k = to_lower (filter is_alnum k)"

definition isSensitiveKey :: "string \<Rightarrow> bool" where
  "isSensitiveKey k = (let normalized = normalizeKey k in
     if suffix ''ref'' normalized \<or> suffix ''id'' normalized then False
     else normalized \<in> set SENSITIVE_EXACT_KEYS
       \<or> sublist ''credential'' normalized \<or> sublist ''secret'' normalized
       \<or> sublist ''token'' normalized \<or> sublist ''password'' normalized
       \<or> sublist ''privatekey'' normalized \<or> sublist ''apikey'' normalized)"

section \<open>Sanitising and canonical form\<close>

definition sort_entries :: "(string \<times> jsval) list \<Rightarrow> (string \<times> jsval) list" where
  "sort_entries kvs = sort_by (key fst default) kvs"

lemma set_sort_entries [simp]: "set (sort_entries kvs) = set kvs"
  by (simp add: sort_entries_def)

text \<open>
  An object loses its sensitive and undefined properties, and a property named
  \<^verbatim>\<open>__proto__\<close>, whose assignment does not create an own property. A date has no
  own properties.
\<close>

definition keep_entry :: "string \<times> jsval \<Rightarrow> bool" where
  "keep_entry kv = (\<not> isSensitiveKey (fst kv) \<and> snd kv \<noteq> JUndef \<and> fst kv \<noteq> ''__proto__'')"

function sanitize :: "jsval \<Rightarrow> jsval" where
  "sanitize (JArr vs) = JArr (map sanitize vs)"
| "sanitize (JObj kvs) =
     JObj (map (\<lambda>kv. (fst kv, sanitize (snd kv))) (filter keep_entry (sort_entries kvs)))"
| "sanitize (JDate t) = JObj []"
| "sanitize JUndef = JUndef"
| "sanitize JNull = JNull"
| "sanitize (JBool b) = JBool b"
| "sanitize (JNum r) = JNum r"
| "sanitize JNaN = JNaN"
| "sanitize (JInf p) = JInf p"
| "sanitize (JStr s) = JStr s"
| "sanitize (JFun f) = JFun f"
  by pat_completeness auto
termination
  by (relation "measure size")
    (auto intro!: size_list_estimation le_imp_less_Suc trans_le_add2 size_list_estimation'
      simp: less_Suc_eq_le size_list_estimation' prod.size_gen_o_map)

text \<open>\<^verbatim>\<open>JSON.stringify\<close> on a string and on a primitive; \<open>None\<close> is undefined.\<close>

definition hex_digit :: "nat \<Rightarrow> char" where
  "hex_digit n = (if n < 10 then char_of (48 + n) else char_of (87 + n))"

definition SHORT_ESCAPES :: "(nat \<times> char) list" where
  "SHORT_ESCAPES = [(34, CHR 0x22), (92, CHR 0x5C), (8, CHR ''b''), (9, CHR ''t''),
     (10, CHR ''n''), (12, CHR ''f''), (13, CHR ''r'')]"

definition json_escape :: "char \<Rightarrow> string" where
  "json_escape c = (let n = code c in
     case map_of SHORT_ESCAPES n of
       Some e \<Rightarrow> [CHR 0x5C, e]
     | None \<Rightarrow>
         if n < 32 then
           [CHR 0x5C, CHR ''u'', CHR ''0'', CHR ''0'', hex_digit (n div 16), hex_digit (n mod 16)]
         else [c])"

definition json_quote :: "string \<Rightarrow> string" where
  "json_quote s = CHR 0x22 # concat (map json_escape s) @ [CHR 0x22]"

fun canonicalize :: "host \<Rightarrow> jsval \<Rightarrow> string option" where
  "canonicalize h (JArr vs) = Some (''['' @ join '',''
     (map (\<lambda>v. case canonicalize h v of None \<Rightarrow> [] | Some s \<Rightarrow> s) vs) @ '']'')"
| "canonicalize h (JObj kvs) = Some (''{'' @ join '',''
     (map snd (sort_by (key fst default) (map (\<lambda>kv. (fst kv, json_quote (fst kv) @ '':'' @
       (case canonicalize h (snd kv) of None \<Rightarrow> ''undefined'' | Some s \<Rightarrow> s))) kvs))) @ ''}'')"
| "canonicalize h (JDate t) = Some ''{}''"
| "canonicalize h JUndef = None"
| "canonicalize h (JFun f) = None"
| "canonicalize h JNull = Some ''null''"
| "canonicalize h (JBool b) = Some (if b then ''true'' else ''false'')"
| "canonicalize h (JNum r) = Some (rat_string h r)"
| "canonicalize h JNaN = Some ''null''"
| "canonicalize h (JInf p) = Some ''null''"
| "canonicalize h (JStr s) = Some (json_quote s)"

definition undefined_text :: "string option \<Rightarrow> string" where
  "undefined_text x = (case x of None \<Rightarrow> ''undefined'' | Some s \<Rightarrow> s)"

definition hash_input :: "host \<Rightarrow> jsval \<Rightarrow> string" where
  "hash_input h context = ''context-kernel-v1:'' @ undefined_text (canonicalize h (sanitize context))"

definition createContextHash :: "host \<Rightarrow> jsval \<Rightarrow> string" where
  "createContextHash h context = sha256_hex h (hash_input h context)"

definition createContextRevision :: "host \<Rightarrow> jsval \<Rightarrow> jsval \<Rightarrow> string" where
  "createContextRevision h context previousRevision =
     createContextHash h (JObj [(''context'', context),
       (''previousRevision'', JStr (string_if_truthy h previousRevision))])"

section \<open>Revisions\<close>

record revision_check =
  rc_valid :: bool
  rc_reasonCodes :: "string list"
  rc_actualRevision :: jsval

text \<open>\<^verbatim>\<open>expiresAt && Date.parse(expiresAt) <= now\<close>; \<^verbatim>\<open>Date.parse\<close> reads the string of its argument.\<close>

definition expired :: "host \<Rightarrow> jsval \<Rightarrow> int \<Rightarrow> bool" where
  "expired h expiresAt now = (truthy expiresAt
     \<and> (case date_parse h (js_string h expiresAt) of None \<Rightarrow> False | Some t \<Rightarrow> t \<le> now))"

definition validateContextRevision :: "host \<Rightarrow> jsval \<Rightarrow> jsval \<Rightarrow> jsval \<Rightarrow> int \<Rightarrow> revision_check" where
  "validateContextRevision h expectedRevision actualRevision expiresAt now = (let
     reasonCodes =
       (if \<not> truthy expectedRevision \<or> \<not> strict_eq expectedRevision actualRevision
        then [''context_revision_mismatch''] else [])
       @ (if expired h expiresAt now then [''context_expired''] else [])
   in \<lparr>rc_valid = (reasonCodes = []), rc_reasonCodes = reasonCodes, rc_actualRevision = actualRevision\<rparr>)"

section \<open>Invalidation\<close>

definition ContextDimensions :: "string list" where
  "ContextDimensions =
     [''principal'', ''effectiveSubject'', ''tenant'', ''workspace'', ''brand'', ''resource'',
      ''connection'', ''authority'', ''capability'', ''plan'', ''approval'', ''execution'']"

definition INVALIDATION_GRAPH :: "(string \<times> string list) list" where
  "INVALIDATION_GRAPH =
    [(''principal'', [''effectiveSubject'', ''tenant'', ''workspace'', ''brand'', ''resource'', ''connection'', ''authority'', ''capability'', ''plan'', ''approval'', ''execution'']),
     (''effectiveSubject'', [''tenant'', ''workspace'', ''brand'', ''resource'', ''connection'', ''authority'', ''capability'', ''plan'', ''approval'', ''execution'']),
     (''tenant'', [''workspace'', ''brand'', ''resource'', ''connection'', ''authority'', ''capability'', ''plan'', ''approval'', ''execution'']),
     (''workspace'', [''brand'', ''resource'', ''connection'', ''authority'', ''capability'', ''plan'', ''approval'', ''execution'']),
     (''brand'', [''resource'', ''connection'', ''authority'', ''capability'', ''plan'', ''approval'', ''execution'']),
     (''resource'', [''connection'', ''authority'', ''capability'', ''plan'', ''approval'', ''execution'']),
     (''connection'', [''authority'', ''capability'', ''plan'', ''approval'', ''execution'']),
     (''authority'', [''capability'', ''plan'', ''approval'', ''execution'']),
     (''capability'', [''plan'', ''approval'', ''execution'']),
     (''plan'', [''approval'', ''execution'']),
     (''approval'', [''execution'']),
     (''execution'', [])]"

definition invalidation_successors :: "string \<Rightarrow> string list" where
  "invalidation_successors d = (case map_of INVALIDATION_GRAPH d of None \<Rightarrow> [] | Some ds \<Rightarrow> ds)"

text \<open>The worklist loop: the queue and the set of dimensions already invalidated.\<close>

function invalidation_loop :: "string list \<Rightarrow> string list \<Rightarrow> string list res" where
  "invalidation_loop invalidated [] = Inr invalidated"
| "invalidation_loop invalidated (dimension # queue) =
     (if dimension \<notin> set ContextDimensions
        then Inl (TypeError (''Unknown context dimension: '' @ dimension))
      else if dimension \<in> set invalidated then invalidation_loop invalidated queue
      else invalidation_loop (dimension # invalidated) (queue @ invalidation_successors dimension))"
  by pat_completeness auto
termination
proof (relation "measures [\<lambda>(inv, q). card (set ContextDimensions - set inv), \<lambda>(inv, q). length q]", goal_cases)
  case 1
  show ?case by simp
next
  case (2 invalidated dimension queue)
  then show ?case by simp
next
  case (3 invalidated dimension queue)
  then have "card (set ContextDimensions - insert dimension (set invalidated))
      < card (set ContextDimensions - set invalidated)"
    by (intro psubset_card_mono) auto
  then show ?case by simp
qed

definition computeInvalidatedDimensions :: "string list \<Rightarrow> string list res" where
  "computeInvalidatedDimensions changedDimensions =
     res_bind (invalidation_loop [] changedDimensions)
       (\<lambda>invalidated. Inr (filter (\<lambda>d. d \<in> set invalidated) ContextDimensions))"

section \<open>Secrets do not survive sanitising\<close>

fun all_keys :: "(string \<Rightarrow> bool) \<Rightarrow> jsval \<Rightarrow> bool" where
  "all_keys P (JArr vs) = (\<forall>v \<in> set vs. all_keys P v)"
| "all_keys P (JObj kvs) = (\<forall>kv \<in> set kvs. P (fst kv) \<and> all_keys P (snd kv))"
| "all_keys P _ = True"

definition sensitive_free :: "jsval \<Rightarrow> bool" where
  "sensitive_free v = all_keys (\<lambda>k. \<not> isSensitiveKey k) v"

lemma keep_entry_sanitize: "keep_entry (k, sanitize v) \<longleftrightarrow> keep_entry (k, v)"
  by (cases v) (simp_all add: keep_entry_def)

text \<open>Sorting by key commutes with a change of the values.\<close>

lemma sort_entries_map:
  "sort_entries (map (\<lambda>kv. (fst kv, f (snd kv))) kvs)
     = map (\<lambda>kv. (fst kv, f (snd kv))) (sort_entries kvs)"
proof -
  have "key (\<lambda>kv. (fst kv, f (snd kv))) (key fst default) = (key fst default :: (string \<times> _) comparator)"
    by transfer (auto simp: fun_eq_iff)
  then show ?thesis
    unfolding sort_entries_def sort_by_map by simp
qed

lemma filter_sort_entries: "filter P (sort_entries kvs) = sort_entries (filter P kvs)"
  by (simp add: sort_entries_def filter_sort_by)

lemma sort_entries_idem [simp]: "sort_entries (sort_entries kvs) = sort_entries kvs"
  by (simp add: sort_entries_def)

lemma sort_entries_Nil [simp]: "sort_entries [] = []"
  by (simp add: sort_entries_def)

text \<open>
  What the sanitisers of the kernel share: they walk a value, drop the entries that a
  predicate refuses, and sort the rest by key. The predicate depends on an entry's value
  only through what sanitising keeps of it.
\<close>

locale sanitiser =
  fixes san :: "jsval \<Rightarrow> jsval" and keep :: "string \<times> jsval \<Rightarrow> bool"
  assumes array: "san (JArr vs) = JArr (map san vs)"
    and object: "san (JObj kvs) = JObj (map (\<lambda>kv. (fst kv, san (snd kv))) (filter keep (sort_entries kvs)))"
    and date: "san (JDate t) = JObj []"
    and prim: "\<lbrakk>\<And>vs. v \<noteq> JArr vs; \<And>kvs. v \<noteq> JObj kvs; \<And>t. v \<noteq> JDate t\<rbrakk> \<Longrightarrow> san v = v"
    and keep_san: "keep (k, san v) = keep (k, v)"
begin

lemma idem: "san (san v) = san v"
proof (induction v)
  case (JObj kvs)
  let ?ks = "sort_entries (filter keep kvs)"
  let ?s = "\<lambda>kv. (fst kv, san (snd kv))"
  have "filter keep (sort_entries (map ?s ?ks)) = map ?s ?ks"
    by (auto simp: sort_entries_map filter_id_conv keep_san)
  moreover have "map ?s (map ?s ?ks) = map ?s ?ks"
    using JObj by (auto simp: filter_sort_entries snds.simps)
  ultimately show ?case
    by (simp add: object filter_sort_entries del: map_map map_eq_conv)
qed (simp_all add: array object date prim)

lemma keys: "(\<And>kv. keep kv \<Longrightarrow> P (fst kv)) \<Longrightarrow> all_keys P (san v)"
proof (induction v)
  case (JObj kvs)
  then show ?case by (auto simp: object snds.simps)
qed (simp_all add: array object date prim)

end

interpretation context_sanitiser: sanitiser sanitize keep_entry
proof
  show "sanitize v = v" if "\<And>vs. v \<noteq> JArr vs" "\<And>kvs. v \<noteq> JObj kvs" "\<And>t. v \<noteq> JDate t" for v
    using that by (cases v) auto
qed (simp_all add: keep_entry_sanitize)

lemmas sanitize_idem = context_sanitiser.idem

text \<open>
  C9. No secret reaches a context hash: after sanitising, no object at any depth has a
  sensitive key, sanitising again changes nothing, and the hash of a context is the hash
  of its sanitised form.
\<close>

theorem hash_ignores_secrets:
  "sensitive_free (sanitize v) \<and> sanitize (sanitize v) = sanitize v
     \<and> createContextHash h (sanitize v) = createContextHash h v"
proof -
  have "sensitive_free (sanitize v)"
    unfolding sensitive_free_def by (rule context_sanitiser.keys) (simp add: keep_entry_def)
  then show ?thesis
    by (simp add: sanitize_idem createContextHash_def hash_input_def)
qed

section \<open>Propagation of a change\<close>

definition closed_dimensions :: "string set \<Rightarrow> bool" where
  "closed_dimensions S = (\<forall>d \<in> S. set (invalidation_successors d) \<subseteq> S)"

lemma invalidation_successors_known:
  "d \<in> set ContextDimensions \<Longrightarrow> set (invalidation_successors d) \<subseteq> set ContextDimensions"
proof -
  have "list_all (\<lambda>d. list_all (\<lambda>e. e \<in> set ContextDimensions) (invalidation_successors d)) ContextDimensions"
    by code_simp
  then show "d \<in> set ContextDimensions \<Longrightarrow> set (invalidation_successors d) \<subseteq> set ContextDimensions"
    by (auto simp: list_all_iff)
qed

lemma invalidation_loop_least:
  assumes "set queue \<subseteq> set ContextDimensions"
    and "\<forall>d \<in> set invalidated. set (invalidation_successors d) \<subseteq> set invalidated \<union> set queue"
  shows "\<exists>r. invalidation_loop invalidated queue = Inr r
    \<and> set invalidated \<union> set queue \<subseteq> set r \<and> closed_dimensions (set r)
    \<and> (\<forall>S. set invalidated \<union> set queue \<subseteq> S \<longrightarrow> closed_dimensions S \<longrightarrow> set r \<subseteq> S)"
  using assms
proof (induction invalidated queue rule: invalidation_loop.induct)
  case (1 invalidated)
  then show ?case
    by (auto simp: closed_dimensions_def)
next
  case (2 invalidated dimension queue)
  show ?case
  proof (cases "dimension \<in> set invalidated")
    case True
    with 2 show ?thesis
      by (auto simp: insert_absorb)
  next
    case False
    have "\<exists>r. invalidation_loop (dimension # invalidated) (queue @ invalidation_successors dimension) = Inr r
        \<and> set (dimension # invalidated) \<union> set (queue @ invalidation_successors dimension) \<subseteq> set r
        \<and> closed_dimensions (set r)
        \<and> (\<forall>S. set (dimension # invalidated) \<union> set (queue @ invalidation_successors dimension) \<subseteq> S
              \<longrightarrow> closed_dimensions S \<longrightarrow> set r \<subseteq> S)"
      using 2(3,4) False invalidation_successors_known [of dimension]
      by (intro 2(2)) auto
    with False 2(3) show ?thesis
      by (auto simp: closed_dimensions_def)
  qed
qed

lemma invalidation_loop_unknown:
  "\<not> set queue \<subseteq> set ContextDimensions \<Longrightarrow> \<exists>m. invalidation_loop invalidated queue = Inl (TypeError m)"
  by (induction invalidated queue rule: invalidation_loop.induct) auto

lemma invalidation_successors_suffix:
  "d \<in> set ContextDimensions
     \<Longrightarrow> invalidation_successors d = tl (dropWhile (\<lambda>e. e \<noteq> d) ContextDimensions)"
proof -
  have "list_all (\<lambda>d. invalidation_successors d = tl (dropWhile (\<lambda>e. e \<noteq> d) ContextDimensions)) ContextDimensions"
    by code_simp
  then show "d \<in> set ContextDimensions
     \<Longrightarrow> invalidation_successors d = tl (dropWhile (\<lambda>e. e \<noteq> d) ContextDimensions)"
    by (auto simp: list_all_iff)
qed

text \<open>In a list without duplicates, the part after an element of a suffix is in the suffix.\<close>

lemma tl_dropWhile_suffix:
  "distinct (xs @ ys) \<Longrightarrow> d \<in> set ys \<Longrightarrow> set (tl (dropWhile (\<lambda>e. e \<noteq> d) (xs @ ys))) \<subseteq> set ys"
proof -
  assume "distinct (xs @ ys)" "d \<in> set ys"
  then have "dropWhile (\<lambda>e. e \<noteq> d) (xs @ ys) = dropWhile (\<lambda>e. e \<noteq> d) ys"
    by (intro dropWhile_append2) auto
  then show ?thesis
    by (metis list.set_sel(2) set_dropWhileD subsetI tl_Nil)
qed

lemma distinct_ContextDimensions: "distinct ContextDimensions"
  by code_simp

lemma closed_suffix:
  assumes "\<forall>d \<in> set ds. d \<in> set ContextDimensions"
  defines "U \<equiv> dropWhile (\<lambda>d. d \<notin> set ds) ContextDimensions"
  shows "closed_dimensions (set U)" and "set ds \<subseteq> set U"
    and "\<lbrakk>closed_dimensions S; set ds \<subseteq> S\<rbrakk> \<Longrightarrow> set U \<subseteq> S"
proof -
  define T where "T = takeWhile (\<lambda>d. d \<notin> set ds) ContextDimensions"
  have split: "ContextDimensions = T @ U"
    by (simp add: T_def U_def)
  have "set (invalidation_successors d) \<subseteq> set U" if "d \<in> set U" for d
  proof -
    have "d \<in> set ContextDimensions"
      using that split by (metis Un_iff set_append)
    moreover have "set (tl (dropWhile (\<lambda>e. e \<noteq> d) (T @ U))) \<subseteq> set U"
      using that distinct_ContextDimensions split by (intro tl_dropWhile_suffix) auto
    ultimately show ?thesis
      using split by (simp add: invalidation_successors_suffix)
  qed
  then show "closed_dimensions (set U)"
    by (simp add: closed_dimensions_def)
  have "d \<notin> set T" if "d \<in> set ds" for d
    using that by (auto simp: T_def dest: set_takeWhileD)
  then show sub: "set ds \<subseteq> set U"
    using assms(1) split by (metis Un_iff set_append subsetI)
  show "set U \<subseteq> S" if "closed_dimensions S" "set ds \<subseteq> S"
  proof (cases U)
    case (Cons d us)
    have "d \<in> set ds"
      using Cons hd_dropWhile [of "\<lambda>d. d \<notin> set ds" ContextDimensions] by (auto simp: U_def)
    moreover have "dropWhile (\<lambda>e. e \<noteq> d) (T @ U) = U"
    proof -
      have "d \<notin> set T"
        using distinct_ContextDimensions unfolding split Cons by simp
      then show ?thesis
        using Cons by (subst dropWhile_append2) auto
    qed
    ultimately have "invalidation_successors d = us"
      using assms(1) split Cons by (simp add: invalidation_successors_suffix)
    with that \<open>d \<in> set ds\<close> Cons show ?thesis
      by (auto simp: closed_dimensions_def)
  qed simp
qed

lemma filter_suffix: "distinct (xs @ ys) \<Longrightarrow> filter (\<lambda>d. d \<in> set ys) (xs @ ys) = ys"
  by (auto simp: filter_empty_conv filter_id_conv)

text \<open>
  C10. A change invalidates the earliest changed dimension and every dimension after it in
  the dependency order, and nothing before it; the computation returns exactly when all
  the changed dimensions are known.
\<close>

theorem invalidation_is_downstream:
  "computeInvalidatedDimensions ds = Inr r \<longleftrightarrow>
     set ds \<subseteq> set ContextDimensions \<and> r = dropWhile (\<lambda>d. d \<notin> set ds) ContextDimensions"
proof (cases "set ds \<subseteq> set ContextDimensions")
  case True
  define U where "U = dropWhile (\<lambda>d. d \<notin> set ds) ContextDimensions"
  obtain i where i: "invalidation_loop [] ds = Inr i" "set ds \<subseteq> set i" "closed_dimensions (set i)"
      "\<And>S. set ds \<subseteq> S \<Longrightarrow> closed_dimensions S \<Longrightarrow> set i \<subseteq> S"
    using invalidation_loop_least [OF True, of "[]"] by auto
  have "set i = set U"
    unfolding U_def
    by (intro subset_antisym i(4) closed_suffix) (use True i in auto)
  moreover have "filter (\<lambda>d. d \<in> set U) (takeWhile (\<lambda>d. d \<notin> set ds) ContextDimensions @ U) = U"
    by (rule filter_suffix) (simp add: U_def distinct_ContextDimensions)
  moreover have "takeWhile (\<lambda>d. d \<notin> set ds) ContextDimensions @ U = ContextDimensions"
    by (simp add: U_def)
  ultimately have "computeInvalidatedDimensions ds = Inr U"
    unfolding computeInvalidatedDimensions_def i(1) by simp
  with True show ?thesis
    by (auto simp: U_def)
next
  case False
  then show ?thesis
    using invalidation_loop_unknown [of ds "[]"] by (auto simp: computeInvalidatedDimensions_def)
qed
end
