(* ===== verification/Kernel_Hash.thy ===== *)
theory Kernel_Hash
  imports Kernel_Integrity "HOL-Library.Finite_Map"
begin

text \<open>
  What the hash of \<^verbatim>\<open>contextIntegrity.js\<close> identifies. The data a context
  denotes once its secrets are erased is a tree of finite maps, lists and primitives; the
  canonical text can be read back to it, so two contexts hash the same input exactly
  when they denote the same data.
\<close>

section \<open>Canonical values\<close>

text \<open>Entries with distinct keys sort to the same list whatever order they come in.\<close>

lemma sorted_entries_strict:
  "Sorting_Algorithms.sorted (key fst default) kvs \<Longrightarrow> distinct (map fst kvs)
     \<Longrightarrow> sorted_wrt (<) (map fst (kvs :: (string \<times> 'a) list))"
proof (induction kvs rule: induct_list012)
  case (3 x y zs)
  then have "fst x < fst y" and "sorted_wrt (<) (map fst (y # zs))"
    by auto
  then show ?case
    by auto
qed simp_all

section \<open>JSON data\<close>

function json_data :: "jsval \<Rightarrow> bool" where
  "json_data (JArr vs) = (\<forall>v \<in> set vs. json_data v)"
| "json_data (JObj kvs) = (distinct (map fst kvs)
     \<and> (\<forall>kv \<in> set kvs. snd kv = JUndef \<or> json_data (snd kv)))"
| "json_data (JNum r) = (r = of_int \<lfloor>r\<rfloor> \<and> \<bar>r\<bar> < 10 ^ 21)"
| "json_data JNull = True"
| "json_data (JBool b) = True"
| "json_data (JStr s) = True"
| "json_data JUndef = False"
| "json_data JNaN = False"
| "json_data (JInf p) = False"
| "json_data (JDate t) = False"
| "json_data (JFun f) = False"
  by pat_completeness auto
termination
  by (relation "measure size")
    (auto intro!: size_list_estimation le_imp_less_Suc trans_le_add2 size_list_estimation'
      simp: less_Suc_eq_le size_list_estimation' prod.size_gen_o_map)

function canonical_value :: "jsval \<Rightarrow> bool" where
  "canonical_value (JArr vs) = (\<forall>v \<in> set vs. canonical_value v)"
| "canonical_value (JObj kvs) = (sorted_wrt (<) (map fst kvs)
     \<and> (\<forall>kv \<in> set kvs. keep_entry kv \<and> canonical_value (snd kv)))"
| "canonical_value (JNum r) = (r = of_int \<lfloor>r\<rfloor> \<and> \<bar>r\<bar> < 10 ^ 21)"
| "canonical_value JNull = True"
| "canonical_value (JBool b) = True"
| "canonical_value (JStr s) = True"
| "canonical_value JUndef = False"
| "canonical_value JNaN = False"
| "canonical_value (JInf p) = False"
| "canonical_value (JDate t) = False"
| "canonical_value (JFun f) = False"
  by pat_completeness auto
termination
  by (relation "measure size")
    (auto intro!: size_list_estimation le_imp_less_Suc trans_le_add2 size_list_estimation'
      simp: less_Suc_eq_le size_list_estimation' prod.size_gen_o_map)

datatype context_data =
    CPrim jsval
  | CList "context_data list"
  | CMap "(string, context_data) fmap"

function erased :: "jsval \<Rightarrow> context_data" where
  "erased (JArr vs) = CList (map erased vs)"
| "erased (JObj kvs) =
     CMap (fmap_of_list (map (\<lambda>kv. (fst kv, erased (snd kv))) (filter keep_entry kvs)))"
| "erased JUndef = CPrim JUndef"
| "erased JNull = CPrim JNull"
| "erased (JBool b) = CPrim (JBool b)"
| "erased (JNum r) = CPrim (JNum r)"
| "erased JNaN = CPrim JNaN"
| "erased (JInf p) = CPrim (JInf p)"
| "erased (JStr s) = CPrim (JStr s)"
| "erased (JDate t) = CPrim (JDate t)"
| "erased (JFun f) = CPrim (JFun f)"
  by pat_completeness auto
termination
  by (relation "measure size")
    (auto intro!: size_list_estimation le_imp_less_Suc trans_le_add2 size_list_estimation'
      simp: less_Suc_eq_le size_list_estimation' prod.size_gen_o_map)

lemma strict_entries_sorted:
  "sorted_wrt (<) (map fst (kvs :: (string \<times> 'a) list))
     \<Longrightarrow> Sorting_Algorithms.sorted (key fst default) kvs"
  by (induction kvs rule: induct_list012) (auto simp: not_less_iff_gr_or_eq)

lemma sort_entries_strict:
  "distinct (map fst kvs) \<Longrightarrow> sorted_wrt (<) (map fst (sort_entries kvs))"
  unfolding sort_entries_def
  by (rule sorted_entries_strict) (simp, metis mset_eq_imp_distinct_iff mset_map mset_sort)

lemma sort_entries_id: "sorted_wrt (<) (map fst kvs) \<Longrightarrow> sort_entries kvs = kvs"
  unfolding sort_entries_def by (rule sort_by_sorted_id) (rule strict_entries_sorted)

lemma sanitize_canonical: "json_data v \<Longrightarrow> canonical_value (sanitize v)"
proof (induction v rule: sanitize.induct)
  case (2 kvs)
  let ?ks = "filter keep_entry (sort_entries kvs)"
  have "sorted_wrt (<) (map fst (sort_entries kvs))"
    using 2 by (simp add: sort_entries_strict)
  then have "sorted_wrt (<) (map fst ?ks)"
    by (simp add: sorted_wrt_map sorted_wrt_filter)
  moreover have "keep_entry (fst kv, sanitize (snd kv)) \<and> canonical_value (sanitize (snd kv))"
    if "kv \<in> set ?ks" for kv
    using 2 that by (cases kv) (fastforce simp: keep_entry_sanitize keep_entry_def)
  ultimately show ?case
    by (auto simp: o_def)
qed auto

lemma canonical_sanitize: "canonical_value v \<Longrightarrow> sanitize v = v"
proof (induction v rule: sanitize.induct)
  case (2 kvs)
  then show ?case
    by (simp add: sort_entries_id filter_id_conv [THEN iffD2] map_idI)
qed (auto intro: map_idI)

lemma erased_canonical_data: "canonical_value v \<Longrightarrow> json_data v"
  by (induction v rule: canonical_value.induct) (auto simp: strict_sorted_iff)


lemma fmap_of_list_perm:
  assumes "distinct (map fst xs)" and "mset xs = mset ys"
  shows "fmap_of_list xs = fmap_of_list ys"
proof -
  have "distinct (map fst ys)" "set xs = set ys"
    using assms by (metis mset_eq_imp_distinct_iff mset_map, metis mset_eq_setD)
  then have "map_of xs = map_of ys"
    using assms(1) by (simp add: map_of_inject_set)
  then show ?thesis
    by (simp add: fmap_of_list.abs_eq)
qed

lemma erased_sanitize: "json_data v \<Longrightarrow> erased (sanitize v) = erased v"
proof (induction v rule: sanitize.induct)
  case (2 kvs)
  let ?ks = "filter keep_entry (sort_entries kvs)"
  let ?e = "\<lambda>kv. (fst kv, erased (snd kv))"
  have IH: "erased (sanitize (snd kv)) = erased (snd kv)" if "kv \<in> set ?ks" for kv
    using 2 that by (cases kv) (fastforce simp: keep_entry_def)
  have "erased (sanitize (JObj kvs))
      = CMap (fmap_of_list (map (\<lambda>kv. (fst kv, erased (sanitize (snd kv)))) ?ks))"
    by (simp add: filter_map o_def keep_entry_sanitize)
  also have "map (\<lambda>kv. (fst kv, erased (sanitize (snd kv)))) ?ks = map ?e ?ks"
    using IH by (intro map_cong) auto
  also have "fmap_of_list (map ?e ?ks) = fmap_of_list (map ?e (filter keep_entry kvs))"
    using 2 by (intro fmap_of_list_perm [symmetric])
      (simp_all add: o_def distinct_map_filter sort_entries_def)
  finally show ?case by simp
qed auto

lemma erased_entries_inject:
  assumes "sorted_wrt (<) (map fst kvs)" and "sorted_wrt (<) (map fst kvs')"
    and "fmap_of_list (map (\<lambda>kv. (fst kv, f (snd kv))) kvs)
      = fmap_of_list (map (\<lambda>kv. (fst kv, f (snd kv))) (kvs' :: (string \<times> 'a) list))"
    and "\<And>kv kv'. kv \<in> set kvs \<Longrightarrow> kv' \<in> set kvs' \<Longrightarrow> f (snd kv) = f (snd kv') \<Longrightarrow> snd kv = snd kv'"
  shows "kvs = kvs'"
proof -
  let ?m = "\<lambda>kvs. map (\<lambda>kv. (fst kv, f (snd kv))) kvs"
  have eq: "map_of (?m kvs) = map_of (?m kvs')"
    using assms(3) by (metis fmlookup_of_list)
  have dom_m: "dom (map_of (?m xs)) = set (map fst xs)" for xs :: "(string \<times> 'a) list"
    by (simp add: dom_map_of_conv_image_fst image_image)
  from eq have keys: "set (map fst kvs) = set (map fst kvs')"
    by (metis (no_types) dom_m)
  have d: "distinct (map fst kvs)" "distinct (map fst kvs')"
    using assms(1,2) by (simp_all add: strict_sorted_iff)
  have fsts: "map fst kvs = map fst kvs'"
    using assms(1,2) keys by (intro strict_sorted_equal)
  have "kvs ! i = kvs' ! i" if i: "i < length kvs" for i
  proof -
    have l: "length kvs = length kvs'"
      using fsts by (rule map_eq_imp_length_eq)
    have f: "fst (kvs ! i) = fst (kvs' ! i)"
      using fsts i l by (metis nth_map)
    have "map_of (?m xs) (fst (xs ! i)) = Some (f (snd (xs ! i)))"
      if "distinct (map fst xs)" "i < length xs" for xs :: "(string \<times> 'a) list"
      using that by (intro map_of_is_SomeI) (simp_all add: o_def image_iff, metis nth_mem)
    from this [of kvs] this [of kvs'] have "f (snd (kvs ! i)) = f (snd (kvs' ! i))"
      using d i l f eq by simp
    then have "snd (kvs ! i) = snd (kvs' ! i)"
      using assms(4) i l by (metis nth_mem)
    with f show ?thesis
      by (simp add: prod_eq_iff)
  qed
  then show ?thesis
    using fsts by (intro nth_equalityI) (auto dest: map_eq_imp_length_eq)
qed

lemma erased_inject:
  "canonical_value v \<Longrightarrow> canonical_value w \<Longrightarrow> erased v = erased w \<Longrightarrow> v = w"
proof (induction v arbitrary: w rule: canonical_value.induct)
  case (1 vs)
  show ?case
  proof (cases w)
    case (JArr ws)
    then have m: "map erased vs = map erased ws"
      using 1(4) by simp
    then have "vs ! i = ws ! i" if "i < length vs" for i
      using 1 JArr that by (metis canonical_value.simps(1) length_map nth_map nth_mem)
    with m JArr show ?thesis
      by (simp add: list_eq_iff_nth_eq)
  qed (use 1 in auto)
next
  case (2 kvs)
  show ?case
  proof (cases w)
    case (JObj kvs')
    have "kvs = kvs'"
    proof (rule erased_entries_inject [where f = erased])
      show "snd kv = snd kv'"
        if "kv \<in> set kvs" "kv' \<in> set kvs'" "erased (snd kv) = erased (snd kv')" for kv kv'
        using 2 that JObj by (metis canonical_value.simps(2))
    qed (use 2 JObj in \<open>auto simp: filter_id_conv [THEN iffD2]\<close>)
    with JObj show ?thesis by simp
  qed (use 2 in auto)
qed (case_tac w; simp)+
section \<open>The canonical text can be read back\<close>

definition stop :: "string \<Rightarrow> bool" where
  "stop x = (x = [] \<or> hd x = CHR '','' \<or> hd x = CHR '']'' \<or> hd x = CHR ''}'')"

definition token_char :: "char \<Rightarrow> bool" where
  "token_char c = (c \<noteq> CHR '','' \<and> c \<noteq> CHR '']'' \<and> c \<noteq> CHR ''}'')"

lemma stop_token: "stop (c # x) \<Longrightarrow> \<not> token_char c"
  by (auto simp: stop_def token_char_def)

lemma token_read:
  assumes "s @ x = t @ y" "\<forall>c \<in> set s. token_char c" "\<forall>c \<in> set t. token_char c" "stop x" "stop y"
  shows "s = t \<and> x = y"
  using assms
proof (induction s arbitrary: t)
  case Nil
  then show ?case by (cases t) (auto dest: stop_token)
next
  case (Cons c s)
  then show ?case by (cases t) (auto dest: stop_token)
qed

lemma code_hex_digit: "n < 16 \<Longrightarrow> code (hex_digit n) = (if n < 10 then 48 + n else 87 + n)"
  unfolding hex_digit_def by (cases "n < 10") simp_all

lemma hex_digit_inject:
  assumes "m < 16" "n < 16" "hex_digit m = hex_digit n"
  shows "m = n"
proof -
  have "code (hex_digit m) = code (hex_digit n)"
    using assms(3) by (rule arg_cong)
  then have "(if m < 10 then 48 + m else 87 + m) = (if n < 10 then 48 + n else 87 + n)"
    unfolding code_hex_digit [OF assms(1)] code_hex_digit [OF assms(2)] .
  then show ?thesis
    using assms(1,2) by presburger
qed

lemma hex_pair_inject:
  assumes "hex_digit (m div 16) = hex_digit (n div 16)" "hex_digit (m mod 16) = hex_digit (n mod 16)"
    and "m < 32" "n < 32"
  shows "m = n"
proof -
  have "m div 16 < 16" "n div 16 < 16" "m mod 16 < 16" "n mod 16 < 16"
    using assms(3,4) by simp_all
  then have "m div 16 = n div 16" "m mod 16 = n mod 16"
    using assms(1,2) hex_digit_inject by blast+
  then show ?thesis
    by (metis div_mult_mod_eq)
qed

lemma short_escape_inject:
  assumes "map_of SHORT_ESCAPES m = Some e" "map_of SHORT_ESCAPES n = Some e"
  shows "m = n"
proof -
  have "map_of (map prod.swap SHORT_ESCAPES) e = Some k" if "map_of SHORT_ESCAPES k = Some e" for k
    using map_of_SomeD [OF that] by (auto simp: SHORT_ESCAPES_def)
  from this [OF assms(1)] this [OF assms(2)] show ?thesis
    by simp
qed

lemma short_escape_codes:
  "map_of SHORT_ESCAPES 92 = Some (CHR 0x5C)" "map_of SHORT_ESCAPES 34 = Some (CHR 0x22)"
  "map_of SHORT_ESCAPES m \<noteq> Some (CHR ''u'')"
  using map_of_SomeD [of SHORT_ESCAPES m] by (auto simp: SHORT_ESCAPES_def)

lemma json_escape_cases:
  obtains (short) e where "map_of SHORT_ESCAPES (code c) = Some e" "json_escape c = [CHR 0x5C, e]"
  | (hex) "code c < 32" "json_escape c =
      [CHR 0x5C, CHR ''u'', CHR ''0'', CHR ''0'', hex_digit (code c div 16), hex_digit (code c mod 16)]"
  | (raw) "c \<noteq> CHR 0x5C" "c \<noteq> CHR 0x22" "json_escape c = [c]"
proof (cases "map_of SHORT_ESCAPES (code c)")
  case None
  then have "c \<noteq> CHR 0x5C \<and> c \<noteq> CHR 0x22"
    using short_escape_codes(1,2) by fastforce
  with None hex raw show ?thesis
    by (cases "code c < 32") (simp_all add: json_escape_def Let_def)
next
  case (Some e)
  with short show ?thesis
    by (simp add: json_escape_def Let_def)
qed

lemma json_escape_read:
  assumes "json_escape c @ x = json_escape d @ y"
  shows "c = d \<and> x = y"
proof (cases c rule: json_escape_cases)
  case (short e)
  with assms show ?thesis
    by (cases d rule: json_escape_cases) (auto dest: short_escape_inject simp: short_escape_codes)
next
  case hex
  with assms show ?thesis
    by (cases d rule: json_escape_cases) (auto dest: hex_pair_inject simp: short_escape_codes)
next
  case raw
  with assms show ?thesis
    by (cases d rule: json_escape_cases) auto
qed

lemma json_escape_quote: "json_escape c @ x \<noteq> CHR 0x22 # y"
  by (cases c rule: json_escape_cases) auto

lemma json_text_read:
  "concat (map json_escape s) @ CHR 0x22 # x = concat (map json_escape t) @ CHR 0x22 # y
     \<Longrightarrow> s = t \<and> x = y"
proof (induction s arbitrary: t)
  case Nil
  then show ?case
  proof (cases t)
    case (Cons d t')
    with Nil json_escape_quote [of d "concat (map json_escape t') @ CHR 0x22 # y" x] show ?thesis
      by simp
  qed simp
next
  case (Cons c s)
  show ?case
  proof (cases t)
    case Nil
    with Cons(2) json_escape_quote [of c "concat (map json_escape s) @ CHR 0x22 # x" y] show ?thesis
      by simp
  next
    case t: (Cons d t')
    have "c = d \<and> concat (map json_escape s) @ CHR 0x22 # x = concat (map json_escape t') @ CHR 0x22 # y"
      using Cons(2) t by (intro json_escape_read) simp
    with Cons(1) [of t'] t show ?thesis
      by simp
  qed
qed

lemma json_quote_read: "json_quote s @ x = json_quote t @ y \<Longrightarrow> s = t \<and> x = y"
  by (rule json_text_read) (simp add: json_quote_def)

text \<open>Decimal numerals.\<close>

definition digits_value :: "string \<Rightarrow> nat" where
  "digits_value s = foldl (\<lambda>a c. 10 * a + (code c - 48)) 0 s"

lemma digits_value_show_nat: "digits_value (show_nat n) = n"
proof (induction n rule: show_nat.induct)
  case (1 n)
  show ?case
  proof (cases "n < 10")
    case True
    then show ?thesis
      by (simp add: show_nat.simps [of n] digits_value_def)
  next
    case False
    with 1 have "digits_value (show_nat (n div 10) @ [char_of (48 + n mod 10)]) = 10 * (n div 10) + n mod 10"
      by (simp add: digits_value_def)
    with False show ?thesis
      by (simp add: show_nat.simps [of n])
  qed
qed

lemma show_nat_inject: "show_nat m = show_nat n \<longleftrightarrow> m = n"
  by (metis digits_value_show_nat)

lemma show_nat_digits: "c \<in> set (show_nat n) \<Longrightarrow> is_digit c"
proof (induction n rule: show_nat.induct)
  case (1 n)
  have "n mod 10 < 10" by simp
  then have "is_digit (char_of (48 + n mod 10))"
    by (simp add: is_digit_def)
  with 1 show ?case
    by (cases "n < 10") (auto simp: show_nat.simps [of n] is_digit_def)
qed

lemma show_nat_nonempty: "show_nat n \<noteq> []"
  by (simp add: show_nat.simps [of n])

lemma show_int_inject: "show_int i = show_int j \<longleftrightarrow> i = j"
proof -
  have "CHR ''-'' \<notin> set (show_nat n)" for n
    using show_nat_digits [of "CHR ''-''" n] by (auto simp: is_digit_def)
  then have neg: "CHR ''-'' # s \<noteq> show_nat n" for s n
    by (metis list.set_intros(1))
  show ?thesis
    using neg by (auto simp: show_int_def show_nat_inject neg [symmetric] split: if_splits)
qed

definition int_char :: "char \<Rightarrow> bool" where
  "int_char c = (is_digit c \<or> c = CHR ''-'')"

lemma show_int_chars: "c \<in> set (show_int i) \<Longrightarrow> int_char c"
  by (auto simp: show_int_def int_char_def dest: show_nat_digits split: if_splits)

lemma show_int_nonempty: "show_int i \<noteq> []"
  by (simp add: show_int_def show_nat_nonempty)

lemma int_char_simps [simp]:
  "int_char (CHR '','') = False" "int_char (CHR '']'') = False" "int_char (CHR ''}'') = False"
  "int_char (CHR ''['') = False" "int_char (CHR ''{'') = False" "int_char (CHR 0x22) = False"
  "int_char (CHR ''n'') = False" "int_char (CHR ''t'') = False" "int_char (CHR ''f'') = False"
  by (simp_all add: int_char_def is_digit_def)

lemma show_int_read:
  assumes "show_int i @ x = show_int j @ y" "stop x" "stop y"
  shows "i = j \<and> x = y"
proof -
  have "\<forall>c \<in> set (show_int k). token_char c" for k
    by (auto simp: token_char_def dest: show_int_chars)
  with token_read [OF assms(1)] assms(2,3) show ?thesis
    by (simp add: show_int_inject)
qed

text \<open>Comma-separated lists of readable texts.\<close>

lemma join_Cons: "ss \<noteq> [] \<Longrightarrow> join sep (s # ss) = s @ sep @ join sep ss"
  by (cases ss) simp_all

definition join_rest :: "('a \<Rightarrow> string) \<Rightarrow> 'a list \<Rightarrow> string \<Rightarrow> string" where
  "join_rest f vs x = (if vs = [] then x else CHR '','' # join '','' (map f vs) @ x)"

lemma join_append: "join '','' (map f (v # vs)) @ x = f v @ join_rest f vs x"
  by (cases vs) (simp_all add: join_rest_def)

lemma join_read:
  assumes read: "\<And>v w x y. v \<in> set vs \<Longrightarrow> P w \<Longrightarrow> stop x \<Longrightarrow> stop y \<Longrightarrow> f v @ x = f w @ y \<Longrightarrow> v = w \<and> x = y"
    and vs: "\<And>v. v \<in> set vs \<Longrightarrow> P v" and ws: "\<And>w. w \<in> set ws \<Longrightarrow> P w"
    and hd: "\<And>v x. P v \<Longrightarrow> \<not> stop (f v @ x)"
    and e: "e = CHR '']'' \<or> e = CHR ''}''"
    and eq: "join '','' (map f vs) @ e # x = join '','' (map f ws) @ e # y"
  shows "vs = ws \<and> x = y"
  using read vs ws eq
proof (induction vs arbitrary: ws)
  case Nil
  show ?case
  proof (cases ws)
    case (Cons w ws')
    then have "f w @ join_rest f ws' (e # y) = e # x"
      using Nil(4) by (metis append_Nil join.simps(1) join_append list.simps(8))
    moreover have "stop (e # x)"
      using e by (auto simp: stop_def)
    ultimately show ?thesis
      using hd Nil(3) Cons by (metis list.set_intros(1))
  qed (use Nil in simp)
next
  case step: (Cons v vs)
  have rest: "stop (join_rest f us (e # z))" for us z
    using e by (auto simp: join_rest_def stop_def)
  show ?case
  proof (cases ws)
    case Nil
    then have "f v @ join_rest f vs (e # x) = e # y"
      using step(5) by (metis append_Nil join.simps(1) join_append list.simps(8))
    moreover have "stop (e # y)"
      using e by (auto simp: stop_def)
    ultimately show ?thesis
      using hd step(3) by (metis list.set_intros(1))
  next
    case (Cons w ws')
    have "f v @ join_rest f vs (e # x) = f w @ join_rest f ws' (e # y)"
      using step(5) unfolding Cons join_append .
    from step(2) [OF _ _ rest rest this]
    have "v = w \<and> join_rest f vs (e # x) = join_rest f ws' (e # y)"
      using step(4) Cons by simp
    then have vw: "v = w" and r: "join_rest f vs (e # x) = join_rest f ws' (e # y)"
      by simp_all
    have "vs = [] \<longleftrightarrow> ws' = []"
      using r e by (auto simp: join_rest_def split: if_splits)
    then have "join '','' (map f vs) @ e # x = join '','' (map f ws') @ e # y"
      using r by (auto simp: join_rest_def split: if_splits)
    have "vs = ws' \<and> x = y"
    proof (rule step(1))
      show "u = u' \<and> a = b"
        if "u \<in> set vs" "P u'" "stop a" "stop b" "f u @ a = f u' @ b" for u u' a b
        by (rule step(2) [OF _ that(2-5)]) (use that(1) in simp)
      show "P u" if "u \<in> set vs" for u
        using step(3) that by simp
      show "P u" if "u \<in> set ws'" for u
        using step(4) that Cons by simp
    qed fact
    with vw Cons show ?thesis
      by simp
  qed
qed

section \<open>Reading a canonical value\<close>

definition text_of :: "host \<Rightarrow> jsval \<Rightarrow> string" where
  "text_of h v = undefined_text (canonicalize h v)"

lemma canonical_text: "canonical_value v \<Longrightarrow> canonicalize h v = Some (text_of h v)"
  by (cases v) (simp_all add: text_of_def undefined_text_def)

lemma text_of_JArr:
  "canonical_value (JArr vs) \<Longrightarrow> text_of h (JArr vs) = CHR ''['' # join '','' (map (text_of h) vs) @ '']''"
proof -
  assume "canonical_value (JArr vs)"
  then have "map (\<lambda>v. case canonicalize h v of None \<Rightarrow> [] | Some s \<Rightarrow> s) vs = map (text_of h) vs"
    by (intro map_cong) (simp_all add: canonical_text)
  then show ?thesis
    by (simp add: text_of_def [of h "JArr vs"] undefined_text_def del: map_eq_conv)
qed

definition entry_text :: "host \<Rightarrow> string \<times> jsval \<Rightarrow> string" where
  "entry_text h kv = json_quote (fst kv) @ CHR '':'' # text_of h (snd kv)"

lemma text_of_JObj:
  assumes "canonical_value (JObj kvs)"
  shows "text_of h (JObj kvs) = CHR ''{'' # join '','' (map (entry_text h) kvs) @ ''}''"
proof -
  let ?t = "\<lambda>kv. (fst kv, json_quote (fst kv) @ '':'' @
       (case canonicalize h (snd kv) of None \<Rightarrow> ''undefined'' | Some s \<Rightarrow> s))"
  have t: "map ?t kvs = map (\<lambda>kv. (fst kv, entry_text h kv)) kvs"
    by (simp add: entry_text_def text_of_def undefined_text_def)
  have "sorted_wrt (<) (map fst (map (\<lambda>kv. (fst kv, entry_text h kv)) kvs))"
    using assms by (simp add: o_def)
  then have "sort_by (key fst default) (map (\<lambda>kv. (fst kv, entry_text h kv)) kvs)
      = map (\<lambda>kv. (fst kv, entry_text h kv)) kvs"
    by (intro sort_by_sorted_id strict_entries_sorted)
  then show ?thesis
    unfolding text_of_def [of h "JObj kvs"] undefined_text_def canonicalize.simps t
    by (simp add: o_def)
qed

lemma text_of_prim:
  "text_of h JNull = ''null''"
  "text_of h (JBool b) = (if b then ''true'' else ''false'')"
  "text_of h (JStr s) = json_quote s"
  "canonical_value (JNum r) \<Longrightarrow> text_of h (JNum r) = show_int \<lfloor>r\<rfloor>"
  by (simp_all add: text_of_def undefined_text_def rat_string_def)

definition kind_of :: "jsval \<Rightarrow> nat" where
  "kind_of v = (case v of JNull \<Rightarrow> 1 | JBool b \<Rightarrow> (if b then 2 else 3) | JStr _ \<Rightarrow> 4
     | JArr _ \<Rightarrow> 5 | JObj _ \<Rightarrow> 6 | JNum _ \<Rightarrow> 7 | _ \<Rightarrow> 8)"

definition lead :: "char \<Rightarrow> nat" where
  "lead c = (if c = CHR ''n'' then 1 else if c = CHR ''t'' then 2 else if c = CHR ''f'' then 3
     else if c = CHR 0x22 then 4 else if c = CHR ''['' then 5 else if c = CHR ''{'' then 6
     else if int_char c then 7 else 0)"

lemma text_of_lead:
  assumes "canonical_value v"
  shows "\<exists>c s. text_of h v = c # s \<and> lead c = kind_of v"
proof (cases v)
  case (JNum r)
  obtain c s where cs: "show_int \<lfloor>r\<rfloor> = c # s"
    using show_int_nonempty by (metis list.exhaust)
  then have "int_char c"
    using show_int_chars [of c "\<lfloor>r\<rfloor>"] by simp
  then have "lead c = 7"
    by (auto simp: lead_def)
  with cs assms JNum show ?thesis
    by (simp add: text_of_prim kind_of_def)
qed (use assms in \<open>auto simp: text_of_prim text_of_JArr text_of_JObj kind_of_def lead_def json_quote_def\<close>)

lemma text_of_not_stop:
  assumes "canonical_value v"
  shows "\<not> stop (text_of h v @ x)"
proof -
  obtain c s where "text_of h v = c # s" "lead c = kind_of v"
    using text_of_lead [OF assms] by blast
  moreover have "kind_of v \<noteq> 0"
    by (simp add: kind_of_def split: jsval.split)
  ultimately show ?thesis
    by (auto simp: stop_def lead_def)
qed

lemma text_of_kind:
  assumes "canonical_value v" "canonical_value w" "text_of h v @ x = text_of h w @ y"
  shows "kind_of v = kind_of w"
  using text_of_lead [OF assms(1), of h] text_of_lead [OF assms(2), of h] assms(3) by auto

lemma entry_text_read:
  assumes "\<And>x y. stop x \<Longrightarrow> stop y \<Longrightarrow> text_of h (snd kv) @ x = text_of h (snd kv') @ y
      \<Longrightarrow> snd kv = snd kv' \<and> x = y"
    and "stop x" "stop y" "entry_text h kv @ x = entry_text h kv' @ y"
  shows "kv = kv' \<and> x = y"
proof -
  have "fst kv = fst kv' \<and> CHR '':'' # text_of h (snd kv) @ x = CHR '':'' # text_of h (snd kv') @ y"
    using assms(4) by (intro json_quote_read) (simp add: entry_text_def)
  with assms(1-3) show ?thesis
    by (auto simp: prod_eq_iff)
qed

lemma entry_text_not_stop: "\<not> stop (entry_text h kv @ x)"
  by (simp add: entry_text_def json_quote_def stop_def)

lemma text_of_read:
  "canonical_value v \<Longrightarrow> canonical_value w \<Longrightarrow> stop x \<Longrightarrow> stop y
     \<Longrightarrow> text_of h v @ x = text_of h w @ y \<Longrightarrow> v = w \<and> x = y"
proof (induction v arbitrary: w x y rule: canonical_value.induct)
  case (1 vs)
  then obtain ws where w: "w = JArr ws"
    using text_of_kind [OF 1(2,3,6)] by (cases w) (auto simp: kind_of_def split: if_splits)
  have "vs = ws \<and> x = y"
  proof (rule join_read [where P = canonical_value and f = "text_of h" and e = "CHR '']''"])
    show "join '','' (map (text_of h) vs) @ CHR '']'' # x = join '','' (map (text_of h) ws) @ CHR '']'' # y"
      using 1(2,3,6) by (simp add: w text_of_JArr del: canonical_value.simps)
    show "\<not> stop (text_of h v @ x)" if "canonical_value v" for v x
      by (rule text_of_not_stop [OF that])
  qed (use 1 w in auto)
  with w show ?case by simp
next
  case (2 kvs)
  then obtain kvs' where w: "w = JObj kvs'"
    using text_of_kind [OF 2(2,3,6)] by (cases w) (auto simp: kind_of_def split: if_splits)
  have "kvs = kvs' \<and> x = y"
  proof (rule join_read [where P = "\<lambda>kv. canonical_value (snd kv)" and f = "entry_text h" and e = "CHR ''}''"])
    show "join '','' (map (entry_text h) kvs) @ CHR ''}'' # x = join '','' (map (entry_text h) kvs') @ CHR ''}'' # y"
      using 2(2,3,6) by (simp add: w text_of_JObj del: canonical_value.simps)
    show "kv = kv' \<and> x = y"
      if "kv \<in> set kvs" "canonical_value (snd kv')" "stop x" "stop y" "entry_text h kv @ x = entry_text h kv' @ y"
      for kv kv' x y
      by (rule entry_text_read [OF 2(1) that(3-5)]) (use that 2(2) in auto)
  qed (use 2 w entry_text_not_stop in auto)
  with w show ?case by simp
next
  case (3 r)
  then obtain q where w: "w = JNum q"
    using text_of_kind [OF 3(1,2,5)] by (cases w) (auto simp: kind_of_def split: if_splits)
  have "\<lfloor>r\<rfloor> = \<lfloor>q\<rfloor> \<and> x = y"
    using 3 w by (intro show_int_read) (simp_all add: text_of_prim del: canonical_value.simps)
  with 3 w show ?case
    by (metis canonical_value.simps(3))
next
  case (6 s)
  then obtain t where w: "w = JStr t"
    using text_of_kind [OF 6(1,2,5)] by (cases w) (auto simp: kind_of_def split: if_splits)
  with 6 show ?case
    by (auto simp: text_of_prim dest: json_quote_read)
next
  case 4
  then have "w = JNull"
    using text_of_kind [OF 4(1,2,5)] by (cases w) (auto simp: kind_of_def split: if_splits)
  with 4 show ?case by simp
next
  case (5 b)
  then have "w = JBool b"
    using text_of_kind [OF 5(1,2,5)] by (cases w) (auto simp: kind_of_def split: if_splits)
  with 5 show ?case by simp
qed simp_all

lemma canonicalize_inject:
  assumes "canonical_value v" "canonical_value w" "canonicalize h v = canonicalize h w"
  shows "v = w"
proof -
  have "text_of h v @ [] = text_of h w @ []"
    using assms(3) by (simp add: text_of_def)
  from text_of_read [OF assms(1,2) _ _ this] show ?thesis
    by (simp add: stop_def)
qed

section \<open>What a context hash identifies\<close>

lemma hash_input_eq_iff:
  assumes "json_data v" "json_data w"
  shows "hash_input h v = hash_input h w \<longleftrightarrow> erased v = erased w"
proof
  assume "hash_input h v = hash_input h w"
  then have "canonicalize h (sanitize v) = canonicalize h (sanitize w)"
    using assms sanitize_canonical by (simp add: hash_input_def canonical_text undefined_text_def)
  then have "sanitize v = sanitize w"
    by (rule canonicalize_inject [OF sanitize_canonical [OF assms(1)] sanitize_canonical [OF assms(2)]])
  then show "erased v = erased w"
    using erased_sanitize [OF assms(1)] erased_sanitize [OF assms(2)] by simp
next
  assume "erased v = erased w"
  then have "erased (sanitize v) = erased (sanitize w)"
    using assms by (simp add: erased_sanitize)
  then have "sanitize v = sanitize w"
    using assms by (intro erased_inject sanitize_canonical)
  then show "hash_input h v = hash_input h w"
    by (simp add: hash_input_def)
qed

text \<open>
  C4. Where the digest does not collide on the two inputs, two JSON contexts have the same
  hash exactly when they denote the same data once their secrets are erased: neither the
  order of properties nor the value of a secret changes it, and every other difference does.
\<close>

theorem hash_identifies_context:
  assumes "json_data v" and "json_data w"
    and "sha256_hex h (hash_input h v) = sha256_hex h (hash_input h w)
      \<Longrightarrow> hash_input h v = hash_input h w"
  shows "createContextHash h v = createContextHash h w \<longleftrightarrow> erased v = erased w"
  using assms(3) hash_input_eq_iff [OF assms(1,2), of h] by (auto simp: createContextHash_def)

definition demo_context :: jsval where
  "demo_context = JObj [(''tenantId'', JStr ''t1''), (''apiKey'', JStr ''k1''),
     (''limits'', JObj [(''b'', JNum 2), (''a'', JArr [JBool True, JNull])])]"

definition demo_context_reordered :: jsval where
  "demo_context_reordered = JObj [(''limits'', JObj [(''a'', JArr [JBool True, JNull]), (''b'', JNum 2)]),
     (''apiKey'', JStr ''k2''), (''tenantId'', JStr ''t1'')]"

definition text_host :: host where
  "text_host = plain_host\<lparr>sha256_hex := (\<lambda>s. s)\<rparr>"

lemma demo_context_data: "json_data demo_context" "json_data demo_context_reordered"
  by code_simp+

lemma demo_context_hash: "createContextHash text_host demo_context = createContextHash text_host demo_context_reordered"
  by code_simp

theorem hash_identifies_context_witness:
  "erased demo_context = erased demo_context_reordered"
  using hash_identifies_context [OF demo_context_data, of text_host] demo_context_hash
  by (simp add: text_host_def)

end
