(* ===== verification/JS_Regex.thy ===== *)
theory JS_Regex
  imports JS_Value
begin

text \<open>
  Regular expressions as the sources use them with \<^verbatim>\<open>RegExp.prototype.test\<close>:
  whether some part of a string matches. The matcher takes derivatives; its correctness
  against the language of the expression is proved here once.
\<close>

datatype rx =
    RNone
  | REps
  | RCls "char \<Rightarrow> bool"
  | RAlt rx rx
  | RSeq rx rx
  | RStar rx

section \<open>The language of an expression\<close>

inductive in_rx :: "rx \<Rightarrow> string \<Rightarrow> bool" where
  eps: "in_rx REps []"
| cls: "p c \<Longrightarrow> in_rx (RCls p) [c]"
| alt1: "in_rx r s \<Longrightarrow> in_rx (RAlt r q) s"
| alt2: "in_rx q s \<Longrightarrow> in_rx (RAlt r q) s"
| seq: "in_rx r s \<Longrightarrow> in_rx q t \<Longrightarrow> in_rx (RSeq r q) (s @ t)"
| star_nil: "in_rx (RStar r) []"
| star_step: "in_rx r s \<Longrightarrow> in_rx (RStar r) t \<Longrightarrow> in_rx (RStar r) (s @ t)"

inductive_simps in_rx_RNone [simp]: "in_rx RNone s"
inductive_simps in_rx_REps [simp]: "in_rx REps s"
inductive_simps in_rx_RCls: "in_rx (RCls p) s"
inductive_simps in_rx_RAlt [simp]: "in_rx (RAlt r q) s"
inductive_simps in_rx_RSeq: "in_rx (RSeq r q) s"
inductive_cases in_rx_RStarE: "in_rx (RStar r) s"

section \<open>Matching by derivatives\<close>

fun nullable :: "rx \<Rightarrow> bool" where
  "nullable RNone = False"
| "nullable REps = True"
| "nullable (RCls p) = False"
| "nullable (RAlt r q) = (nullable r \<or> nullable q)"
| "nullable (RSeq r q) = (nullable r \<and> nullable q)"
| "nullable (RStar r) = True"

fun ralt :: "rx \<Rightarrow> rx \<Rightarrow> rx" where
  "ralt RNone q = q"
| "ralt r RNone = r"
| "ralt r q = RAlt r q"

fun rseq :: "rx \<Rightarrow> rx \<Rightarrow> rx" where
  "rseq RNone q = RNone"
| "rseq REps q = q"
| "rseq r q = RSeq r q"

fun deriv :: "char \<Rightarrow> rx \<Rightarrow> rx" where
  "deriv c RNone = RNone"
| "deriv c REps = RNone"
| "deriv c (RCls p) = (if p c then REps else RNone)"
| "deriv c (RAlt r q) = ralt (deriv c r) (deriv c q)"
| "deriv c (RSeq r q) =
     (let d = rseq (deriv c r) q in if nullable r then ralt d (deriv c q) else d)"
| "deriv c (RStar r) = rseq (deriv c r) (RStar r)"

text \<open>The whole string matches; some prefix matches; some part matches.\<close>

fun rx_full :: "rx \<Rightarrow> string \<Rightarrow> bool" where
  "rx_full r [] = nullable r"
| "rx_full r (c # s) = rx_full (deriv c r) s"

fun rx_prefix :: "rx \<Rightarrow> string \<Rightarrow> bool" where
  "rx_prefix r [] = nullable r"
| "rx_prefix r (c # s) = (if nullable r then True else rx_prefix (deriv c r) s)"

fun rx_find :: "rx \<Rightarrow> string \<Rightarrow> bool" where
  "rx_find r [] = nullable r"
| "rx_find r (c # s) = (if rx_prefix r (c # s) then True else rx_find r s)"

section \<open>Building expressions\<close>

definition rlit :: "string \<Rightarrow> rx" where
  "rlit s = foldr (\<lambda>c r. RSeq (RCls ((=) c)) r) s REps"

text \<open>A literal under the \<^verbatim>\<open>i\<close> flag, given in lower case.\<close>

definition rlit_ci :: "string \<Rightarrow> rx" where
  "rlit_ci s = foldr (\<lambda>c r. RSeq (RCls (\<lambda>x. lower_char x = c)) r) s REps"

definition rplus :: "rx \<Rightarrow> rx" where
  "rplus r = RSeq r (RStar r)"

definition ropt :: "rx \<Rightarrow> rx" where
  "ropt r = RAlt REps r"

definition ralts :: "rx list \<Rightarrow> rx" where
  "ralts rs = foldr RAlt rs RNone"

definition rseqs :: "rx list \<Rightarrow> rx" where
  "rseqs rs = foldr RSeq rs REps"

section \<open>Correctness of the matcher\<close>

lemma in_ralt [simp]: "in_rx (ralt r q) s \<longleftrightarrow> in_rx r s \<or> in_rx q s"
  by (cases "(r, q)" rule: ralt.cases) auto

lemma in_rseq [simp]: "in_rx (rseq r q) s \<longleftrightarrow> in_rx (RSeq r q) s"
  by (cases "(r, q)" rule: rseq.cases) (auto simp: in_rx_RSeq)

lemma nullable_iff: "nullable r \<longleftrightarrow> in_rx r []"
proof (induction r)
  case (RSeq r q)
  then show ?case by (auto simp: in_rx_RSeq)
qed (auto simp: in_rx_RCls intro: in_rx.intros)

lemma star_Cons:
  "in_rx (RStar r) u \<Longrightarrow> u = c # s \<Longrightarrow> \<exists>s1 s2. s = s1 @ s2 \<and> in_rx r (c # s1) \<and> in_rx (RStar r) s2"
proof (induction "RStar r" u rule: in_rx.induct)
  case star_nil
  then show ?case by simp
next
  case (star_step x y)
  show ?case
  proof (cases x)
    case Nil
    with star_step show ?thesis by simp
  next
    case (Cons d xs)
    with star_step show ?thesis by auto
  qed
qed

lemma deriv_correct: "in_rx (deriv c r) s \<longleftrightarrow> in_rx r (c # s)"
proof (induction r arbitrary: s)
  case (RSeq r q)
  have "in_rx (RSeq r q) (c # s)
      \<longleftrightarrow> (\<exists>s1 s2. s = s1 @ s2 \<and> in_rx r (c # s1) \<and> in_rx q s2)
        \<or> in_rx r [] \<and> in_rx q (c # s)"
    by (auto simp: in_rx_RSeq Cons_eq_append_conv)
  with RSeq show ?case
    by (auto simp: Let_def in_rx_RSeq nullable_iff)
next
  case (RStar r)
  show ?case
    using RStar star_Cons [of r "c # s" c s]
    by (auto simp: in_rx_RSeq dest: in_rx.star_step)
qed (auto simp: in_rx_RCls)

lemma rx_full_correct: "rx_full r s \<longleftrightarrow> in_rx r s"
  by (induction s arbitrary: r) (auto simp: nullable_iff deriv_correct)

lemma rx_prefix_correct: "rx_prefix r s \<longleftrightarrow> (\<exists>u v. s = u @ v \<and> in_rx r u)"
  by (induction s arbitrary: r)
    (auto simp: nullable_iff deriv_correct Cons_eq_append_conv)

lemma rx_find_correct: "rx_find r s \<longleftrightarrow> (\<exists>u v w. s = u @ v @ w \<and> in_rx r v)"
proof (induction s)
  case Nil
  then show ?case by (simp add: nullable_iff)
next
  case (Cons c s)
  have "rx_find r (c # s) \<longleftrightarrow> (\<exists>v w. c # s = v @ w \<and> in_rx r v)
      \<or> (\<exists>u v w. s = u @ v @ w \<and> in_rx r v)"
    unfolding rx_prefix_correct [symmetric] Cons.IH [symmetric]
    by (simp del: rx_prefix.simps)
  then show ?case
    by (auto simp: Cons_eq_append_conv) blast+
qed

section \<open>Expressions that avoid a character\<close>

text \<open>
  If no match of an expression holds the separator \<open>c\<close>, a match in two strings joined
  by \<open>c\<close> is a match in one of them.
\<close>

fun avoids :: "char \<Rightarrow> rx \<Rightarrow> bool" where
  "avoids c RNone = True"
| "avoids c REps = True"
| "avoids c (RCls p) = (\<not> p c)"
| "avoids c (RAlt r q) = (avoids c r \<and> avoids c q)"
| "avoids c (RSeq r q) = (avoids c r \<and> avoids c q)"
| "avoids c (RStar r) = avoids c r"

lemma avoids_sound: "in_rx r s \<Longrightarrow> avoids c r \<Longrightarrow> c \<notin> set s"
  by (induction rule: in_rx.induct) auto

lemma rx_full_avoids: "avoids c r \<Longrightarrow> c \<in> set s \<Longrightarrow> \<not> rx_full r s"
  using avoids_sound by (auto simp: rx_full_correct)

lemma infix_no_sep:
  "a @ c # b = u @ v @ w \<Longrightarrow> c \<notin> set v
     \<Longrightarrow> (\<exists>x y. a = x @ v @ y) \<or> (\<exists>x y. b = x @ v @ y)"
proof (induction a arbitrary: u)
  case Nil
  then show ?case
    by (cases u) (auto simp: Cons_eq_append_conv)
next
  case (Cons d a)
  show ?case
  proof (cases u)
    case Nil
    with Cons.prems have "d # a @ c # b = v @ w" by simp
    then obtain y where "d # a = v @ y \<or> (\<exists>t. v = (d # a) @ c # t)"
      using Cons.prems(2) by (auto simp: append_eq_append_conv2 Cons_eq_append_conv)
    with Cons.prems(2) have "d # a = [] @ v @ y" by auto
    then show ?thesis by blast
  next
    case (Cons e u')
    with Cons.prems have "a @ c # b = u' @ v @ w" by simp
    from Cons.IH [OF this Cons.prems(2)] show ?thesis
      by (metis append_Cons)
  qed
qed

lemma rx_find_sep:
  assumes "avoids c r" and "rx_find r (a @ c # b)"
  shows "rx_find r a \<or> rx_find r b"
proof -
  from assms(2) obtain u v w where uvw: "a @ c # b = u @ v @ w" and v: "in_rx r v"
    by (auto simp: rx_find_correct)
  from v assms(1) have "c \<notin> set v" by (rule avoids_sound)
  from infix_no_sep [OF uvw this] v show ?thesis
    unfolding rx_find_correct by blast
qed

section \<open>Anchored patterns of bounded length\<close>

text \<open>\<^verbatim>\<open>/^[first][rest]{lo,hi}$/\<close>.\<close>

definition bounded_pattern ::
    "(char \<Rightarrow> bool) \<Rightarrow> (char \<Rightarrow> bool) \<Rightarrow> nat \<Rightarrow> nat \<Rightarrow> string \<Rightarrow> bool" where
  "bounded_pattern first rest lo hi s = (case s of [] \<Rightarrow> False
     | c # cs \<Rightarrow> first c \<and> lo \<le> length cs \<and> length cs \<le> hi \<and> list_all rest cs)"

lemma bounded_pattern_chars:
  "bounded_pattern p q lo hi s \<Longrightarrow> c \<in> set s \<Longrightarrow> p c \<or> q c"
  by (auto simp: bounded_pattern_def list_all_iff split: list.splits)

lemma bounded_pattern_length: "bounded_pattern p q lo hi s \<Longrightarrow> length s \<le> Suc hi"
  by (auto simp: bounded_pattern_def split: list.splits)

lemma bounded_pattern_nonempty: "bounded_pattern p q lo hi s \<Longrightarrow> s \<noteq> []"
  by (auto simp: bounded_pattern_def)

end
