(* ===== verification/Kernel_Ident.thy ===== *)
theory Kernel_Ident
  imports Kernel_Model JS_Regex
begin

text \<open>
  The field validators that the evidence modules of \<^verbatim>\<open>contextKernel/domain\<close> share
  (each module carries its own copy of the same text): identifiers, timestamps, and lists of
  evidence records with distinct references. The contracts the modules rely on are two
  locales: a normaliser returns fixed points, and an evidence list keeps the binding its
  records were accepted for.
\<close>

section \<open>Identifiers and timestamps\<close>

definition tooLongError :: "string \<Rightarrow> nat \<Rightarrow> js_error" where
  "tooLongError field n = TypeError (field @ '' must not exceed '' @ show_nat n @ '' characters.'')"

definition requireString :: "host \<Rightarrow> jsval \<Rightarrow> string \<Rightarrow> nat \<Rightarrow> string res" where
  "requireString h value field maximumLength = (let normalized = trim (string_or_empty h value) in
     if normalized = [] then Inl (nonEmptyError field)
     else if maximumLength < length normalized then Inl (tooLongError field maximumLength)
     else Inr normalized)"

definition identifier_char :: "char \<Rightarrow> bool" where
  "identifier_char c = (is_alnum c \<or> c \<in> set ''_.:/-'')"

definition IDENTIFIER_PATTERN :: "string \<Rightarrow> bool" where
  "IDENTIFIER_PATTERN s = bounded_pattern is_alnum identifier_char 0 190 s"

definition requireIdentifier :: "host \<Rightarrow> jsval \<Rightarrow> string \<Rightarrow> string res" where
  "requireIdentifier h value field =
     res_bind (requireString h value field 191) (\<lambda>normalized.
       if IDENTIFIER_PATTERN normalized then Inr normalized
       else Inl (TypeError (field @ '' must be a stable identifier.'')))"

text \<open>
  \<^verbatim>\<open>if (value === null || value === undefined || value === "") return null\<close> before a
  validator.
\<close>

definition optional_with :: "(jsval \<Rightarrow> 'a res) \<Rightarrow> jsval \<Rightarrow> 'a option res" where
  "optional_with validate value =
     (if absent value then Inr None else res_bind (validate value) (\<lambda>x. Inr (Some x)))"

definition optionalIdentifier :: "host \<Rightarrow> jsval \<Rightarrow> string \<Rightarrow> string option res" where
  "optionalIdentifier h value field = optional_with (\<lambda>v. requireIdentifier h v field) value"

definition invalidTimestamp :: "string \<Rightarrow> js_error" where
  "invalidTimestamp field = TypeError (field @ '' must be a valid timestamp.'')"

definition normalizeTimestamp :: "host \<Rightarrow> jsval \<Rightarrow> string \<Rightarrow> int option res" where
  "normalizeTimestamp h value field =
     (if absent value then Inr None
      else case to_time h value of None \<Rightarrow> Inl (invalidTimestamp field) | Some t \<Rightarrow> Inr (Some t))"

definition requiredTimestamp :: "host \<Rightarrow> jsval \<Rightarrow> string \<Rightarrow> int res" where
  "requiredTimestamp h value field =
     (if absent value then Inl (invalidTimestamp field)
      else case to_time h value of None \<Rightarrow> Inl (invalidTimestamp field) | Some t \<Rightarrow> Inr t)"

text \<open>\<^verbatim>\<open>String(v || "").trim().toLowerCase()\<close>.\<close>

definition lower_token :: "host \<Rightarrow> jsval \<Rightarrow> string" where
  "lower_token h v = to_lower (trim (string_if_truthy h v))"

text \<open>
  \<^verbatim>\<open>now instanceof Date ? now : new Date(now)\<close> with \<^verbatim>\<open>now = new Date()\<close> as
  the default; \<open>clock\<close> is the time of the call.
\<close>

definition evaluated_now :: "host \<Rightarrow> int \<Rightarrow> jsval \<Rightarrow> int res" where
  "evaluated_now h clock now = (case to_time h (default_arg now (JDate (Some clock))) of
     None \<Rightarrow> Inl (TypeError ''now must be a valid Date.'') | Some t \<Rightarrow> Inr t)"

text \<open>A validity window; a missing bound does not limit it.\<close>

definition recordIsCurrent :: "int option \<Rightarrow> int option \<Rightarrow> int \<Rightarrow> bool" where
  "recordIsCurrent validFrom validUntil now =
     ((case validFrom of None \<Rightarrow> True | Some t \<Rightarrow> t \<le> now)
      \<and> (case validUntil of None \<Rightarrow> True | Some t \<Rightarrow> now < t))"

section \<open>Snapshots\<close>

text \<open>
  The header of an evidence snapshot: its binding, when it was captured, when it expires,
  and the provenance that a decision reports. A malformed header throws.
\<close>

record source_evidence =
  se_sourceRef :: "string option"
  se_versionRef :: "string option"
  se_evaluatedAt :: string
  se_expiresAt :: string

record 'b snapshot_header =
  sh_binding :: 'b
  sh_capturedAt :: int
  sh_expiresAt :: int
  sh_sourceEvidence :: source_evidence

definition read_snapshot :: "host \<Rightarrow> (jsval \<Rightarrow> 'b res) \<Rightarrow> jsval \<Rightarrow> 'b snapshot_header res" where
  "read_snapshot h normalize_binding snapshot =
     res_bind (normalize_binding snapshot) (\<lambda>snapshotBinding.
     res_bind (requiredTimestamp h (get snapshot ''evaluatedAt'') ''snapshot.evaluatedAt'') (\<lambda>capturedAt.
     res_bind (requiredTimestamp h (get snapshot ''expiresAt'') ''snapshot.expiresAt'') (\<lambda>expiresAt.
     res_bind (optionalIdentifier h (get snapshot ''sourceRef'') ''snapshot.sourceRef'') (\<lambda>sourceRef.
     res_bind (optionalIdentifier h (get snapshot ''versionRef'') ''snapshot.versionRef'') (\<lambda>versionRef.
     Inr \<lparr>sh_binding = snapshotBinding, sh_capturedAt = capturedAt, sh_expiresAt = expiresAt,
       sh_sourceEvidence = \<lparr>se_sourceRef = sourceRef, se_versionRef = versionRef,
         se_evaluatedAt = iso_string capturedAt, se_expiresAt = iso_string expiresAt\<rparr>\<rparr>)))))"

section \<open>Evidence lists\<close>

text \<open>
  The loop over raw records: each must normalise, and no reference may occur twice.
  Errors are reason codes.
\<close>

fun normalize_records ::
  "(jsval \<Rightarrow> string + 'r) \<Rightarrow> ('r \<Rightarrow> string) \<Rightarrow> string \<Rightarrow> string list \<Rightarrow> jsval list \<Rightarrow> string + 'r list"
where
  "normalize_records validate ref ambiguousCode references [] = Inr []"
| "normalize_records validate ref ambiguousCode references (v # vs) =
     res_bind (validate v) (\<lambda>r.
       if ref r \<in> set references then Inl ambiguousCode
       else res_bind (normalize_records validate ref ambiguousCode (ref r # references) vs)
         (\<lambda>rs. Inr (r # rs)))"

definition normalizeList ::
  "(jsval \<Rightarrow> string + 'r) \<Rightarrow> ('r \<Rightarrow> string) \<Rightarrow> nat \<Rightarrow> string \<Rightarrow> string \<Rightarrow> string \<Rightarrow> jsval \<Rightarrow> string + 'r list"
where
  "normalizeList validate ref maximumCount malformedCode limitCode ambiguousCode records =
     (case records of
        JArr vs \<Rightarrow> if maximumCount < length vs then Inl limitCode
          else normalize_records validate ref ambiguousCode [] vs
      | _ \<Rightarrow> Inl malformedCode)"

text \<open>A \<^verbatim>\<open>try\<close> block whose \<^verbatim>\<open>catch\<close> gives one code.\<close>

definition catch_code :: "string \<Rightarrow> (string + 'a) res \<Rightarrow> string + 'a" where
  "catch_code errorCode m = (case m of Inl _ \<Rightarrow> Inl errorCode | Inr r \<Rightarrow> r)"

section \<open>Normalisers\<close>

lemma catch_code_Inr [simp]: "catch_code c m = Inr r \<longleftrightarrow> m = Inr (Inr r)"
  by (auto simp: catch_code_def split: sum.splits)

lemma requireString_Inr:
  "requireString h v f n = Inr s \<longleftrightarrow> s = trim (string_or_empty h v) \<and> s \<noteq> [] \<and> length s \<le> n"
  by (auto simp: requireString_def Let_def not_less)

lemma requireIdentifier_Inr:
  "requireIdentifier h v f = Inr s \<longleftrightarrow> s = trim (string_or_empty h v) \<and> IDENTIFIER_PATTERN s"
proof -
  have "IDENTIFIER_PATTERN s \<Longrightarrow> s \<noteq> [] \<and> length s \<le> 191"
    by (auto simp: IDENTIFIER_PATTERN_def dest: bounded_pattern_nonempty bounded_pattern_length)
  then show ?thesis
    by (auto simp: requireIdentifier_def requireString_Inr split: if_splits)
qed

lemma string_or_empty_JStr [simp]: "string_or_empty h (JStr s) = s"
  by (simp add: string_or_empty_def nullish_def)

lemma optional_with_Inr:
  "optional_with validate v = Inr x \<longleftrightarrow>
     (if absent v then x = None else (\<exists>s. validate v = Inr s \<and> x = Some s))"
  by (auto simp: optional_with_def)

text \<open>
  A normaliser of a field: what it returns is a non-empty string that it returns
  unchanged, so that reading a stored value again gives the same value.
\<close>

locale normaliser =
  fixes validate :: "jsval \<Rightarrow> string res"
  assumes stable: "validate v = Inr s \<Longrightarrow> validate (JStr s) = Inr s"
    and nonempty: "validate v = Inr s \<Longrightarrow> s \<noteq> []"
begin

lemma optional_stable: "optional_with validate v = Inr x \<Longrightarrow> optional_with validate (jopt x) = Inr x"
  using stable nonempty by (auto simp: optional_with_def split: if_splits)

lemma list_stable: "res_map validate vs = Inr ss \<Longrightarrow> res_map validate (map JStr ss) = Inr ss"
  using stable by (intro res_map_idem) (meson res_map_set)

lemma subset_stable:
  assumes "res_map validate vs = Inr ss" and "set ts \<subseteq> set ss"
  shows "res_map validate (map JStr ts) = Inr ts"
  using assms stable by (intro res_map_idem) (meson res_map_set subsetD)

lemma optional_nonempty: "optional_with validate v = Inr (Some s) \<Longrightarrow> s \<noteq> []"
  using nonempty by (auto simp: optional_with_def split: if_splits)

end

interpretation model_string: normaliser "\<lambda>v. requireNonEmptyString v f" for f
  by unfold_locales auto

interpretation bounded_string: normaliser "\<lambda>v. requireString h v f n" for h f n
  by unfold_locales (auto simp: requireString_Inr)

interpretation stable_id: normaliser "\<lambda>v. requireIdentifier h v f" for h f
  by unfold_locales
    (auto simp: requireIdentifier_Inr IDENTIFIER_PATTERN_def dest: bounded_pattern_nonempty)

section \<open>Accepted evidence\<close>

lemma normalize_records_Inr:
  "normalize_records validate ref amb refs vs = Inr rs \<longleftrightarrow>
     list_all2 (\<lambda>v r. validate v = Inr r) vs rs \<and> distinct (map ref rs) \<and> set refs \<inter> set (map ref rs) = {}"
proof (induction vs arbitrary: refs rs)
  case (Cons v vs)
  then show ?case
    by (cases rs) auto
qed auto

lemma normalizeList_Inr:
  "normalizeList validate ref n mc lc ac records = Inr rs \<longleftrightarrow>
     (\<exists>vs. records = JArr vs \<and> length vs \<le> n \<and> list_all2 (\<lambda>v r. validate v = Inr r) vs rs
        \<and> distinct (map ref rs))"
  by (auto simp: normalizeList_def normalize_records_Inr split: jsval.splits)

text \<open>
  Evidence accepted for a binding: whatever record a list keeps was read from a raw record
  that carries the binding asked for.
\<close>

locale bound_evidence =
  fixes validate :: "'b \<Rightarrow> jsval \<Rightarrow> string + 'r" and carries :: "jsval \<Rightarrow> 'b \<Rightarrow> bool"
  assumes bound: "validate b v = Inr r \<Longrightarrow> carries v b"
begin

lemma list_bound:
  assumes "normalizeList (validate b) ref n mc lc ac (JArr vs) = Inr rs" and "v \<in> set vs"
  shows "carries v b"
proof -
  obtain i where i: "i < length vs" "v = vs ! i"
    using assms(2) by (metis in_set_conv_nth)
  have "list_all2 (\<lambda>v r. validate b v = Inr r) vs rs"
    using assms(1) by (simp add: normalizeList_Inr)
  then have "validate b v = Inr (rs ! i)"
    using i list_all2_nthD [of _ vs rs i] by blast
  then show ?thesis
    by (rule bound)
qed

lemma kept_bound:
  assumes "normalizeList (validate b) ref n mc lc ac records = Inr rs" and "r \<in> set rs"
  shows "\<exists>vs v. records = JArr vs \<and> v \<in> set vs \<and> validate b v = Inr r \<and> carries v b"
proof -
  obtain vs where vs: "records = JArr vs" "list_all2 (\<lambda>v r. validate b v = Inr r) vs rs"
    using assms(1) by (auto simp: normalizeList_Inr)
  obtain i where i: "i < length rs" "r = rs ! i"
    using assms(2) by (metis in_set_conv_nth)
  have "validate b (vs ! i) = Inr r" "i < length vs"
    using vs(2) i list_all2_nthD2 [OF vs(2) i(1)] by (simp_all add: list_all2_lengthD)
  with vs(1) bound show ?thesis
    by (intro exI [of _ vs] exI [of _ "vs ! i"]) simp
qed

end

end
