(* ===== verification/Kernel_PolicyGrant.thy ===== *)
theory Kernel_PolicyGrant
  imports Kernel_Ident
begin

text \<open>
  \<^verbatim>\<open>contextKernel/domain/policyGrantDecision.js\<close>: the decision whether an operation is
  allowed, from a snapshot of policies and grants. Every record of the snapshot must carry
  the exact binding of the request, an active denial overrides every permission, and both
  a policy and a grant must allow.
\<close>

section \<open>Bindings\<close>

definition maxPolicies :: nat where "maxPolicies = 100"

definition maxGrants :: nat where "maxGrants = 100"

definition REASON_CODE_PATTERN :: "string \<Rightarrow> bool" where
  "REASON_CODE_PATTERN s = bounded_pattern is_upper (\<lambda>c. is_upper c \<or> is_digit c \<or> c = CHR ''_'') 2 190 s"

definition EVIDENCE_EFFECTS :: "string list" where
  "EVIDENCE_EFFECTS = [''allow'', ''deny'']"

definition EVIDENCE_STATUSES :: "string list" where
  "EVIDENCE_STATUSES = [''active'', ''inactive'', ''revoked'', ''expired'']"

definition normalizeReasonCode :: "host \<Rightarrow> jsval \<Rightarrow> string \<Rightarrow> string res" where
  "normalizeReasonCode h value fallback =
     (if absent value then Inr fallback
      else res_bind (requireString h value ''reasonCode'' 191) (\<lambda>normalized.
        if REASON_CODE_PATTERN normalized then Inr normalized
        else Inl (TypeError ''reasonCode must be a stable uppercase reason code.'')))"

record binding =
  b_principalType :: string
  b_principalRef :: string
  b_subjectType :: string
  b_subjectRef :: string
  b_tenantRef :: string
  b_workspaceRef :: "string option"
  b_capabilityKey :: string
  b_operation :: string
  b_resourceType :: string
  b_resourceRef :: string

definition normalizeBinding :: "host \<Rightarrow> jsval \<Rightarrow> binding res" where
  "normalizeBinding h input =
     res_bind (requireIdentifier h (get input ''principalType'') ''principalType'') (\<lambda>pty.
     res_bind (requireIdentifier h (get input ''principalRef'') ''principalRef'') (\<lambda>pref.
     res_bind (requireIdentifier h (get input ''subjectType'') ''subjectType'') (\<lambda>sty.
     res_bind (requireIdentifier h (get input ''subjectRef'') ''subjectRef'') (\<lambda>sref.
     res_bind (requireIdentifier h (get input ''tenantRef'') ''tenantRef'') (\<lambda>tref.
     res_bind (optionalIdentifier h (get input ''workspaceRef'') ''workspaceRef'') (\<lambda>wref.
     res_bind (requireIdentifier h (get input ''capabilityKey'') ''capabilityKey'') (\<lambda>cap.
     res_bind (requireIdentifier h (get input ''operation'') ''operation'') (\<lambda>oper.
     res_bind (requireIdentifier h (get input ''resourceType'') ''resourceType'') (\<lambda>rty.
     res_bind (requireIdentifier h (get input ''resourceRef'') ''resourceRef'') (\<lambda>rref.
     Inr \<lparr>b_principalType = pty, b_principalRef = pref, b_subjectType = sty, b_subjectRef = sref,
       b_tenantRef = tref, b_workspaceRef = wref, b_capabilityKey = cap, b_operation = oper,
       b_resourceType = rty, b_resourceRef = rref\<rparr>))))))))))"

text \<open>\<^verbatim>\<open>Object.keys(left).every((key) => left[key] === right[key])\<close>.\<close>

definition bindingsMatch :: "binding \<Rightarrow> binding \<Rightarrow> bool" where
  "bindingsMatch l r =
     (b_principalType l = b_principalType r \<and> b_principalRef l = b_principalRef r
      \<and> b_subjectType l = b_subjectType r \<and> b_subjectRef l = b_subjectRef r
      \<and> b_tenantRef l = b_tenantRef r \<and> b_workspaceRef l = b_workspaceRef r
      \<and> b_capabilityKey l = b_capabilityKey r \<and> b_operation l = b_operation r
      \<and> b_resourceType l = b_resourceType r \<and> b_resourceRef l = b_resourceRef r)"

section \<open>Evidence records\<close>

record evidence =
  e_sourceType :: string
  e_reference :: string
  e_effect :: string
  e_status :: string
  e_reasonCode :: string
  e_revisionRef :: "string option"
  e_validFrom :: "int option"
  e_validUntil :: "int option"
  e_revokedAt :: "int option"

definition sourcePrefix :: "string \<Rightarrow> string" where
  "sourcePrefix sourceType = (if sourceType = ''policy'' then ''POLICY'' else ''GRANT'')"

definition referenceField :: "string \<Rightarrow> string" where
  "referenceField sourceType = (if sourceType = ''policy'' then ''policyRef'' else ''grantRef'')"

definition normalizeEvidenceRecord :: "host \<Rightarrow> string \<Rightarrow> binding \<Rightarrow> jsval \<Rightarrow> string + evidence" where
  "normalizeEvidenceRecord h sourceType binding rec = (let prefix = sourcePrefix sourceType in
     if \<not> is_object rec then Inl (prefix @ ''_EVIDENCE_MALFORMED'')
     else catch_code (prefix @ ''_EVIDENCE_MALFORMED'') (
       res_bind (requireIdentifier h (get rec (referenceField sourceType))
         (sourceType @ ''.'' @ referenceField sourceType)) (\<lambda>reference.
       let effect = lower_token h (get rec ''effect''); status = lower_token h (get rec ''status'') in
       if effect \<notin> set EVIDENCE_EFFECTS then Inr (Inl (prefix @ ''_EFFECT_UNSUPPORTED''))
       else if status \<notin> set EVIDENCE_STATUSES then Inr (Inl (prefix @ ''_STATUS_UNSUPPORTED''))
       else res_bind (normalizeBinding h rec) (\<lambda>recordBinding.
         if \<not> bindingsMatch binding recordBinding
         then Inr (Inl (prefix @ ''_EVIDENCE_BINDING_MISMATCH''))
         else
           res_bind (normalizeReasonCode h (get rec ''reasonCode'')
             (prefix @ ''_'' @ (if effect = ''deny'' then ''EXPLICIT_DENY'' else ''ALLOW_MATCHED''))) (\<lambda>reasonCode.
           res_bind (optionalIdentifier h (get rec ''revisionRef'') (sourceType @ ''.revisionRef'')) (\<lambda>revisionRef.
           res_bind (normalizeTimestamp h (get rec ''validFrom'') (sourceType @ ''.validFrom'')) (\<lambda>validFrom.
           res_bind (normalizeTimestamp h (js_or (get rec ''validUntil'') (get rec ''expiresAt''))
             (sourceType @ ''.validUntil'')) (\<lambda>validUntil.
           res_bind (normalizeTimestamp h (get rec ''revokedAt'') (sourceType @ ''.revokedAt'')) (\<lambda>revokedAt.
           Inr (Inr \<lparr>e_sourceType = sourceType, e_reference = reference, e_effect = effect,
             e_status = status, e_reasonCode = reasonCode, e_revisionRef = revisionRef,
             e_validFrom = validFrom, e_validUntil = validUntil, e_revokedAt = revokedAt\<rparr>))))))))))"

definition recordIsActive :: "evidence \<Rightarrow> int \<Rightarrow> bool" where
  "recordIsActive rec now =
     (e_status rec = ''active'' \<and> e_revokedAt rec = None
      \<and> recordIsCurrent (e_validFrom rec) (e_validUntil rec) now)"

record evidence_summary =
  es_reference :: string
  es_effect :: string
  es_reasonCode :: string
  es_revisionRef :: "string option"

definition summarizeEvidence :: "host \<Rightarrow> evidence list \<Rightarrow> evidence_summary list" where
  "summarizeEvidence h records =
     sort_by (key es_reference (collate h))
       (map (\<lambda>r. \<lparr>es_reference = e_reference r, es_effect = e_effect r,
         es_reasonCode = e_reasonCode r, es_revisionRef = e_revisionRef r\<rparr>) records)"

definition normalizeEvidenceList ::
  "host \<Rightarrow> jsval \<Rightarrow> string \<Rightarrow> binding \<Rightarrow> nat \<Rightarrow> string + evidence list" where
  "normalizeEvidenceList h records sourceType binding maximumCount =
     normalizeList (normalizeEvidenceRecord h sourceType binding) e_reference maximumCount
       (sourcePrefix sourceType @ ''_EVIDENCE_MALFORMED'')
       (sourcePrefix sourceType @ ''_EVIDENCE_LIMIT_EXCEEDED'')
       (sourcePrefix sourceType @ ''_REFERENCE_AMBIGUOUS'') records"

section \<open>The decision\<close>

record policy_grant_decision =
  pg_status :: string
  pg_decision :: string
  pg_reasonCodes :: "string list"
  pg_sourceEvidence :: "source_evidence option"
  pg_policyEvidence :: "evidence_summary list option"
  pg_grantEvidence :: "evidence_summary list option"
  pg_policySatisfied :: bool
  pg_grantSatisfied :: bool
  pg_authorityGranted :: bool
  pg_executionAuthorized :: bool
  pg_runtimeAuthorityChanged :: bool
  pg_automaticWritePerformed :: bool
  pg_providerCallMade :: bool
  pg_credentialPayloadRead :: bool
  pg_secretsIncluded :: bool

definition pg_blocked :: "string list \<Rightarrow> source_evidence option \<Rightarrow> evidence_summary list option
    \<Rightarrow> evidence_summary list option \<Rightarrow> policy_grant_decision" where
  "pg_blocked reasonCodes source policyEvidence grantEvidence =
     \<lparr>pg_status = ''blocked'', pg_decision = ''deny'', pg_reasonCodes = sort_strings (uniq reasonCodes),
      pg_sourceEvidence = source, pg_policyEvidence = policyEvidence, pg_grantEvidence = grantEvidence,
      pg_policySatisfied = False, pg_grantSatisfied = False, pg_authorityGranted = False,
      pg_executionAuthorized = False, pg_runtimeAuthorityChanged = False,
      pg_automaticWritePerformed = False, pg_providerCallMade = False,
      pg_credentialPayloadRead = False, pg_secretsIncluded = False\<rparr>"

text \<open>The decision on normalised evidence.\<close>

definition decideEvidence :: "host \<Rightarrow> int \<Rightarrow> source_evidence \<Rightarrow> evidence list \<Rightarrow> evidence list
    \<Rightarrow> policy_grant_decision" where
  "decideEvidence h now source policies grants = (let
     activePolicies = filter (\<lambda>r. recordIsActive r now) policies;
     activeGrants = filter (\<lambda>r. recordIsActive r now) grants;
     policyDenials = filter (\<lambda>r. e_effect r = ''deny'') activePolicies;
     grantDenials = filter (\<lambda>r. e_effect r = ''deny'') activeGrants;
     policyAllows = filter (\<lambda>r. e_effect r = ''allow'') activePolicies;
     grantAllows = filter (\<lambda>r. e_effect r = ''allow'') activeGrants
   in
     if policyDenials \<noteq> [] \<or> grantDenials \<noteq> [] then
       pg_blocked ((if policyDenials \<noteq> [] then [''POLICY_EXPLICIT_DENY''] else [])
           @ (if grantDenials \<noteq> [] then [''GRANT_EXPLICIT_DENY''] else [])
           @ map e_reasonCode policyDenials @ map e_reasonCode grantDenials)
         (Some source) (Some (summarizeEvidence h policyDenials)) (Some (summarizeEvidence h grantDenials))
     else if policyAllows = [] then
       pg_blocked [''POLICY_ALLOW_NOT_FOUND''] (Some source) (Some []) (Some (summarizeEvidence h grantAllows))
     else if grantAllows = [] then
       pg_blocked [''GRANT_ALLOW_NOT_FOUND''] (Some source) (Some (summarizeEvidence h policyAllows)) (Some [])
     else
       \<lparr>pg_status = ''resolved'', pg_decision = ''allow'', pg_reasonCodes = [''POLICY_GRANT_ALLOW_RESOLVED''],
        pg_sourceEvidence = Some source,
        pg_policyEvidence = Some (summarizeEvidence h policyAllows),
        pg_grantEvidence = Some (summarizeEvidence h grantAllows),
        pg_policySatisfied = True, pg_grantSatisfied = True, pg_authorityGranted = False,
        pg_executionAuthorized = False, pg_runtimeAuthorityChanged = False,
        pg_automaticWritePerformed = False, pg_providerCallMade = False,
        pg_credentialPayloadRead = False, pg_secretsIncluded = False\<rparr>)"

definition decideSnapshot :: "host \<Rightarrow> binding \<Rightarrow> int \<Rightarrow> jsval \<Rightarrow> policy_grant_decision" where
  "decideSnapshot h binding now snapshot =
     (if \<not> is_object snapshot then pg_blocked [''POLICY_GRANT_SNAPSHOT_MALFORMED''] None None None
      else case read_snapshot h (normalizeBinding h) snapshot of
        Inl _ \<Rightarrow> pg_blocked [''POLICY_GRANT_SNAPSHOT_MALFORMED''] None None None
      | Inr header \<Rightarrow> (let source = sh_sourceEvidence header in
          if \<not> bindingsMatch binding (sh_binding header) then
            pg_blocked [''POLICY_GRANT_SNAPSHOT_BINDING_MISMATCH''] (Some source) None None
          else if now < sh_capturedAt header then
            pg_blocked [''POLICY_GRANT_SNAPSHOT_FROM_FUTURE''] (Some source) None None
          else if sh_expiresAt header \<le> now then
            pg_blocked [''POLICY_GRANT_SNAPSHOT_STALE''] (Some source) None None
          else case normalizeEvidenceList h (get snapshot ''policies'') ''policy'' binding maxPolicies of
            Inl errorCode \<Rightarrow> pg_blocked [errorCode] (Some source) None None
          | Inr policies \<Rightarrow>
              (case normalizeEvidenceList h (get snapshot ''grants'') ''grant'' binding maxGrants of
                 Inl errorCode \<Rightarrow> pg_blocked [errorCode] (Some source) None None
               | Inr grants \<Rightarrow> decideEvidence h now source policies grants)))"

text \<open>The argument object carries the binding, the snapshot and optionally the time.\<close>

definition evaluatePolicyGrantDecision :: "host \<Rightarrow> int \<Rightarrow> jsval \<Rightarrow> policy_grant_decision res" where
  "evaluatePolicyGrantDecision h clock arg =
     res_bind (normalizeBinding h arg) (\<lambda>binding.
     res_bind (evaluated_now h clock (get arg ''now'')) (\<lambda>now.
     Inr (decideSnapshot h binding now (get arg ''snapshot''))))"

section \<open>Accepted evidence\<close>

lemma bindingsMatch_iff [simp]: "bindingsMatch l r \<longleftrightarrow> l = r"
  by (auto simp: bindingsMatch_def)

definition carries_binding :: "host \<Rightarrow> jsval \<Rightarrow> binding \<Rightarrow> bool" where
  "carries_binding h v b = (is_object v \<and> normalizeBinding h v = Inr b)"

lemma normalizeEvidenceRecord_Inr:
  assumes "normalizeEvidenceRecord h sourceType b v = Inr r"
  shows "carries_binding h v b" and "e_effect r \<in> {''allow'', ''deny''}" and "e_status r \<in> set EVIDENCE_STATUSES"
    and "e_effect r = lower_token h (get v ''effect'')" and "e_status r = lower_token h (get v ''status'')"
  using assms
  by (auto simp: normalizeEvidenceRecord_def carries_binding_def Let_def EVIDENCE_EFFECTS_def split: if_splits)

interpretation policy_evidence: bound_evidence "normalizeEvidenceRecord h sourceType" "carries_binding h"
  for h sourceType
  by unfold_locales (rule normalizeEvidenceRecord_Inr)

section \<open>Deny overrides\<close>

definition deny_overrides :: "int \<Rightarrow> evidence list \<Rightarrow> evidence list \<Rightarrow> bool" where
  "deny_overrides now policies grants =
     ((\<forall>r \<in> set policies \<union> set grants. recordIsActive r now \<longrightarrow> e_effect r \<noteq> ''deny'')
      \<and> (\<exists>p \<in> set policies. recordIsActive p now \<and> e_effect p = ''allow'')
      \<and> (\<exists>g \<in> set grants. recordIsActive g now \<and> e_effect g = ''allow''))"

definition usable_snapshot :: "host \<Rightarrow> binding \<Rightarrow> int \<Rightarrow> jsval \<Rightarrow> evidence list \<Rightarrow> evidence list \<Rightarrow> bool" where
  "usable_snapshot h b now snapshot policies grants =
     (is_object snapshot
      \<and> (\<exists>header. read_snapshot h (normalizeBinding h) snapshot = Inr header \<and> sh_binding header = b
           \<and> sh_capturedAt header \<le> now \<and> now < sh_expiresAt header)
      \<and> normalizeEvidenceList h (get snapshot ''policies'') ''policy'' b maxPolicies = Inr policies
      \<and> normalizeEvidenceList h (get snapshot ''grants'') ''grant'' b maxGrants = Inr grants)"

lemma pg_blocked_simps [simp]:
  "pg_decision (pg_blocked rs s p g) = ''deny''" "pg_status (pg_blocked rs s p g) = ''blocked''"
  "pg_reasonCodes (pg_blocked rs s p g) = sort_strings (uniq rs)"
  by (simp_all add: pg_blocked_def)

lemma decideEvidence_allow:
  "pg_decision (decideEvidence h now source ps gs) = ''allow'' \<longleftrightarrow> deny_overrides now ps gs"
  by (auto simp: decideEvidence_def deny_overrides_def Let_def filter_empty_conv)

lemma decideSnapshot_allow:
  "pg_decision (decideSnapshot h b now snapshot) = ''allow'' \<longleftrightarrow>
     (\<exists>ps gs. usable_snapshot h b now snapshot ps gs \<and> deny_overrides now ps gs)"
  by (auto simp: decideSnapshot_def usable_snapshot_def Let_def decideEvidence_allow not_less not_le
      split: sum.splits if_splits)

text \<open>
  C3. An operation is allowed exactly when the snapshot is well formed, bound to the request
  and current, all its records are accepted, no active record denies, and an active policy
  and an active grant both allow.
\<close>

theorem policy_grant_allow_iff:
  "(\<exists>d. evaluatePolicyGrantDecision h clock arg = Inr d \<and> pg_decision d = ''allow'') \<longleftrightarrow>
     (\<exists>b now policies grants. normalizeBinding h arg = Inr b
        \<and> evaluated_now h clock (get arg ''now'') = Inr now
        \<and> usable_snapshot h b now (get arg ''snapshot'') policies grants
        \<and> deny_overrides now policies grants)"
  by (cases "normalizeBinding h arg"; cases "evaluated_now h clock (get arg ''now'')")
    (simp_all add: evaluatePolicyGrantDecision_def decideSnapshot_allow)

text \<open>
  C2. A permission never rests on evidence for somebody or something else: every raw policy
  and grant of the snapshot carries exactly the binding of the request (principal, subject,
  tenant, workspace, capability, operation and resource), and one active policy and one
  active grant among them say allow.
\<close>

theorem policy_grant_allow_sound:
  assumes "evaluatePolicyGrantDecision h clock arg = Inr d" and "pg_decision d = ''allow''"
  shows "\<exists>b now ps gs. normalizeBinding h arg = Inr b
    \<and> evaluated_now h clock (get arg ''now'') = Inr now
    \<and> get (get arg ''snapshot'') ''policies'' = JArr ps \<and> get (get arg ''snapshot'') ''grants'' = JArr gs
    \<and> (\<forall>v \<in> set ps \<union> set gs. normalizeBinding h v = Inr b)
    \<and> (\<exists>v \<in> set ps. \<exists>r. normalizeEvidenceRecord h ''policy'' b v = Inr r \<and> recordIsActive r now
         \<and> lower_token h (get v ''effect'') = ''allow'')
    \<and> (\<exists>v \<in> set gs. \<exists>r. normalizeEvidenceRecord h ''grant'' b v = Inr r \<and> recordIsActive r now
         \<and> lower_token h (get v ''effect'') = ''allow'')"
proof -
  obtain b now ps gs where b: "normalizeBinding h arg = Inr b"
    and now: "evaluated_now h clock (get arg ''now'') = Inr now"
    and lists: "normalizeEvidenceList h (get (get arg ''snapshot'') ''policies'') ''policy'' b maxPolicies = Inr ps"
      "normalizeEvidenceList h (get (get arg ''snapshot'') ''grants'') ''grant'' b maxGrants = Inr gs"
    and deny: "deny_overrides now ps gs"
    using assms by (auto simp: evaluatePolicyGrantDecision_def decideSnapshot_allow usable_snapshot_def)
  obtain p g where p: "p \<in> set ps" "recordIsActive p now" "e_effect p = ''allow''"
    and g: "g \<in> set gs" "recordIsActive g now" "e_effect g = ''allow''"
    using deny by (auto simp: deny_overrides_def)
  obtain vs v where v: "get (get arg ''snapshot'') ''policies'' = JArr vs" "v \<in> set vs"
      "normalizeEvidenceRecord h ''policy'' b v = Inr p"
    using policy_evidence.kept_bound [OF lists(1) [unfolded normalizeEvidenceList_def] p(1)] by blast
  obtain ws w where w: "get (get arg ''snapshot'') ''grants'' = JArr ws" "w \<in> set ws"
      "normalizeEvidenceRecord h ''grant'' b w = Inr g"
    using policy_evidence.kept_bound [OF lists(2) [unfolded normalizeEvidenceList_def] g(1)] by blast
  have "\<forall>u \<in> set vs \<union> set ws. normalizeBinding h u = Inr b"
    using policy_evidence.list_bound [OF lists(1) [unfolded normalizeEvidenceList_def v(1)]]
      policy_evidence.list_bound [OF lists(2) [unfolded normalizeEvidenceList_def w(1)]]
    by (auto simp: carries_binding_def)
  moreover have "lower_token h (get v ''effect'') = ''allow''" "lower_token h (get w ''effect'') = ''allow''"
    using normalizeEvidenceRecord_Inr(4) [OF v(3)] normalizeEvidenceRecord_Inr(4) [OF w(3)] p g by simp_all
  ultimately show ?thesis
    using b now v w p g by blast
qed


definition demo_scope :: "(string \<times> jsval) list" where
  "demo_scope = [(''principalType'', JStr ''admin''), (''principalRef'', JStr ''u1''),
     (''subjectType'', JStr ''tenant_user''), (''subjectRef'', JStr ''u2''), (''tenantRef'', JStr ''t1''),
     (''capabilityKey'', JStr ''publish''), (''operation'', JStr ''create''),
     (''resourceType'', JStr ''post''), (''resourceRef'', JStr ''p1'')]"

definition demo_policy_arg :: jsval where
  "demo_policy_arg = JObj (demo_scope @ [(''snapshot'', JObj (demo_scope @
     [(''evaluatedAt'', JDate (Some 1000)), (''expiresAt'', JDate (Some 9000)),
      (''policies'', JArr [JObj (demo_scope @ [(''policyRef'', JStr ''pol1''), (''effect'', JStr ''Allow''), (''status'', JStr ''active'')])]),
      (''grants'', JArr [JObj (demo_scope @ [(''grantRef'', JStr ''g1''), (''effect'', JStr ''allow''), (''status'', JStr ''active'')]),
         JObj (demo_scope @ [(''grantRef'', JStr ''g2''), (''effect'', JStr ''deny''), (''status'', JStr ''revoked'')])])])),
     (''now'', JDate (Some 5000))])"

lemma demo_policy_allowed:
  "map_sum id pg_decision (evaluatePolicyGrantDecision plain_host 0 demo_policy_arg) = Inr ''allow''"
  by code_simp

theorem policy_grant_allow_sound_witness:
  "\<exists>b. normalizeBinding plain_host demo_policy_arg = Inr b"
proof -
  obtain d where d: "evaluatePolicyGrantDecision plain_host 0 demo_policy_arg = Inr d" "pg_decision d = ''allow''"
    using demo_policy_allowed by (cases "evaluatePolicyGrantDecision plain_host 0 demo_policy_arg") simp_all
  show ?thesis
    using policy_grant_allow_sound [OF d] by blast
qed

definition sealed_decision :: "policy_grant_decision \<Rightarrow> bool" where
  "sealed_decision d =
     ((pg_status d, pg_decision d) \<in> {(''blocked'', ''deny''), (''resolved'', ''allow'')}
      \<and> pg_reasonCodes d \<noteq> [] \<and> distinct (pg_reasonCodes d)
      \<and> Sorting_Algorithms.sorted default (pg_reasonCodes d)
      \<and> pg_policySatisfied d = (pg_decision d = ''allow'') \<and> pg_grantSatisfied d = (pg_decision d = ''allow'')
      \<and> \<not> pg_authorityGranted d \<and> \<not> pg_executionAuthorized d \<and> \<not> pg_runtimeAuthorityChanged d
      \<and> \<not> pg_automaticWritePerformed d \<and> \<not> pg_providerCallMade d \<and> \<not> pg_credentialPayloadRead d
      \<and> \<not> pg_secretsIncluded d)"

lemma sealed_blocked [simp]: "sealed_decision (pg_blocked rs s p g) \<longleftrightarrow> rs \<noteq> []"
  by (simp add: sealed_decision_def pg_blocked_def sort_strings_def)

lemma sealed_decideEvidence: "sealed_decision (decideEvidence h now source ps gs)"
  unfolding decideEvidence_def Let_def
  by (split if_split, simp)+ (simp add: sealed_decision_def)

lemma sealed_decideSnapshot: "sealed_decision (decideSnapshot h b now snapshot)"
  unfolding decideSnapshot_def Let_def
  by (auto intro!: sealed_decideEvidence split: sum.split)


end
