(* ===== verification/Kernel_EndpointCert.thy ===== *)
theory Kernel_EndpointCert
  imports Kernel_Ident
begin

text \<open>
  \<^verbatim>\<open>contextKernel/domain/endpointCertificationDecision.js\<close>: which endpoint a
  configured endpoint key stands for, and whether a dispatch to it is certified. An alias
  may redirect the key; one endpoint must be live for it; and one certification must
  permit the dispatch.
\<close>

section \<open>Bindings\<close>

definition maxAliases :: nat where "maxAliases = 50"

definition maxEndpoints :: nat where "maxEndpoints = 50"

definition maxCertifications :: nat where "maxCertifications = 50"

definition ENDPOINT_STATUSES :: "string list" where
  "ENDPOINT_STATUSES = [''active'', ''ready'', ''enabled'', ''inactive'', ''disabled'', ''revoked'']"

definition ENDPOINT_READINESS :: "string list" where
  "ENDPOINT_READINESS = [''ready'', ''active'', ''enabled'', ''blocked'', ''unavailable'', ''unknown'']"

definition ALIAS_STATUSES :: "string list" where
  "ALIAS_STATUSES = [''active'', ''inactive'', ''disabled'', ''revoked'', ''expired'']"

definition CERTIFICATION_STATUSES :: "string list" where
  "CERTIFICATION_STATUSES =
     [''certified'', ''active'', ''revoked'', ''suspended'', ''expired'', ''inactive'']"

record endpoint_binding =
  eb_principalType :: string
  eb_principalRef :: string
  eb_subjectType :: string
  eb_subjectRef :: string
  eb_tenantRef :: string
  eb_workspaceRef :: "string option"
  eb_capabilityKey :: string
  eb_providerBindingRef :: string
  eb_appKey :: string
  eb_parentActionKey :: string
  eb_configuredEndpointKey :: string

definition normalizeBinding :: "host \<Rightarrow> jsval \<Rightarrow> endpoint_binding res" where
  "normalizeBinding h input =
     res_bind (requireIdentifier h (get input ''principalType'') ''principalType'') (\<lambda>pty.
     res_bind (requireIdentifier h (get input ''principalRef'') ''principalRef'') (\<lambda>pref.
     res_bind (requireIdentifier h (get input ''subjectType'') ''subjectType'') (\<lambda>sty.
     res_bind (requireIdentifier h (get input ''subjectRef'') ''subjectRef'') (\<lambda>sref.
     res_bind (requireIdentifier h (get input ''tenantRef'') ''tenantRef'') (\<lambda>tref.
     res_bind (optionalIdentifier h (get input ''workspaceRef'') ''workspaceRef'') (\<lambda>wref.
     res_bind (requireIdentifier h (get input ''capabilityKey'') ''capabilityKey'') (\<lambda>cap.
     res_bind (requireIdentifier h (get input ''providerBindingRef'') ''providerBindingRef'') (\<lambda>prov.
     res_bind (requireIdentifier h (get input ''appKey'') ''appKey'') (\<lambda>app.
     res_bind (requireIdentifier h (get input ''parentActionKey'') ''parentActionKey'') (\<lambda>action.
     res_bind (requireIdentifier h (get input ''configuredEndpointKey'') ''configuredEndpointKey'') (\<lambda>endpoint.
     Inr \<lparr>eb_principalType = pty, eb_principalRef = pref, eb_subjectType = sty, eb_subjectRef = sref,
       eb_tenantRef = tref, eb_workspaceRef = wref, eb_capabilityKey = cap,
       eb_providerBindingRef = prov, eb_appKey = app, eb_parentActionKey = action,
       eb_configuredEndpointKey = endpoint\<rparr>)))))))))))"

definition bindingsMatch :: "endpoint_binding \<Rightarrow> endpoint_binding \<Rightarrow> bool" where
  "bindingsMatch l r =
     (eb_principalType l = eb_principalType r \<and> eb_principalRef l = eb_principalRef r
      \<and> eb_subjectType l = eb_subjectType r \<and> eb_subjectRef l = eb_subjectRef r
      \<and> eb_tenantRef l = eb_tenantRef r \<and> eb_workspaceRef l = eb_workspaceRef r
      \<and> eb_capabilityKey l = eb_capabilityKey r
      \<and> eb_providerBindingRef l = eb_providerBindingRef r \<and> eb_appKey l = eb_appKey r
      \<and> eb_parentActionKey l = eb_parentActionKey r
      \<and> eb_configuredEndpointKey l = eb_configuredEndpointKey r)"

section \<open>Aliases\<close>

record endpoint_alias =
  a_aliasRef :: string
  a_aliasEndpointKey :: string
  a_canonicalEndpointKey :: string
  a_status :: string
  a_revisionRef :: "string option"
  a_validFrom :: "int option"
  a_validUntil :: "int option"

definition normalizeAlias :: "host \<Rightarrow> endpoint_binding \<Rightarrow> jsval \<Rightarrow> string + endpoint_alias" where
  "normalizeAlias h binding rec =
     (if \<not> is_object rec then Inl ''ENDPOINT_ALIAS_MALFORMED''
      else catch_code ''ENDPOINT_ALIAS_MALFORMED'' (
        let status = lower_token h (get rec ''status'') in
        if status \<notin> set ALIAS_STATUSES then Inr (Inl ''ENDPOINT_ALIAS_STATUS_UNSUPPORTED'')
        else res_bind (normalizeBinding h rec) (\<lambda>recordBinding.
          if \<not> bindingsMatch binding recordBinding then Inr (Inl ''ENDPOINT_ALIAS_BINDING_MISMATCH'')
          else
            res_bind (requireIdentifier h (get rec ''aliasRef'') ''alias.aliasRef'') (\<lambda>aref.
            res_bind (requireIdentifier h (get rec ''aliasEndpointKey'') ''alias.aliasEndpointKey'') (\<lambda>akey.
            res_bind (requireIdentifier h (get rec ''canonicalEndpointKey'') ''alias.canonicalEndpointKey'') (\<lambda>ckey.
            res_bind (optionalIdentifier h (get rec ''revisionRef'') ''alias.revisionRef'') (\<lambda>revision.
            res_bind (normalizeTimestamp h (get rec ''validFrom'') ''alias.validFrom'') (\<lambda>vfrom.
            res_bind (normalizeTimestamp h (js_or (get rec ''validUntil'') (get rec ''expiresAt''))
              ''alias.validUntil'') (\<lambda>vuntil.
            Inr (Inr \<lparr>a_aliasRef = aref, a_aliasEndpointKey = akey, a_canonicalEndpointKey = ckey,
              a_status = status, a_revisionRef = revision, a_validFrom = vfrom, a_validUntil = vuntil\<rparr>))))))))))"

section \<open>Endpoints\<close>

record endpoint =
  ep_endpointRef :: string
  ep_endpointKey :: string
  ep_status :: string
  ep_executionReadiness :: string
  ep_schemaPresent :: bool
  ep_method :: "string option"
  ep_endpointPathOrFunction :: "string option"
  ep_moduleBinding :: "string option"
  ep_connectorFamily :: "string option"
  ep_revisionRef :: "string option"
  ep_validFrom :: "int option"
  ep_validUntil :: "int option"

definition optionalString :: "host \<Rightarrow> jsval \<Rightarrow> string \<Rightarrow> nat \<Rightarrow> string option res" where
  "optionalString h value field maximumLength =
     optional_with (\<lambda>v. requireString h v field maximumLength) value"

definition normalizeEndpoint :: "host \<Rightarrow> endpoint_binding \<Rightarrow> jsval \<Rightarrow> string + endpoint" where
  "normalizeEndpoint h binding rec =
     (if \<not> is_object rec then Inl ''ENDPOINT_EVIDENCE_MALFORMED''
      else catch_code ''ENDPOINT_EVIDENCE_MALFORMED'' (
        let status = lower_token h (get rec ''status'');
            executionReadiness = lower_token h (get rec ''executionReadiness'') in
        if status \<notin> set ENDPOINT_STATUSES then Inr (Inl ''ENDPOINT_STATUS_UNSUPPORTED'')
        else if executionReadiness \<notin> set ENDPOINT_READINESS then Inr (Inl ''ENDPOINT_READINESS_UNSUPPORTED'')
        else res_bind (normalizeBinding h rec) (\<lambda>recordBinding.
          if \<not> bindingsMatch binding recordBinding then Inr (Inl ''ENDPOINT_EVIDENCE_BINDING_MISMATCH'')
          else
            res_bind (requireIdentifier h (get rec ''endpointRef'') ''endpoint.endpointRef'') (\<lambda>eref.
            res_bind (requireIdentifier h (get rec ''endpointKey'') ''endpoint.endpointKey'') (\<lambda>ekey.
            res_bind (optionalIdentifier h (get rec ''method'') ''endpoint.method'') (\<lambda>meth.
            res_bind (optionalString h (get rec ''endpointPathOrFunction'')
              ''endpoint.endpointPathOrFunction'' 500) (\<lambda>path.
            res_bind (optionalIdentifier h (get rec ''moduleBinding'') ''endpoint.moduleBinding'') (\<lambda>module.
            res_bind (optionalIdentifier h (get rec ''connectorFamily'') ''endpoint.connectorFamily'') (\<lambda>family.
            res_bind (optionalIdentifier h (get rec ''revisionRef'') ''endpoint.revisionRef'') (\<lambda>revision.
            res_bind (normalizeTimestamp h (get rec ''validFrom'') ''endpoint.validFrom'') (\<lambda>vfrom.
            res_bind (normalizeTimestamp h (js_or (get rec ''validUntil'') (get rec ''expiresAt''))
              ''endpoint.validUntil'') (\<lambda>vuntil.
            Inr (Inr \<lparr>ep_endpointRef = eref, ep_endpointKey = ekey, ep_status = status,
              ep_executionReadiness = executionReadiness,
              ep_schemaPresent = strict_eq (get rec ''schemaPresent'') (JBool True),
              ep_method = meth, ep_endpointPathOrFunction = path, ep_moduleBinding = module,
              ep_connectorFamily = family, ep_revisionRef = revision,
              ep_validFrom = vfrom, ep_validUntil = vuntil\<rparr>)))))))))))))"

section \<open>Certifications\<close>

record certification =
  ce_certificationRef :: string
  ce_endpointKey :: string
  ce_status :: string
  ce_dispatchAllowed :: bool
  ce_applyAllowed :: bool
  ce_revisionRef :: "string option"
  ce_certifiedAt :: "int option"
  ce_validFrom :: "int option"
  ce_validUntil :: "int option"
  ce_revokedAt :: "int option"

definition normalizeCertification :: "host \<Rightarrow> endpoint_binding \<Rightarrow> jsval \<Rightarrow> string + certification" where
  "normalizeCertification h binding rec =
     (if \<not> is_object rec then Inl ''CERTIFICATION_EVIDENCE_MALFORMED''
      else catch_code ''CERTIFICATION_EVIDENCE_MALFORMED'' (
        let status = lower_token h (js_or (get rec ''status'') (get rec ''certificationStatus'')) in
        if status \<notin> set CERTIFICATION_STATUSES then Inr (Inl ''CERTIFICATION_STATUS_UNSUPPORTED'')
        else res_bind (normalizeBinding h rec) (\<lambda>recordBinding.
          if \<not> bindingsMatch binding recordBinding then Inr (Inl ''CERTIFICATION_EVIDENCE_BINDING_MISMATCH'')
          else
            res_bind (requireIdentifier h (get rec ''certificationRef'') ''certification.certificationRef'') (\<lambda>cref.
            res_bind (requireIdentifier h (get rec ''endpointKey'') ''certification.endpointKey'') (\<lambda>ekey.
            res_bind (optionalIdentifier h (get rec ''revisionRef'') ''certification.revisionRef'') (\<lambda>revision.
            res_bind (normalizeTimestamp h (get rec ''certifiedAt'') ''certification.certifiedAt'') (\<lambda>certified.
            res_bind (normalizeTimestamp h (get rec ''validFrom'') ''certification.validFrom'') (\<lambda>vfrom.
            res_bind (normalizeTimestamp h (js_or (get rec ''validUntil'') (get rec ''expiresAt''))
              ''certification.validUntil'') (\<lambda>vuntil.
            res_bind (normalizeTimestamp h (get rec ''revokedAt'') ''certification.revokedAt'') (\<lambda>revoked.
            Inr (Inr \<lparr>ce_certificationRef = cref, ce_endpointKey = ekey, ce_status = status,
              ce_dispatchAllowed = strict_eq (get rec ''dispatchAllowed'') (JBool True),
              ce_applyAllowed = strict_eq (get rec ''applyAllowed'') (JBool True),
              ce_revisionRef = revision, ce_certifiedAt = certified, ce_validFrom = vfrom,
              ce_validUntil = vuntil, ce_revokedAt = revoked\<rparr>)))))))))))"

section \<open>Reports\<close>

text \<open>
  A field of the result that is left out, or holds one report or null, or a list of them.
\<close>

datatype 'a shown = Omitted | One "'a option" | Many "'a list"

record alias_report =
  ar_aliasRef :: string
  ar_aliasEndpointKey :: string
  ar_canonicalEndpointKey :: string
  ar_revisionRef :: "string option"

definition summarizeAlias :: "endpoint_alias \<Rightarrow> alias_report" where
  "summarizeAlias a = \<lparr>ar_aliasRef = a_aliasRef a, ar_aliasEndpointKey = a_aliasEndpointKey a,
     ar_canonicalEndpointKey = a_canonicalEndpointKey a, ar_revisionRef = a_revisionRef a\<rparr>"

record endpoint_report =
  epr_endpointRef :: string
  epr_endpointKey :: string
  epr_method :: "string option"
  epr_endpointPathOrFunction :: "string option"
  epr_moduleBinding :: "string option"
  epr_connectorFamily :: "string option"
  epr_revisionRef :: "string option"

definition summarizeEndpoint :: "endpoint \<Rightarrow> endpoint_report" where
  "summarizeEndpoint e = \<lparr>epr_endpointRef = ep_endpointRef e, epr_endpointKey = ep_endpointKey e,
     epr_method = ep_method e, epr_endpointPathOrFunction = ep_endpointPathOrFunction e,
     epr_moduleBinding = ep_moduleBinding e, epr_connectorFamily = ep_connectorFamily e,
     epr_revisionRef = ep_revisionRef e\<rparr>"

record certification_report =
  cer_certificationRef :: string
  cer_endpointKey :: string
  cer_status :: string
  cer_dispatchAllowed :: bool
  cer_applyAllowed :: bool
  cer_revisionRef :: "string option"
  cer_certifiedAt :: "string option"
  cer_validUntil :: "string option"

definition summarizeCertification :: "certification \<Rightarrow> certification_report" where
  "summarizeCertification c = \<lparr>cer_certificationRef = ce_certificationRef c,
     cer_endpointKey = ce_endpointKey c, cer_status = ce_status c,
     cer_dispatchAllowed = ce_dispatchAllowed c, cer_applyAllowed = ce_applyAllowed c,
     cer_revisionRef = ce_revisionRef c, cer_certifiedAt = map_option iso_string (ce_certifiedAt c),
     cer_validUntil = map_option iso_string (ce_validUntil c)\<rparr>"

record endpoint_decision =
  ed_status :: string
  ed_decision :: string
  ed_reasonCodes :: "string list"
  ed_sourceEvidence :: "source_evidence option"
  ed_configuredEndpointKey :: "string option"
  ed_canonicalEndpointKey :: "string option"
  ed_aliasApplied :: "bool option"
  ed_aliasEvidence :: "alias_report shown"
  ed_endpointEvidence :: "endpoint_report shown"
  ed_certificationEvidence :: "certification_report shown"
  ed_endpointResolved :: bool
  ed_certificationSatisfied :: bool
  ed_dispatchCertified :: bool
  ed_applyCertified :: "bool option"
  ed_authorityGranted :: bool
  ed_executionAuthorized :: bool
  ed_runtimeAuthorityChanged :: bool
  ed_automaticWritePerformed :: bool
  ed_providerCallMade :: bool
  ed_credentialPayloadRead :: bool
  ed_secretsIncluded :: bool

definition ed_blocked :: "string list \<Rightarrow> source_evidence option \<Rightarrow> alias_report shown
    \<Rightarrow> endpoint_report shown \<Rightarrow> certification_report shown \<Rightarrow> endpoint_decision" where
  "ed_blocked reasonCodes source aliasEvidence endpointEvidence certificationEvidence =
     \<lparr>ed_status = ''blocked'', ed_decision = ''deny'', ed_reasonCodes = sort_strings (uniq reasonCodes),
      ed_sourceEvidence = source, ed_configuredEndpointKey = None, ed_canonicalEndpointKey = None,
      ed_aliasApplied = None, ed_aliasEvidence = aliasEvidence,
      ed_endpointEvidence = endpointEvidence, ed_certificationEvidence = certificationEvidence,
      ed_endpointResolved = False, ed_certificationSatisfied = False, ed_dispatchCertified = False,
      ed_applyCertified = None, ed_authorityGranted = False, ed_executionAuthorized = False,
      ed_runtimeAuthorityChanged = False, ed_automaticWritePerformed = False,
      ed_providerCallMade = False, ed_credentialPayloadRead = False, ed_secretsIncluded = False\<rparr>"

section \<open>The decision\<close>

text \<open>The alias that redirects the configured key, if one does.\<close>

definition relevantAliases :: "string \<Rightarrow> int \<Rightarrow> endpoint_alias list \<Rightarrow> endpoint_alias list" where
  "relevantAliases endpointKey now aliases =
     filter (\<lambda>a. a_aliasEndpointKey a = endpointKey
       \<and> recordIsCurrent (a_validFrom a) (a_validUntil a) now) aliases"

definition selectAlias :: "string \<Rightarrow> int \<Rightarrow> source_evidence \<Rightarrow> endpoint_alias list
    \<Rightarrow> endpoint_decision + endpoint_alias option" where
  "selectAlias endpointKey now source aliases = (let
     relevant = relevantAliases endpointKey now aliases;
     blocking = filter (\<lambda>a. a_status a \<in> set [''revoked'', ''disabled'', ''inactive'', ''expired'']) relevant;
     activeAliases = filter (\<lambda>a. a_status a = ''active'') relevant
   in
     if blocking \<noteq> [] then
       Inl (ed_blocked [''ENDPOINT_ALIAS_NOT_ACTIVE''] (Some source)
         (Many (map summarizeAlias blocking)) Omitted Omitted)
     else if 1 < length activeAliases then
       Inl (ed_blocked [''ENDPOINT_ALIAS_AMBIGUOUS''] (Some source)
         (Many (map summarizeAlias activeAliases)) Omitted Omitted)
     else Inr (case activeAliases of [] \<Rightarrow> None | a # _ \<Rightarrow> Some a))"

definition endpointDenied :: "endpoint \<Rightarrow> bool" where
  "endpointDenied e = (ep_status e \<in> set [''inactive'', ''disabled'', ''revoked'']
     \<or> ep_executionReadiness e \<in> set [''blocked'', ''unavailable''])"

definition endpointLive :: "endpoint \<Rightarrow> bool" where
  "endpointLive e = (ep_status e \<in> set [''active'', ''ready'', ''enabled'']
     \<and> ep_executionReadiness e \<in> set [''ready'', ''active'', ''enabled''])"

definition matchingEndpoints :: "string \<Rightarrow> int \<Rightarrow> endpoint list \<Rightarrow> endpoint list" where
  "matchingEndpoints endpointKey now endpoints =
     filter (\<lambda>e. ep_endpointKey e = endpointKey
       \<and> recordIsCurrent (ep_validFrom e) (ep_validUntil e) now) endpoints"

definition selectEndpoint :: "string \<Rightarrow> int \<Rightarrow> source_evidence \<Rightarrow> alias_report shown \<Rightarrow> endpoint list
    \<Rightarrow> endpoint_decision + endpoint" where
  "selectEndpoint endpointKey now source aliasEvidence endpoints = (let
     matching = matchingEndpoints endpointKey now endpoints;
     blocking = filter endpointDenied matching;
     live = filter endpointLive matching
   in
     if blocking \<noteq> [] then
       Inl (ed_blocked [''CANONICAL_ENDPOINT_DENIED''] (Some source) aliasEvidence
         (Many (map summarizeEndpoint blocking)) Omitted)
     else case live of
       [] \<Rightarrow> Inl (ed_blocked [''CANONICAL_ENDPOINT_UNAVAILABLE''] (Some source) aliasEvidence Omitted Omitted)
     | [e] \<Rightarrow>
         if \<not> ep_schemaPresent e then
           Inl (ed_blocked [''ENDPOINT_SCHEMA_MISSING''] (Some source) aliasEvidence
             (One (Some (summarizeEndpoint e))) Omitted)
         else Inr e
     | _ \<Rightarrow> Inl (ed_blocked [''CANONICAL_ENDPOINT_AMBIGUOUS''] (Some source) aliasEvidence
         (Many (map summarizeEndpoint live)) Omitted))"

definition certificationPositive :: "certification \<Rightarrow> bool" where
  "certificationPositive c = (ce_status c \<in> set [''certified'', ''active''])"

definition certificationDenied :: "certification \<Rightarrow> bool" where
  "certificationDenied c =
     (ce_revokedAt c \<noteq> None
      \<or> ce_status c \<in> set [''revoked'', ''suspended'', ''inactive'']
      \<or> certificationPositive c \<and> \<not> ce_dispatchAllowed c)"

definition certificationFuture :: "int \<Rightarrow> certification \<Rightarrow> bool" where
  "certificationFuture now c =
     (certificationPositive c \<and> ce_dispatchAllowed c
      \<and> (case ce_certifiedAt c of None \<Rightarrow> False | Some t \<Rightarrow> now < t))"

definition certificationActive :: "int \<Rightarrow> certification \<Rightarrow> bool" where
  "certificationActive now c =
     (certificationPositive c \<and> ce_dispatchAllowed c \<and> ce_revokedAt c = None
      \<and> (case ce_certifiedAt c of None \<Rightarrow> True | Some t \<Rightarrow> t \<le> now))"

definition currentCertifications :: "string \<Rightarrow> int \<Rightarrow> certification list \<Rightarrow> certification list" where
  "currentCertifications endpointKey now certifications =
     filter (\<lambda>c. ce_endpointKey c = endpointKey
       \<and> recordIsCurrent (ce_validFrom c) (ce_validUntil c) now) certifications"

definition selectCertification :: "string \<Rightarrow> int \<Rightarrow> source_evidence \<Rightarrow> alias_report shown \<Rightarrow> endpoint
    \<Rightarrow> certification list \<Rightarrow> endpoint_decision + certification" where
  "selectCertification endpointKey now source aliasEvidence selectedEndpoint certifications = (let
     current = currentCertifications endpointKey now certifications;
     denials = filter certificationDenied current;
     future = filter (certificationFuture now) current;
     activeCertifications = filter (certificationActive now) current;
     endpointEvidence = One (Some (summarizeEndpoint selectedEndpoint))
   in
     if denials \<noteq> [] then
       Inl (ed_blocked [''RUNTIME_CERTIFICATION_DENIED''] (Some source) aliasEvidence endpointEvidence
         (Many (map summarizeCertification denials)))
     else if future \<noteq> [] then
       Inl (ed_blocked [''RUNTIME_CERTIFICATION_FROM_FUTURE''] (Some source) aliasEvidence endpointEvidence
         (Many (map summarizeCertification future)))
     else case activeCertifications of
       [] \<Rightarrow> Inl (ed_blocked [''RUNTIME_CERTIFICATION_MISSING''] (Some source) aliasEvidence endpointEvidence Omitted)
     | [c] \<Rightarrow> Inr c
     | _ \<Rightarrow> Inl (ed_blocked [''RUNTIME_CERTIFICATION_AMBIGUOUS''] (Some source) aliasEvidence endpointEvidence
         (Many (map summarizeCertification activeCertifications))))"

definition normalizeAliases :: "host \<Rightarrow> endpoint_binding \<Rightarrow> jsval \<Rightarrow> string + endpoint_alias list" where
  "normalizeAliases h binding records = normalizeList (normalizeAlias h binding) a_aliasRef maxAliases
     ''ENDPOINT_ALIAS_MALFORMED'' ''ENDPOINT_ALIAS_LIMIT_EXCEEDED'' ''ENDPOINT_ALIAS_REFERENCE_AMBIGUOUS'' records"

definition normalizeEndpoints :: "host \<Rightarrow> endpoint_binding \<Rightarrow> jsval \<Rightarrow> string + endpoint list" where
  "normalizeEndpoints h binding records = normalizeList (normalizeEndpoint h binding) ep_endpointRef maxEndpoints
     ''ENDPOINT_EVIDENCE_MALFORMED'' ''ENDPOINT_EVIDENCE_LIMIT_EXCEEDED'' ''ENDPOINT_REFERENCE_AMBIGUOUS'' records"

definition normalizeCertifications :: "host \<Rightarrow> endpoint_binding \<Rightarrow> jsval \<Rightarrow> string + certification list" where
  "normalizeCertifications h binding records =
     normalizeList (normalizeCertification h binding) ce_certificationRef maxCertifications
       ''CERTIFICATION_EVIDENCE_MALFORMED'' ''CERTIFICATION_EVIDENCE_LIMIT_EXCEEDED''
       ''CERTIFICATION_REFERENCE_AMBIGUOUS'' records"

text \<open>An error code of a list becomes a blocked decision.\<close>

definition or_blocked :: "source_evidence \<Rightarrow> string + 'a \<Rightarrow> endpoint_decision + 'a" where
  "or_blocked source m = (case m of
     Inl errorCode \<Rightarrow> Inl (ed_blocked [errorCode] (Some source) Omitted Omitted Omitted)
   | Inr x \<Rightarrow> Inr x)"

definition resolvedEndpoint :: "source_evidence \<Rightarrow> endpoint_binding \<Rightarrow> endpoint_alias option \<Rightarrow> string
    \<Rightarrow> endpoint \<Rightarrow> certification \<Rightarrow> endpoint_decision" where
  "resolvedEndpoint source binding selectedAlias canonicalEndpointKey selectedEndpoint selectedCertification =
     \<lparr>ed_status = ''resolved'', ed_decision = ''allow'',
      ed_reasonCodes = [''ENDPOINT_CERTIFICATION_RESOLVED''], ed_sourceEvidence = Some source,
      ed_configuredEndpointKey = Some (eb_configuredEndpointKey binding),
      ed_canonicalEndpointKey = Some canonicalEndpointKey,
      ed_aliasApplied = Some (selectedAlias \<noteq> None),
      ed_aliasEvidence = One (map_option summarizeAlias selectedAlias),
      ed_endpointEvidence = One (Some (summarizeEndpoint selectedEndpoint)),
      ed_certificationEvidence = One (Some (summarizeCertification selectedCertification)),
      ed_endpointResolved = True, ed_certificationSatisfied = True, ed_dispatchCertified = True,
      ed_applyCertified = Some (ce_applyAllowed selectedCertification),
      ed_authorityGranted = False, ed_executionAuthorized = False,
      ed_runtimeAuthorityChanged = False, ed_automaticWritePerformed = False,
      ed_providerCallMade = False, ed_credentialPayloadRead = False, ed_secretsIncluded = False\<rparr>"

definition canonicalKey :: "endpoint_binding \<Rightarrow> endpoint_alias option \<Rightarrow> string" where
  "canonicalKey binding selectedAlias = (case selectedAlias of
     None \<Rightarrow> eb_configuredEndpointKey binding
   | Some a \<Rightarrow> if a_canonicalEndpointKey a = [] then eb_configuredEndpointKey binding
       else a_canonicalEndpointKey a)"

text \<open>
  The decision on a snapshot whose header was accepted. A blocked decision is on the left,
  the resolved one on the right.
\<close>

definition resolveEndpoint :: "host \<Rightarrow> endpoint_binding \<Rightarrow> int \<Rightarrow> source_evidence \<Rightarrow> jsval
    \<Rightarrow> endpoint_decision + endpoint_decision" where
  "resolveEndpoint h binding now source snapshot =
     res_bind (or_blocked source (normalizeAliases h binding (get snapshot ''aliases''))) (\<lambda>aliases.
     res_bind (selectAlias (eb_configuredEndpointKey binding) now source aliases) (\<lambda>selectedAlias.
     let canonicalEndpointKey = canonicalKey binding selectedAlias;
         aliasEvidence = One (map_option summarizeAlias selectedAlias) in
     res_bind (or_blocked source (normalizeEndpoints h binding (get snapshot ''endpoints''))) (\<lambda>endpoints.
     res_bind (selectEndpoint canonicalEndpointKey now source aliasEvidence endpoints) (\<lambda>selectedEndpoint.
     res_bind (or_blocked source (normalizeCertifications h binding (get snapshot ''certifications''))) (\<lambda>certifications.
     res_bind (selectCertification canonicalEndpointKey now source aliasEvidence selectedEndpoint certifications)
       (\<lambda>selectedCertification.
     Inr (resolvedEndpoint source binding selectedAlias canonicalEndpointKey selectedEndpoint
       selectedCertification)))))))"

definition decideEndpointSnapshot :: "host \<Rightarrow> endpoint_binding \<Rightarrow> int \<Rightarrow> jsval \<Rightarrow> endpoint_decision" where
  "decideEndpointSnapshot h binding now snapshot =
     (if \<not> is_object snapshot then
        ed_blocked [''ENDPOINT_CERTIFICATION_SNAPSHOT_MALFORMED''] None Omitted Omitted Omitted
      else case read_snapshot h (normalizeBinding h) snapshot of
        Inl _ \<Rightarrow> ed_blocked [''ENDPOINT_CERTIFICATION_SNAPSHOT_MALFORMED''] None Omitted Omitted Omitted
      | Inr header \<Rightarrow> (let source = sh_sourceEvidence header in
          if \<not> bindingsMatch binding (sh_binding header) then
            ed_blocked [''ENDPOINT_CERTIFICATION_SNAPSHOT_BINDING_MISMATCH''] (Some source) Omitted Omitted Omitted
          else if now < sh_capturedAt header then
            ed_blocked [''ENDPOINT_CERTIFICATION_SNAPSHOT_FROM_FUTURE''] (Some source) Omitted Omitted Omitted
          else if sh_expiresAt header \<le> now then
            ed_blocked [''ENDPOINT_CERTIFICATION_SNAPSHOT_STALE''] (Some source) Omitted Omitted Omitted
          else case resolveEndpoint h binding now source snapshot of Inl d \<Rightarrow> d | Inr d \<Rightarrow> d))"

definition evaluateEndpointCertificationDecision :: "host \<Rightarrow> int \<Rightarrow> jsval \<Rightarrow> endpoint_decision res" where
  "evaluateEndpointCertificationDecision h clock arg =
     res_bind (normalizeBinding h arg) (\<lambda>binding.
     res_bind (evaluated_now h clock (get arg ''now'')) (\<lambda>now.
     Inr (decideEndpointSnapshot h binding now (get arg ''snapshot''))))"

section \<open>Accepted evidence\<close>

lemma endpointBindingsMatch_iff [simp]: "bindingsMatch l r \<longleftrightarrow> l = r"
  by (auto simp: bindingsMatch_def)

definition carries_endpoint_binding :: "host \<Rightarrow> jsval \<Rightarrow> endpoint_binding \<Rightarrow> bool" where
  "carries_endpoint_binding h v b = (is_object v \<and> normalizeBinding h v = Inr b)"

interpretation alias_evidence: bound_evidence "normalizeAlias h" "carries_endpoint_binding h" for h
  by unfold_locales
    (auto simp: normalizeAlias_def carries_endpoint_binding_def Let_def split: if_splits)

interpretation endpoint_evidence: bound_evidence "normalizeEndpoint h" "carries_endpoint_binding h" for h
  by unfold_locales
    (auto simp: normalizeEndpoint_def carries_endpoint_binding_def Let_def split: if_splits)

interpretation certification_evidence: bound_evidence "normalizeCertification h" "carries_endpoint_binding h" for h
  by unfold_locales
    (auto simp: normalizeCertification_def carries_endpoint_binding_def Let_def split: if_splits)

section \<open>Certified routes\<close>

text \<open>
  The contract: among the aliases, endpoints and certifications in force for a key, nothing
  denies, exactly one endpoint is live and has a schema, and exactly one certification
  permits the dispatch.
\<close>

definition only :: "('a \<Rightarrow> bool) \<Rightarrow> 'a list \<Rightarrow> 'a \<Rightarrow> bool" where
  "only P xs x = (x \<in> set xs \<and> P x \<and> (\<forall>y \<in> set xs. P y \<longrightarrow> y = x))"

definition none :: "('a \<Rightarrow> bool) \<Rightarrow> 'a list \<Rightarrow> bool" where
  "none P xs = (\<forall>y \<in> set xs. \<not> P y)"

definition alias_route :: "string \<Rightarrow> int \<Rightarrow> endpoint_alias list \<Rightarrow> endpoint_alias option \<Rightarrow> bool" where
  "alias_route endpointKey now aliases a = (let relevant = relevantAliases endpointKey now aliases in
     none (\<lambda>x. a_status x \<noteq> ''active'') relevant
     \<and> (case a of None \<Rightarrow> relevant = [] | Some x \<Rightarrow> relevant = [x]))"

definition certified_route :: "string \<Rightarrow> int \<Rightarrow> endpoint list \<Rightarrow> certification list \<Rightarrow> endpoint
    \<Rightarrow> certification \<Rightarrow> bool" where
  "certified_route endpointKey now endpoints certifications e c =
     (none endpointDenied (matchingEndpoints endpointKey now endpoints)
      \<and> only endpointLive (matchingEndpoints endpointKey now endpoints) e \<and> ep_schemaPresent e
      \<and> none certificationDenied (currentCertifications endpointKey now certifications)
      \<and> none (certificationFuture now) (currentCertifications endpointKey now certifications)
      \<and> only (certificationActive now) (currentCertifications endpointKey now certifications) c)"

lemma filter_only: "distinct xs \<Longrightarrow> filter P xs = [x] \<longleftrightarrow> only P xs x"
proof -
  assume "distinct xs"
  then have "distinct (filter P xs)" by simp
  then have "filter P xs = [x] \<longleftrightarrow> set (filter P xs) = {x}"
    by (cases "filter P xs") (auto simp: subset_singleton_iff simp del: set_filter)
  also have "\<dots> \<longleftrightarrow> only P xs x"
    by (auto simp: only_def)
  finally show ?thesis .
qed

lemma filter_none: "filter P xs = [] \<longleftrightarrow> none P xs"
  by (auto simp: none_def filter_empty_conv)

lemma normalizeAlias_status:
  "normalizeAlias h b v = Inr a \<Longrightarrow> a_status a \<in> set ALIAS_STATUSES"
  by (auto simp: normalizeAlias_def Let_def split: if_splits)

lemma normalizeList_distinct: "normalizeList f ref n mc lc ac v = Inr rs \<Longrightarrow> distinct rs"
  by (auto simp: normalizeList_Inr distinct_map)

lemma distinct_matching [simp]: "distinct es \<Longrightarrow> distinct (matchingEndpoints k now es)"
  by (simp add: matchingEndpoints_def)

lemma distinct_current [simp]: "distinct cs \<Longrightarrow> distinct (currentCertifications k now cs)"
  by (simp add: currentCertifications_def)

lemma selectAlias_Inr:
  assumes "\<And>x. x \<in> set aliases \<Longrightarrow> a_status x \<in> set ALIAS_STATUSES"
  shows "selectAlias k now source aliases = Inr a \<longleftrightarrow> alias_route k now aliases a"
proof -
  let ?rel = "relevantAliases k now aliases"
  have "filter (\<lambda>x. a_status x \<in> set [''revoked'', ''disabled'', ''inactive'', ''expired'']) ?rel
      = filter (\<lambda>x. a_status x \<noteq> ''active'') ?rel"
    using assms by (intro filter_cong) (auto simp: ALIAS_STATUSES_def relevantAliases_def)
  moreover have "none (\<lambda>x. a_status x \<noteq> ''active'') ?rel \<Longrightarrow> filter (\<lambda>x. a_status x = ''active'') ?rel = ?rel"
    by (auto simp: none_def filter_id_conv)
  ultimately show ?thesis
    unfolding selectAlias_def alias_route_def Let_def
    by (auto simp: filter_none split: list.splits option.splits)
qed

lemma selectEndpoint_Inr:
  assumes "distinct endpoints"
  shows "selectEndpoint k now source ae endpoints = Inr e \<longleftrightarrow>
    none endpointDenied (matchingEndpoints k now endpoints)
      \<and> only endpointLive (matchingEndpoints k now endpoints) e \<and> ep_schemaPresent e"
  using assms
  by (auto simp: selectEndpoint_def Let_def filter_none [symmetric] filter_only [symmetric]
      split: list.splits if_splits)

lemma selectCertification_Inr:
  assumes "distinct certifications"
  shows "selectCertification k now source ae ep certifications = Inr c \<longleftrightarrow>
    none certificationDenied (currentCertifications k now certifications)
      \<and> none (certificationFuture now) (currentCertifications k now certifications)
      \<and> only (certificationActive now) (currentCertifications k now certifications) c"
  using assms
  by (auto simp: selectCertification_def Let_def filter_none [symmetric] filter_only [symmetric]
      split: list.splits if_splits)

definition endpoint_evidence_for :: "host \<Rightarrow> endpoint_binding \<Rightarrow> int \<Rightarrow> jsval \<Rightarrow> endpoint_alias list
    \<Rightarrow> endpoint list \<Rightarrow> certification list \<Rightarrow> bool" where
  "endpoint_evidence_for h b now snapshot aliases endpoints certifications =
     (is_object snapshot
      \<and> (\<exists>header. read_snapshot h (normalizeBinding h) snapshot = Inr header \<and> sh_binding header = b
           \<and> sh_capturedAt header \<le> now \<and> now < sh_expiresAt header)
      \<and> normalizeAliases h b (get snapshot ''aliases'') = Inr aliases
      \<and> normalizeEndpoints h b (get snapshot ''endpoints'') = Inr endpoints
      \<and> normalizeCertifications h b (get snapshot ''certifications'') = Inr certifications)"

lemma or_blocked_Inr [simp]: "or_blocked source m = Inr x \<longleftrightarrow> m = Inr x"
  by (simp add: or_blocked_def split: sum.split)

lemma normalizeAliases_statuses:
  assumes "normalizeAliases h b v = Inr as" "x \<in> set as"
  shows "a_status x \<in> set ALIAS_STATUSES"
  using alias_evidence.kept_bound [OF assms(1) [unfolded normalizeAliases_def] assms(2)]
  by (auto dest: normalizeAlias_status)

lemma normalizeEndpoints_distinct: "normalizeEndpoints h b v = Inr es \<Longrightarrow> distinct es"
  by (auto simp: normalizeEndpoints_def dest: normalizeList_distinct)

lemma normalizeCertifications_distinct: "normalizeCertifications h b v = Inr cs \<Longrightarrow> distinct cs"
  by (auto simp: normalizeCertifications_def dest: normalizeList_distinct)

lemma resolveEndpoint_Inr:
  "resolveEndpoint h b now source snapshot = Inr d \<longleftrightarrow>
     (\<exists>as a es e cs c.
        normalizeAliases h b (get snapshot ''aliases'') = Inr as
      \<and> normalizeEndpoints h b (get snapshot ''endpoints'') = Inr es
      \<and> normalizeCertifications h b (get snapshot ''certifications'') = Inr cs
      \<and> alias_route (eb_configuredEndpointKey b) now as a
      \<and> certified_route (canonicalKey b a) now es cs e c
      \<and> d = resolvedEndpoint source b a (canonicalKey b a) e c)"
  unfolding resolveEndpoint_def certified_route_def
  by (auto simp: selectAlias_Inr [OF normalizeAliases_statuses] selectEndpoint_Inr [OF normalizeEndpoints_distinct]
      selectCertification_Inr [OF normalizeCertifications_distinct] Let_def; blast)

lemma ed_blocked_decision [simp]: "ed_decision (ed_blocked rs s a e c) = ''deny''"
  by (simp add: ed_blocked_def)

lemma select_deny:
  "or_blocked source m = Inl d \<Longrightarrow> ed_decision d = ''deny''"
  "selectAlias k now source as = Inl d \<Longrightarrow> ed_decision d = ''deny''"
  "selectEndpoint k now source ae es = Inl d \<Longrightarrow> ed_decision d = ''deny''"
  "selectCertification k now source ae e cs = Inl d \<Longrightarrow> ed_decision d = ''deny''"
proof -
  show "or_blocked source m = Inl d \<Longrightarrow> ed_decision d = ''deny''"
    by (auto simp: or_blocked_def split: sum.splits)
  show "selectAlias k now source as = Inl d \<Longrightarrow> ed_decision d = ''deny''"
    by (auto simp: selectAlias_def Let_def split: if_splits)
  show "selectEndpoint k now source ae es = Inl d \<Longrightarrow> ed_decision d = ''deny''"
    unfolding selectEndpoint_def Let_def by (split if_splits list.splits; auto split: list.splits if_splits)
  show "selectCertification k now source ae e cs = Inl d \<Longrightarrow> ed_decision d = ''deny''"
    unfolding selectCertification_def Let_def by (split if_splits list.splits; auto split: list.splits if_splits)
qed

lemma resolveEndpoint_Inl:
  assumes "resolveEndpoint h b now source snapshot = Inl d"
  shows "ed_decision d = ''deny''"
  using assms unfolding resolveEndpoint_def Let_def res_bind_Inl_iff
  by (elim disjE exE conjE) (auto dest: select_deny)

lemma resolvedEndpoint_decision [simp]: "ed_decision (resolvedEndpoint s b a k e c) = ''allow''"
  by (simp add: resolvedEndpoint_def)

lemma decideEndpointSnapshot_allow:
  assumes "decideEndpointSnapshot h b now snapshot = d" "ed_decision d = ''allow''"
  shows "\<exists>header. is_object snapshot \<and> read_snapshot h (normalizeBinding h) snapshot = Inr header
    \<and> sh_binding header = b \<and> sh_capturedAt header \<le> now \<and> now < sh_expiresAt header
    \<and> resolveEndpoint h b now (sh_sourceEvidence header) snapshot = Inr d"
  using assms unfolding decideEndpointSnapshot_def Let_def
  by (auto dest: resolveEndpoint_Inl split: if_splits sum.splits)

text \<open>
  C12. A dispatch is certified exactly when the snapshot is well formed, bound to the request
  and current, no alias in force for the configured key is inactive or ambiguous, exactly
  one endpoint is live for the resulting key and none for it is denied, its schema is
  present, and exactly one certification permits the dispatch while none denies it or lies
  in the future; the result then reports that alias, endpoint and certification.
\<close>

theorem endpoint_certified_iff:
  "evaluateEndpointCertificationDecision h clock arg = Inr d \<and> ed_decision d = ''allow'' \<longleftrightarrow>
     (\<exists>b now header as es cs a e c. normalizeBinding h arg = Inr b
        \<and> evaluated_now h clock (get arg ''now'') = Inr now
        \<and> read_snapshot h (normalizeBinding h) (get arg ''snapshot'') = Inr header
        \<and> endpoint_evidence_for h b now (get arg ''snapshot'') as es cs
        \<and> alias_route (eb_configuredEndpointKey b) now as a
        \<and> certified_route (canonicalKey b a) now es cs e c
        \<and> d = resolvedEndpoint (sh_sourceEvidence header) b a (canonicalKey b a) e c)"
  (is "?lhs \<longleftrightarrow> ?rhs")
proof
  assume ?lhs
  then obtain b now where b: "normalizeBinding h arg = Inr b" and now: "evaluated_now h clock (get arg ''now'') = Inr now"
    and d: "decideEndpointSnapshot h b now (get arg ''snapshot'') = d" "ed_decision d = ''allow''"
    by (auto simp: evaluateEndpointCertificationDecision_def)
  from decideEndpointSnapshot_allow [OF d] b now show ?rhs
    unfolding resolveEndpoint_Inr endpoint_evidence_for_def by blast
next
  assume ?rhs
  then obtain b now header as es cs a e c where r: "normalizeBinding h arg = Inr b"
      "evaluated_now h clock (get arg ''now'') = Inr now"
      "read_snapshot h (normalizeBinding h) (get arg ''snapshot'') = Inr header"
      "endpoint_evidence_for h b now (get arg ''snapshot'') as es cs"
      "alias_route (eb_configuredEndpointKey b) now as a" "certified_route (canonicalKey b a) now es cs e c"
      "d = resolvedEndpoint (sh_sourceEvidence header) b a (canonicalKey b a) e c"
    by blast
  then have "resolveEndpoint h b now (sh_sourceEvidence header) (get arg ''snapshot'') = Inr d"
    by (auto simp: resolveEndpoint_Inr endpoint_evidence_for_def)
  with r show ?lhs
    by (auto simp: evaluateEndpointCertificationDecision_def decideEndpointSnapshot_def Let_def
        endpoint_evidence_for_def)
qed

text \<open>
  C13. A certified dispatch rests only on evidence for the request: every raw alias, endpoint
  and certification of the snapshot carries exactly the request's binding (principal,
  subject, tenant, workspace, capability, provider binding, application, action and
  configured endpoint).
\<close>

theorem endpoint_evidence_isolated:
  assumes "evaluateEndpointCertificationDecision h clock arg = Inr d" and "ed_decision d = ''allow''"
  shows "\<exists>b as es cs. normalizeBinding h arg = Inr b
    \<and> get (get arg ''snapshot'') ''aliases'' = JArr as
    \<and> get (get arg ''snapshot'') ''endpoints'' = JArr es
    \<and> get (get arg ''snapshot'') ''certifications'' = JArr cs
    \<and> (\<forall>v \<in> set as \<union> set es \<union> set cs. normalizeBinding h v = Inr b)"
proof -
  obtain b now where b: "normalizeBinding h arg = Inr b"
    and d: "decideEndpointSnapshot h b now (get arg ''snapshot'') = d"
    using assms(1) by (auto simp: evaluateEndpointCertificationDecision_def)
  obtain as es cs where r: "normalizeAliases h b (get (get arg ''snapshot'') ''aliases'') = Inr as"
      "normalizeEndpoints h b (get (get arg ''snapshot'') ''endpoints'') = Inr es"
      "normalizeCertifications h b (get (get arg ''snapshot'') ''certifications'') = Inr cs"
    using decideEndpointSnapshot_allow [OF d assms(2)] unfolding resolveEndpoint_Inr by blast
  then obtain vs ws us where v: "get (get arg ''snapshot'') ''aliases'' = JArr vs"
      "get (get arg ''snapshot'') ''endpoints'' = JArr ws"
      "get (get arg ''snapshot'') ''certifications'' = JArr us"
    by (auto simp: normalizeAliases_def normalizeEndpoints_def normalizeCertifications_def normalizeList_Inr)
  have "\<forall>x \<in> set vs \<union> set ws \<union> set us. normalizeBinding h x = Inr b"
    using alias_evidence.list_bound [OF r(1) [unfolded normalizeAliases_def v]]
      endpoint_evidence.list_bound [OF r(2) [unfolded normalizeEndpoints_def v]]
      certification_evidence.list_bound [OF r(3) [unfolded normalizeCertifications_def v]]
    by (auto simp: carries_endpoint_binding_def)
  with b v show ?thesis
    by blast
qed

definition demo_endpoint_scope :: "(string \<times> jsval) list" where
  "demo_endpoint_scope = [(''principalType'', JStr ''admin''), (''principalRef'', JStr ''u1''),
     (''subjectType'', JStr ''user''), (''subjectRef'', JStr ''u2''), (''tenantRef'', JStr ''t1''),
     (''capabilityKey'', JStr ''pub''), (''providerBindingRef'', JStr ''pb''), (''appKey'', JStr ''app''),
     (''parentActionKey'', JStr ''act''), (''configuredEndpointKey'', JStr ''old'')]"

definition demo_endpoint_arg :: jsval where
  "demo_endpoint_arg = JObj (demo_endpoint_scope @ [(''snapshot'', JObj (demo_endpoint_scope @
     [(''evaluatedAt'', JDate (Some 1000)), (''expiresAt'', JDate (Some 9000)),
      (''aliases'', JArr [JObj (demo_endpoint_scope @ [(''aliasRef'', JStr ''a1''), (''aliasEndpointKey'', JStr ''old''),
         (''canonicalEndpointKey'', JStr ''new''), (''status'', JStr ''active'')])]),
      (''endpoints'', JArr [JObj (demo_endpoint_scope @ [(''endpointRef'', JStr ''e1''), (''endpointKey'', JStr ''new''),
         (''status'', JStr ''active''), (''executionReadiness'', JStr ''ready''), (''schemaPresent'', JBool True)])]),
      (''certifications'', JArr [JObj (demo_endpoint_scope @ [(''certificationRef'', JStr ''c1''), (''endpointKey'', JStr ''new''),
         (''status'', JStr ''certified''), (''dispatchAllowed'', JBool True)])])])),
     (''now'', JDate (Some 5000))])"

lemma demo_endpoint_allowed:
  "map_sum id (\<lambda>d. (ed_decision d, ed_canonicalEndpointKey d))
     (evaluateEndpointCertificationDecision plain_host 0 demo_endpoint_arg) = Inr (''allow'', Some ''new'')"
  by code_simp

theorem endpoint_evidence_isolated_witness:
  "\<exists>b. normalizeBinding plain_host demo_endpoint_arg = Inr b"
proof -
  obtain d where d: "evaluateEndpointCertificationDecision plain_host 0 demo_endpoint_arg = Inr d"
      "ed_decision d = ''allow''"
    using demo_endpoint_allowed
    by (cases "evaluateEndpointCertificationDecision plain_host 0 demo_endpoint_arg") simp_all
  show ?thesis
    using endpoint_evidence_isolated [OF d] by blast
qed

end
