(* ===== verification/Kernel_Sealing.thy ===== *)
theory Kernel_Sealing
  imports Kernel_Capsule
begin

text \<open>
  What the execution capsule guarantees: creating and checking are inverse to each other on
  the capsules of \<^verbatim>\<open>executionCapsule.js\<close>, up to the one case where they are not;
  a checked capsule is sealed; and the comparison with the current dependencies is exact.
\<close>

section \<open>Reading a capsule back\<close>

definition scope_of :: "descriptor \<Rightarrow> capsule_scope" where
  "scope_of d = \<lparr>sc_contextRevision = ds_contextRevision d, sc_principalRef = ds_principalRef d,
     sc_effectiveSubjectRef = ds_effectiveSubjectRef d, sc_tenantRef = ds_tenantRef d,
     sc_workspaceRef = ds_workspaceRef d, sc_brandRef = ds_brandRef d, sc_resourceType = ds_resourceType d,
     sc_resourceRef = ds_resourceRef d, sc_connectionRef = ds_connectionRef d,
     sc_authorityPathRef = ds_authorityPathRef d, sc_capabilityKey = ds_capabilityKey d,
     sc_authorityRevision = ds_authorityRevision d, sc_capabilityRevision = ds_capabilityRevision d,
     sc_registryRevision = ds_registryRevision d,
     sc_credentialReadinessRevision = ds_credentialReadinessRevision d\<rparr>"

definition descriptor_ok :: "descriptor \<Rightarrow> bool" where
  "descriptor_ok d = (scope_ok (scope_of d) \<and> field_ok (ds_contextHash d) \<and> field_ok (ds_principalType d))"

lemma read_descriptor_ok: "read_descriptor input i e = Inr d \<Longrightarrow> descriptor_ok d \<and> ds_issuedAt d = i \<and> ds_expiresAt d = e"
  by (auto simp: read_descriptor_def descriptor_ok_def scope_ok_def scope_of_def
      dest: requireString_field optionalString_field)

text \<open>A value that shows the fields of a descriptor.\<close>

definition shows_scope :: "jsval \<Rightarrow> descriptor \<Rightarrow> bool" where
  "shows_scope v d =
     (get v ''contextRevision'' = JStr (ds_contextRevision d) \<and> get v ''principalRef'' = JStr (ds_principalRef d)
      \<and> get v ''effectiveSubjectRef'' = JStr (ds_effectiveSubjectRef d) \<and> get v ''tenantRef'' = JStr (ds_tenantRef d)
      \<and> get v ''workspaceRef'' = JStr (ds_workspaceRef d) \<and> get v ''brandRef'' = jopt (ds_brandRef d)
      \<and> get v ''resourceType'' = JStr (ds_resourceType d) \<and> get v ''resourceRef'' = JStr (ds_resourceRef d)
      \<and> get v ''connectionRef'' = JStr (ds_connectionRef d)
      \<and> get v ''authorityPathRef'' = JStr (ds_authorityPathRef d)
      \<and> get v ''capabilityKey'' = JStr (ds_capabilityKey d)
      \<and> get v ''authorityRevision'' = JStr (ds_authorityRevision d)
      \<and> get v ''capabilityRevision'' = JStr (ds_capabilityRevision d)
      \<and> get v ''registryRevision'' = JStr (ds_registryRevision d)
      \<and> get v ''credentialReadinessRevision'' = JStr (ds_credentialReadinessRevision d))"

definition shows_descriptor :: "jsval \<Rightarrow> descriptor \<Rightarrow> bool" where
  "shows_descriptor v d =
     (shows_scope v d \<and> get v ''contextHash'' = JStr (ds_contextHash d)
      \<and> get v ''principalType'' = JStr (ds_principalType d)
      \<and> get v ''issuedAt'' = JStr (ds_issuedAt d) \<and> get v ''expiresAt'' = JStr (ds_expiresAt d))"

lemma descriptor_fields_shows: "shows_descriptor (JObj (descriptor_fields d @ rest)) d"
  by (simp add: shows_descriptor_def shows_scope_def descriptor_fields_def)

lemma read_scope_shows: "shows_scope v d \<Longrightarrow> descriptor_ok d \<Longrightarrow> read_scope v = Inr (scope_of d)"
  by (simp add: shows_scope_def descriptor_ok_def scope_ok_def scope_of_def read_scope_def)

lemma read_descriptor_shows:
  "shows_descriptor v d \<Longrightarrow> descriptor_ok d \<Longrightarrow> read_descriptor v (ds_issuedAt d) (ds_expiresAt d) = Inr d"
  by (simp add: shows_descriptor_def shows_scope_def descriptor_ok_def scope_ok_def scope_of_def read_descriptor_def)

lemma get_pick: "get (JObj (pick ks v @ rest)) k = (if k \<in> set ks then get v k else own_get rest k)"
  by (induction ks) (auto simp: pick_def)

lemma shows_pick:
  "shows_descriptor v d \<Longrightarrow> shows_descriptor (JObj (pick canonicalFields v @ rest)) d"
  "shows_scope v d \<Longrightarrow> shows_scope (JObj (pick scopeFields v @ rest)) d"
  unfolding shows_descriptor_def shows_scope_def get_pick
  by (simp_all add: canonicalFields_def scopeFields_def)

section \<open>Created capsules\<close>

text \<open>What a created capsule looks like, in terms of its own fields.\<close>

definition capsule_sealed :: "host \<Rightarrow> capsule \<Rightarrow> dependency list \<Rightarrow> bool" where
  "capsule_sealed h c ys = (let d = ca_descriptor c; autos = automaticDependencies (scope_of d) in
     descriptor_ok d
     \<and> (\<exists>i e. time_ok i \<and> time_ok e \<and> i < e \<and> ds_issuedAt d = iso_string i \<and> ds_expiresAt d = iso_string e)
     \<and> ca_invalidationDependencies c = sort_by (compareDependencies h) (autos @ ys)
     \<and> distinct_keys (autos @ ys) \<and> length ys \<le> MAX_CAPSULE_DEPENDENCIES
     \<and> (\<forall>y \<in> set ys. dependency_ok y)
     \<and> createExecutionCapsuleHash h (JObj (descriptor_fields d
         @ [(''invalidationDependencies'', JArr (map dependency_value (ca_invalidationDependencies c)))]))
       = Inr (ca_capsuleHash c)
     \<and> ca_capsuleRef c = ''ctxc-'' @ take 32 (ca_capsuleHash c))"

lemma normalizeDate_Inr:
  "normalizeDate h v f = Inr s \<longleftrightarrow> (\<exists>t. to_time h v = Some t \<and> s = iso_string t)"
  by (auto simp: normalizeDate_def split: option.splits)

lemma create_sealed:
  assumes "createExecutionCapsule h input = Inr c"
  shows "\<exists>ys. capsule_sealed h c ys"
proof -
  obtain i e d deps hash where r: "to_time h (get input ''issuedAt'') = Some i"
      "to_time h (get input ''expiresAt'') = Some e"
      "\<not> (case (date_parse h (iso_string e), date_parse h (iso_string i)) of (Some e, Some i) \<Rightarrow> e \<le> i | _ \<Rightarrow> False)"
      "read_descriptor input (iso_string i) (iso_string e) = Inr d"
      "createExecutionCapsuleDependencyVector h (JObj (descriptor_fields d
       @ [(''invalidationDependencies'', js_or (get input ''invalidationDependencies'') (JArr []))])) = Inr deps"
      "createExecutionCapsuleHash h (JObj (descriptor_fields d
       @ [(''invalidationDependencies'', JArr (map dependency_value deps))])) = Inr hash"
      "c = \<lparr>ca_descriptor = d, ca_capsuleRef = ''ctxc-'' @ take 32 hash, ca_capsuleHash = hash,
       ca_invalidationDependencies = deps\<rparr>"
    using assms by (auto simp: createExecutionCapsule_def normalizeDate_Inr Let_def)
  have ie: "time_ok i" "time_ok e"
    using r(1,2) by (auto dest: to_time_ok)
  then have "i < e"
    using r(3) by simp
  have d: "descriptor_ok d" "ds_issuedAt d = iso_string i" "ds_expiresAt d = iso_string e"
    using read_descriptor_ok [OF r(4)] by simp_all
  have "read_scope (JObj (descriptor_fields d
       @ [(''invalidationDependencies'', js_or (get input ''invalidationDependencies'') (JArr []))])) = Inr (scope_of d)"
    using descriptor_fields_shows d(1) by (intro read_scope_shows) (simp_all add: shows_descriptor_def)
  with vector_shape [OF r(5)] obtain ys where
    "deps = sort_by (compareDependencies h) (automaticDependencies (scope_of d) @ ys)"
    "distinct_keys (automaticDependencies (scope_of d) @ ys)" "length ys \<le> MAX_CAPSULE_DEPENDENCIES"
    "\<forall>y \<in> set ys. dependency_ok y"
    by auto
  with r d ie \<open>i < e\<close> show ?thesis
    by (intro exI [of _ ys]) (auto simp: capsule_sealed_def Let_def)
qed

text \<open>Creating again from a value that shows the same fields gives the same capsule.\<close>

lemma create_from:
  assumes "capsule_sealed h c ys"
    and "read_descriptor v (ds_issuedAt (ca_descriptor c)) (ds_expiresAt (ca_descriptor c)) = Inr (ca_descriptor c)"
    and "normalizeDate h (get v ''issuedAt'') ''issuedAt'' = Inr (ds_issuedAt (ca_descriptor c))"
    and "normalizeDate h (get v ''expiresAt'') ''expiresAt'' = Inr (ds_expiresAt (ca_descriptor c))"
    and "get v ''invalidationDependencies'' = JArr (map dependency_value (sort_by (compareDependencies h) ys))"
    and "\<not> truthy (get v ''capsuleRef'') \<or> get v ''capsuleRef'' = JStr (ca_capsuleRef c)"
  shows "createExecutionCapsule h v = Inr c"
proof -
  let ?d = "ca_descriptor c" and ?ys = "sort_by (compareDependencies h) ys"
  obtain i e where ie: "time_ok i" "time_ok e" "i < e" "ds_issuedAt ?d = iso_string i" "ds_expiresAt ?d = iso_string e"
    using assms(1) by (auto simp: capsule_sealed_def Let_def)
  have d: "descriptor_ok ?d"
    using assms(1) by (simp add: capsule_sealed_def Let_def)
  have "createExecutionCapsuleDependencyVector h (JObj (descriptor_fields ?d
       @ [(''invalidationDependencies'', JArr (map dependency_value ?ys))]))
     = Inr (sort_by (compareDependencies h) (automaticDependencies (scope_of ?d) @ ?ys))"
  proof (rule vector_again)
    show "read_scope (JObj (descriptor_fields ?d @ [(''invalidationDependencies'', JArr (map dependency_value ?ys))]))
        = Inr (scope_of ?d)"
      using descriptor_fields_shows d by (intro read_scope_shows) (simp_all add: shows_descriptor_def)
    have "mset (map dependencyKey (automaticDependencies (scope_of ?d) @ ?ys))
        = mset (map dependencyKey (automaticDependencies (scope_of ?d) @ ys))"
      by simp
    then show "distinct_keys (automaticDependencies (scope_of ?d) @ ?ys)"
      using assms(1) unfolding capsule_sealed_def Let_def by (metis mset_eq_imp_distinct_iff)
  qed (use assms(1) in \<open>auto simp: capsule_sealed_def Let_def descriptor_fields_def\<close>)
  moreover have "sort_by (compareDependencies h) (automaticDependencies (scope_of ?d) @ ?ys)
      = ca_invalidationDependencies c"
    using assms(1) by (simp add: capsule_sealed_def Let_def sort_front)
  moreover have "createExecutionCapsuleHash h (JObj (descriptor_fields ?d
         @ [(''invalidationDependencies'', JArr (map dependency_value (ca_invalidationDependencies c)))]))
       = Inr (ca_capsuleHash c)" "ca_capsuleRef c = ''ctxc-'' @ take 32 (ca_capsuleHash c)"
    using assms(1) unfolding capsule_sealed_def Let_def by blast+
  ultimately show ?thesis
    using assms(2-6) ie
    by (auto simp: createExecutionCapsule_def Let_def js_or_def)
qed

lemma create_again:
  assumes "capsule_sealed h c ys" "shows_descriptor v (ca_descriptor c)"
    and "get v ''invalidationDependencies'' = JArr (map dependency_value (sort_by (compareDependencies h) ys))"
    and "get v ''capsuleRef'' = JStr (ca_capsuleRef c)"
  shows "createExecutionCapsule h v = Inr c"
proof -
  let ?d = "ca_descriptor c"
  obtain i e where ie: "time_ok i" "time_ok e" "ds_issuedAt ?d = iso_string i" "ds_expiresAt ?d = iso_string e"
    using assms(1) by (auto simp: capsule_sealed_def Let_def)
  have "read_descriptor v (ds_issuedAt ?d) (ds_expiresAt ?d) = Inr ?d"
    using read_descriptor_shows [OF assms(2)] assms(1) by (simp add: capsule_sealed_def Let_def)
  moreover have "normalizeDate h (get v ''issuedAt'') f = Inr (ds_issuedAt ?d)"
      "normalizeDate h (get v ''expiresAt'') f = Inr (ds_expiresAt ?d)" for f
    using assms(2) ie by (simp_all add: shows_descriptor_def normalizeDate_def)
  ultimately show ?thesis
    using create_from [OF assms(1)] assms(3,4) by blast
qed

lemma sealed_dependencies_ok:
  assumes "capsule_sealed h c ys" "short_resource (scope_of (ca_descriptor c))"
    and "y \<in> set (ca_invalidationDependencies c)"
  shows "dependency_ok y"
  using assms automatic_ok [of "scope_of (ca_descriptor c)" y]
  by (auto simp: capsule_sealed_def Let_def descriptor_ok_def)

lemma sealed_distinct:
  assumes "capsule_sealed h c ys"
  shows "distinct_keys (ca_invalidationDependencies c)"
proof -
  let ?all = "automaticDependencies (scope_of (ca_descriptor c)) @ ys"
  have "ca_invalidationDependencies c = sort_by (compareDependencies h) ?all" "distinct_keys ?all"
    using assms by (simp_all add: capsule_sealed_def Let_def)
  moreover from this(1) have "mset (map dependencyKey (ca_invalidationDependencies c)) = mset (map dependencyKey ?all)"
    by simp
  ultimately show ?thesis
    by (metis mset_eq_imp_distinct_iff)
qed

lemma capsule_value_fields:
  "shows_descriptor (capsule_value c) (ca_descriptor c)"
  "get (capsule_value c) ''invalidationDependencies'' = JArr (map dependency_value (ca_invalidationDependencies c))"
  "get (capsule_value c) ''capsuleHash'' = JStr (ca_capsuleHash c)"
  "get (capsule_value c) ''capsuleRef'' = JStr (ca_capsuleRef c)"
  "get (capsule_value c) ''schemaVersion'' = JNum 1"
  "get (capsule_value c) ''executionAllowed'' = JBool False"
  "get (capsule_value c) ''secretsIncluded'' = JBool False"
  "is_object (capsule_value c)"
  unfolding capsule_value_def using descriptor_fields_shows
  by (simp_all add: is_object_def) (simp_all add: descriptor_fields_def)

lemma sealed_assert:
  assumes sealed: "capsule_sealed h c ys" and short: "short_resource (scope_of (ca_descriptor c))"
    and hex: "is_hex64 (ca_capsuleHash c)"
  shows "assertExecutionCapsuleIntegrity h (capsule_value c) = Inr c"
proof -
  let ?d = "ca_descriptor c" and ?deps = "ca_invalidationDependencies c" and ?v = "capsule_value c"
  let ?autos = "automaticDependencies (scope_of ?d)" and ?ys = "sort_by (compareDependencies h) ys"
  have deps: "?deps = sort_by (compareDependencies h) (?autos @ ys)" and dist: "distinct_keys (?autos @ ys)"
    and len: "length ys \<le> MAX_CAPSULE_DEPENDENCIES" and ok: "descriptor_ok ?d"
    using sealed by (simp_all add: capsule_sealed_def Let_def)
  note sealed_distinct [OF sealed]
  moreover have "length ?deps \<le> MAX_CAPSULE_DEPENDENCIES + length DependencyDomains"
    using len automatic_length [of "scope_of ?d"] by (simp add: deps DependencyDomains_def)
  ultimately have build: "buildDependencyMap h (map dependency_value ?deps) ''capsuleDependencies''
      (MAX_CAPSULE_DEPENDENCIES + length DependencyDomains) = Inr (keyed ?deps)"
    using buildDependencyLoop_value [of ?deps "[]"] sealed_dependencies_ok [OF sealed short]
    by (simp add: buildDependencyMap_def)
  have "shows_scope (JObj (pick scopeFields ?v @ [(''invalidationDependencies'', JArr [])])) ?d"
    using capsule_value_fields(1) by (intro shows_pick) (simp add: shows_descriptor_def)
  then have "read_scope (JObj (pick scopeFields ?v @ [(''invalidationDependencies'', JArr [])])) = Inr (scope_of ?d)"
    using ok by (rule read_scope_shows)
  moreover have "get (JObj (pick scopeFields ?v @ [(''invalidationDependencies'', JArr [])])) ''invalidationDependencies''
      = JArr (map dependency_value [])"
    unfolding get_pick by (simp add: scopeFields_def)
  ultimately have auto: "createExecutionCapsuleDependencyVector h
      (JObj (pick scopeFields ?v @ [(''invalidationDependencies'', JArr [])]))
    = Inr (sort_by (compareDependencies h) ?autos)"
    using vector_again [of _ "scope_of ?d" "[]" h] automatic_distinct by simp
  have additional: "filter (\<lambda>x. dependencyKey x \<notin> dependencyKey ` set ?autos) ?deps = ?ys"
    using additional_of_vector [OF dist] deps by simp
  have "createExecutionCapsule h (JObj (pick canonicalFields ?v
      @ [(''invalidationDependencies'', JArr (map dependency_value ?ys))])) = Inr c"
    by (rule create_again [OF sealed shows_pick(1) [OF capsule_value_fields(1)]])
      (simp_all only: get_pick, simp_all add: canonicalFields_def scopeFields_def capsule_value_fields)
  with build auto additional len hex show ?thesis
    by (simp add: assertExecutionCapsuleIntegrity_def capsule_value_fields Let_def del: length_filter_map)
qed

section \<open>What the checks guarantee\<close>

lemma assert_Inr:
  assumes "assertExecutionCapsuleIntegrity h v = Inr c"
  shows "\<exists>vs hash m arg. get v ''invalidationDependencies'' = JArr vs \<and> get v ''capsuleHash'' = JStr hash
    \<and> is_object v \<and> get v ''schemaVersion'' = JNum 1
    \<and> get v ''executionAllowed'' = JBool False \<and> get v ''secretsIncluded'' = JBool False
    \<and> is_hex64 hash \<and> buildDependencyMap h vs ''capsuleDependencies''
          (MAX_CAPSULE_DEPENDENCIES + length DependencyDomains) = Inr m
    \<and> createExecutionCapsule h (JObj (pick canonicalFields v @ arg)) = Inr c \<and> ca_capsuleHash c = hash"
proof (cases "get v ''invalidationDependencies''")
  case (JArr vs)
  show ?thesis
  proof (cases "get v ''capsuleHash''")
    case (JStr hash)
    with JArr assms show ?thesis
      by (auto simp: assertExecutionCapsuleIntegrity_def Let_def split: if_splits)
  qed (use assms JArr in \<open>auto simp: assertExecutionCapsuleIntegrity_def Let_def\<close>)
qed (use assms in \<open>auto simp: assertExecutionCapsuleIntegrity_def Let_def\<close>)

text \<open>
  C14. A capsule that was created passes its own integrity check, which returns it unchanged:
  storing the capsule object and reading it back loses nothing. The digest is assumed to
  be 64 hexadecimal digits, and the resource type and reference together must be short
  enough for the composed reference of the resource dependency.
\<close>

theorem capsule_roundtrip:
  assumes "createExecutionCapsule h input = Inr c"
    and "\<And>s. is_hex64 (sha256_hex h s)"
    and "length (ds_resourceType (ca_descriptor c)) + length (ds_resourceRef (ca_descriptor c)) < MAX_FIELD_LENGTH"
  shows "assertExecutionCapsuleIntegrity h (capsule_value c) = Inr c"
proof -
  obtain ys where ys: "capsule_sealed h c ys"
    using create_sealed [OF assms(1)] by blast
  have "is_hex64 y" if "createExecutionCapsuleHash h x = Inr y" for x y
    using that assms(2) by (auto simp: createExecutionCapsuleHash_def Let_def split: if_splits)
  then have "is_hex64 (ca_capsuleHash c)"
    using ys unfolding capsule_sealed_def Let_def by blast
  with ys assms(3) show ?thesis
    by (intro sealed_assert) (simp_all add: short_resource_def scope_of_def)
qed

text \<open>An upper bound on the size of a canonical text that needs no sorting.\<close>

function size_bound :: "host \<Rightarrow> jsval \<Rightarrow> nat" where
  "size_bound h (JArr vs) = 2 + sum_list (map (\<lambda>v. size_bound h v + 1) vs)"
| "size_bound h (JObj kvs) =
     2 + sum_list (map (\<lambda>kv. 6 * length (fst kv) + size_bound h (snd kv) + 4) kvs)"
| "size_bound h (JStr s) = 6 * length s + 2"
| "size_bound h (JNum r) = utf8_length (rat_string h r)"
| "size_bound h (JDate t) = 9" | "size_bound h JUndef = 9" | "size_bound h (JFun f) = 9"
| "size_bound h JNull = 9" | "size_bound h (JBool b) = 9" | "size_bound h JNaN = 9"
| "size_bound h (JInf p) = 9"
  by pat_completeness auto
termination
  by (relation "measure (\<lambda>(h, v). size v)")
    (auto intro!: size_list_estimation le_imp_less_Suc trans_le_add2 size_list_estimation'
      simp: less_Suc_eq_le size_list_estimation' prod.size_gen_o_map)

lemma utf8_length_append [simp]: "utf8_length (s @ t) = utf8_length s + utf8_length t"
  by (simp add: utf8_length_def)

lemma utf8_length_le: "utf8_length s \<le> 2 * length s"
  using length_filter_le [of "\<lambda>c. 128 \<le> code c" s] by (simp add: utf8_length_def)

lemma utf8_length_simps [simp]:
  "utf8_length [] = 0" "utf8_length (c # s) = (if 128 \<le> code c then 2 else 1) + utf8_length s"
  by (simp_all add: utf8_length_def)

lemma utf8_length_json_escape: "utf8_length (json_escape c) \<le> 6"
proof (cases "length (json_escape c) \<le> 3")
  case True
  then show ?thesis
    using utf8_length_le [of "json_escape c"] by simp
next
  case False
  then have n: "code c < 32" and e: "json_escape c = [CHR 0x5C, CHR ''u'', CHR ''0'', CHR ''0'', hex_digit (code c div 16), hex_digit (code c mod 16)]"
    by (auto simp: json_escape_def Let_def split: option.splits if_splits)
  have "code (hex_digit k) < 128" if "k < 16" for k
    using that by (auto simp: hex_digit_def)
  moreover have "code c div 16 < 16"
    using n by simp
  ultimately have "\<not> 128 \<le> code (hex_digit (code c div 16))" "\<not> 128 \<le> code (hex_digit (code c mod 16))"
    by (simp_all add: not_le)
  then show ?thesis
    by (simp add: e)
qed

lemma utf8_length_json_quote: "utf8_length (json_quote s) \<le> 6 * length s + 2"
proof -
  have "utf8_length (concat (map json_escape s)) \<le> 6 * length s"
    by (induction s) (auto intro: add_mono utf8_length_json_escape)
  then show ?thesis
    by (simp add: json_quote_def)
qed

lemma utf8_length_join: "utf8_length (join '','' ss) \<le> sum_list (map (\<lambda>s. utf8_length s + 1) ss)"
proof (induction "'',''" ss rule: join.induct)
  case (3 s s' ss)
  then show ?case
    by simp
qed simp_all

lemma sum_list_sort: "sum_list (map f (sort_by cmp xs)) = sum_list (map (f :: 'a \<Rightarrow> nat) xs)"
  by (metis mset_map mset_sort sum_mset_sum_list)

lemma canonical_size: "utf8_length (undefined_text (canonicalize h v)) \<le> size_bound h v"
proof (induction v rule: size_bound.induct)
  case (1 h vs)
  let ?t = "\<lambda>v. case canonicalize h v of None \<Rightarrow> [] | Some s \<Rightarrow> s"
  have "utf8_length (?t v) \<le> utf8_length (undefined_text (canonicalize h v))" for v
    by (simp add: undefined_text_def utf8_length_def split: option.split)
  then have "sum_list (map (\<lambda>v. utf8_length (?t v) + 1) vs) \<le> sum_list (map (\<lambda>v. size_bound h v + 1) vs)"
    using 1 by (intro sum_list_mono) (meson add_right_mono order_trans)
  with utf8_length_join [of "map ?t vs"] show ?case
    by (simp add: undefined_text_def o_def)
next
  case (2 h kvs)
  let ?t = "\<lambda>kv. json_quote (fst kv) @ '':'' @ (case canonicalize h (snd kv) of None \<Rightarrow> ''undefined'' | Some s \<Rightarrow> s)"
  let ?s = "sort_by (key fst default) (map (\<lambda>kv. (fst kv, ?t kv)) kvs)"
  have "utf8_length (?t kv) + 1 \<le> 6 * length (fst kv) + size_bound h (snd kv) + 4" if "kv \<in> set kvs" for kv
    using utf8_length_json_quote [of "fst kv"] 2 [OF that]
    by (simp add: undefined_text_def)
  then have "sum_list (map (\<lambda>kv. utf8_length (?t kv) + 1) kvs)
      \<le> sum_list (map (\<lambda>kv. 6 * length (fst kv) + size_bound h (snd kv) + 4) kvs)"
    by (intro sum_list_mono)
  moreover have "sum_list (map (\<lambda>s. utf8_length s + 1) (map snd ?s)) = sum_list (map (\<lambda>kv. utf8_length (?t kv) + 1) kvs)"
    by (simp add: o_def sum_list_sort)
  ultimately show ?case
    using utf8_length_join [of "map snd ?s"]
    by (simp add: undefined_text_def o_def)
next
  case (3 h s)
  show ?case
    using utf8_length_json_quote [of s] by (simp add: undefined_text_def)
qed (simp_all add: undefined_text_def)

lemma hash_of_small:
  "size_bound h v \<le> MAX_CANONICAL_BYTES \<Longrightarrow> createExecutionCapsuleHash h v
     = Inr (sha256_hex h (''execution-capsule-v1:'' @ undefined_text (canonicalize h v)))"
  using canonical_size [of h v] by (simp add: createExecutionCapsuleHash_def Let_def)

definition demo_descriptor :: "string \<Rightarrow> string \<Rightarrow> descriptor" where
  "demo_descriptor rtype rref = \<lparr>ds_contextHash = ''ch'', ds_contextRevision = ''r1'', ds_principalType = ''admin'',
     ds_principalRef = ''u1'', ds_effectiveSubjectRef = ''u2'', ds_tenantRef = ''t1'', ds_workspaceRef = ''w1'',
     ds_brandRef = None, ds_resourceType = rtype, ds_resourceRef = rref, ds_connectionRef = ''c1'',
     ds_authorityPathRef = ''ap'', ds_capabilityKey = ''pub'', ds_authorityRevision = ''ar'',
     ds_capabilityRevision = ''cr'', ds_registryRevision = ''rr'', ds_credentialReadinessRevision = ''cv'',
     ds_issuedAt = iso_string 1000, ds_expiresAt = iso_string 9000\<rparr>"

definition demo_capsule :: "string \<Rightarrow> string \<Rightarrow> capsule" where
  "demo_capsule rtype rref = \<lparr>ca_descriptor = demo_descriptor rtype rref,
     ca_capsuleRef = ''ctxc-'' @ replicate 32 (CHR ''0''), ca_capsuleHash = replicate 64 (CHR ''0''),
     ca_invalidationDependencies = sort_by (compareDependencies plain_host)
       (automaticDependencies (scope_of (demo_descriptor rtype rref)))\<rparr>"

definition demo_fits :: "string \<Rightarrow> string \<Rightarrow> bool" where
  "demo_fits rtype rref = (descriptor_ok (demo_descriptor rtype rref)
     \<and> size_bound plain_host (JObj (descriptor_fields (demo_descriptor rtype rref)
         @ [(''invalidationDependencies'', JArr (map dependency_value
            (ca_invalidationDependencies (demo_capsule rtype rref))))])) \<le> MAX_CANONICAL_BYTES)"

lemma plain_hex: "is_hex64 (sha256_hex plain_host s)"
proof -
  have "is_hex64 (replicate 64 (CHR ''0''))"
    by code_simp
  then show ?thesis
    by (simp add: plain_host_def)
qed

lemma demo_sealed:
  assumes "demo_fits rtype rref"
  shows "capsule_sealed plain_host (demo_capsule rtype rref) []"
proof -
  let ?c = "demo_capsule rtype rref"
  have "\<exists>i e. time_ok i \<and> time_ok e \<and> i < e \<and> ds_issuedAt (ca_descriptor ?c) = iso_string i
      \<and> ds_expiresAt (ca_descriptor ?c) = iso_string e"
    by (intro exI [of _ 1000] exI [of _ 9000]) (simp add: demo_capsule_def demo_descriptor_def time_ok_def)
  moreover have "sha256_hex plain_host x = replicate 64 (CHR ''0'')" for x
    by (simp add: plain_host_def)
  ultimately show ?thesis
    using assms hash_of_small [of plain_host] automatic_distinct
    unfolding demo_fits_def capsule_sealed_def Let_def
    by (simp add: demo_capsule_def)
qed

lemma demo_created:
  assumes "demo_fits rtype rref"
  shows "createExecutionCapsule plain_host (JObj (pick canonicalFields (capsule_value (demo_capsule rtype rref))
     @ [(''invalidationDependencies'', JArr [])])) = Inr (demo_capsule rtype rref)"
proof (rule create_again [OF demo_sealed [OF assms] shows_pick(1) [OF capsule_value_fields(1)]])
  show "get (JObj (pick canonicalFields (capsule_value (demo_capsule rtype rref)) @ [(''invalidationDependencies'', JArr [])]))
      ''invalidationDependencies'' = JArr (map dependency_value (sort_by (compareDependencies plain_host) []))"
    unfolding get_pick by (simp add: canonicalFields_def scopeFields_def)
  show "get (JObj (pick canonicalFields (capsule_value (demo_capsule rtype rref)) @ [(''invalidationDependencies'', JArr [])]))
      ''capsuleRef'' = JStr (ca_capsuleRef (demo_capsule rtype rref))"
    unfolding get_pick by (simp add: canonicalFields_def capsule_value_fields)
qed

lemma demo_short_fits: "demo_fits ''post'' ''p1''"
  by code_simp

lemma demo_long_fits: "demo_fits (replicate 300 (CHR ''a'')) (replicate 300 (CHR ''b''))"
  by code_simp

theorem capsule_roundtrip_witness:
  "assertExecutionCapsuleIntegrity plain_host (capsule_value (demo_capsule ''post'' ''p1''))
     = Inr (demo_capsule ''post'' ''p1'')"
  by (rule capsule_roundtrip [OF demo_created [OF demo_short_fits] plain_hex])
    (simp add: demo_capsule_def demo_descriptor_def MAX_FIELD_LENGTH_def)

text \<open>
  A stored capsule passes only if its composed resource reference is short: the reference
  is a dependency of its own, and is read back under the limit for fields.
\<close>

lemma asserted_short:
  assumes sealed: "capsule_sealed h c ys" and accepted: "assertExecutionCapsuleIntegrity h (capsule_value c) = Inr c'"
  shows "short_resource (scope_of (ca_descriptor c))"
proof -
  let ?d = "ca_descriptor c" and ?deps = "ca_invalidationDependencies c"
  let ?r = "ds_resourceType ?d @ CHR '':'' # ds_resourceRef ?d"
  have fields: "field_ok (ds_resourceType ?d)" "field_ok (ds_resourceRef ?d)"
    using sealed by (simp_all add: capsule_sealed_def Let_def descriptor_ok_def scope_ok_def scope_of_def)
  have "static_dependency ''resource'' ?r (ds_contextRevision ?d) \<in> set (automaticDependencies (scope_of ?d))"
    by (simp add: automaticDependencies_def identityDependencies_def scope_of_def)
  then have "static_dependency ''resource'' ?r (ds_contextRevision ?d) \<in> set ?deps"
    using sealed by (simp add: capsule_sealed_def Let_def)
  then obtain j where j: "j < length ?deps" "?deps ! j = static_dependency ''resource'' ?r (ds_contextRevision ?d)"
    by (auto simp: in_set_conv_nth)
  obtain m where "buildDependencyMap h (map dependency_value ?deps) ''capsuleDependencies''
      (MAX_CAPSULE_DEPENDENCIES + length DependencyDomains) = Inr m"
    using assert_Inr [OF accepted] by (auto simp: capsule_value_fields)
  then obtain ds where "normalizeDependency h (dependency_value (?deps ! j)) j ''capsuleDependencies'' = Inr (ds ! j)"
    using buildDependencyLoop_Inr [of h "''capsuleDependencies''" 0 "[]" "map dependency_value ?deps" m] j
    by (auto simp: buildDependencyMap_def split: if_splits)
  then have "length (trim ?r) \<le> MAX_FIELD_LENGTH"
    unfolding j(2) by (auto simp: normalizeDependency_def dependency_value_def static_dependency_def
        capsuleString_Inr field_ok_def Let_def)
  moreover have "trim ?r = ?r"
    using fields by (intro trim_join) (simp_all add: field_ok_def)
  ultimately show ?thesis
    by (simp add: short_resource_def scope_of_def)
qed

text \<open>
  C15. Where the resource type and reference are together too long for the composed reference,
  a capsule is created without complaint but can never pass its own integrity check: the
  composed reference is not subject to the length limit when it is built, and is when it
  is read back.
\<close>

theorem capsule_overlong_rejected:
  assumes "createExecutionCapsule h input = Inr c"
    and "MAX_FIELD_LENGTH \<le> length (ds_resourceType (ca_descriptor c)) + length (ds_resourceRef (ca_descriptor c))"
  shows "\<exists>e. assertExecutionCapsuleIntegrity h (capsule_value c) = Inl e"
proof (cases "assertExecutionCapsuleIntegrity h (capsule_value c)")
  case (Inr c')
  then have "short_resource (scope_of (ca_descriptor c))"
    using create_sealed [OF assms(1)] asserted_short by blast
  then show ?thesis
    using assms(2) by (simp add: short_resource_def scope_of_def)
qed simp

theorem capsule_overlong_rejected_witness:
  "\<exists>e. assertExecutionCapsuleIntegrity plain_host
     (capsule_value (demo_capsule (replicate 300 (CHR ''a'')) (replicate 300 (CHR ''b'')))) = Inl e"
  by (rule capsule_overlong_rejected [OF demo_created [OF demo_long_fits]])
    (simp add: demo_capsule_def demo_descriptor_def MAX_FIELD_LENGTH_def)


lemma demo_accepted:
  "assertExecutionCapsuleIntegrity plain_host (capsule_value (demo_capsule ''post'' ''p1''))
     = Inr (demo_capsule ''post'' ''p1'')"
proof (rule sealed_assert [OF demo_sealed [OF demo_short_fits]])
  show "is_hex64 (ca_capsuleHash (demo_capsule ''post'' ''p1''))"
    using plain_hex by (simp add: demo_capsule_def plain_host_def)
qed (simp add: demo_capsule_def short_resource_def scope_of_def demo_descriptor_def MAX_FIELD_LENGTH_def)


section \<open>Comparing dependencies\<close>

lemma buildDependencyLoop_normalize:
  "buildDependencyLoop h f i (keyed xs) vs = Inr m \<Longrightarrow>
     \<exists>ds. normalizeDependencies h f i vs = Inr ds \<and> m = keyed (xs @ ds)"
proof (induction vs arbitrary: xs i)
  case (Cons v vs)
  then obtain d where d: "normalizeDependency h v i f = Inr d" "dependencyKey d \<notin> dependencyKey ` set xs"
      "buildDependencyLoop h f (Suc i) (keyed (xs @ [d])) vs = Inr m"
    by (auto simp: Let_def map_set_keyed split: if_splits)
  from Cons.IH [OF d(3)] d(1) show ?case
    by auto
qed auto

lemma buildDependencyMap_Inr:
  assumes "buildDependencyMap h vs f n = Inr m"
  shows "\<exists>ds. normalizeDependencies h f 0 vs = Inr ds \<and> m = keyed ds \<and> distinct_keys ds
    \<and> (\<forall>d \<in> set ds. dependency_ok d)"
proof -
  have loop: "buildDependencyLoop h f 0 (keyed []) vs = Inr m"
    using assms by (auto simp: buildDependencyMap_def split: if_splits)
  obtain ds where ds: "normalizeDependencies h f 0 vs = Inr ds" "m = keyed ds"
    using buildDependencyLoop_normalize [OF loop] by auto
  moreover have "distinct_keys ds"
  proof -
    obtain ds' where "m = keyed ds'" "distinct_keys ds'"
      using buildDependencyLoop_Inr [OF loop] by auto
    with ds show ?thesis
      by (metis keyed_simps(3))
  qed
  ultimately show ?thesis
    using normalizeDependencies_ok by blast
qed

lemma map_of_keyed_iff: "distinct_keys ds \<Longrightarrow> map_of (keyed ds) k = Some d \<longleftrightarrow> d \<in> set ds \<and> dependencyKey d = k"
  by (auto simp: keyed_def map_of_eq_Some_iff o_def)

lemma changedDependency_None:
  assumes "distinct_keys cs" "dependency_ok d" "\<forall>e \<in> set cs. dependency_ok e"
  shows "changedDependency (keyed cs) (dependencyKey d, d) = None \<longleftrightarrow> d \<in> set cs"
proof
  assume "d \<in> set cs"
  then have "map_of (keyed cs) (dependencyKey d) = Some d"
    using assms(1) by (simp add: map_of_keyed_iff)
  then show "changedDependency (keyed cs) (dependencyKey d, d) = None"
    by (simp add: changedDependency_def Let_def)
next
  assume "changedDependency (keyed cs) (dependencyKey d, d) = None"
  then obtain e where e: "map_of (keyed cs) (dependencyKey d) = Some e" "d_revision e = d_revision d"
      "d_refreshClass e = d_refreshClass d"
    by (auto simp: changedDependency_def Let_def split: option.splits if_splits)
  then have "e \<in> set cs" "dependencyKey e = dependencyKey d"
    using assms(1) by (simp_all add: map_of_keyed_iff)
  moreover from this have "d_domain e = d_domain d \<and> d_ref e = d_ref d"
    using assms(2,3) by (intro dependencyKey_inject) (simp_all add: dependency_ok_def)
  ultimately show "d \<in> set cs"
    using e by (metis dependency.equality old.unit.exhaust)
qed

lemma changedDependency_same: "changedDependency m (k, d) = Some c \<Longrightarrow> ch_dependency c = d"
  by (auto simp: changedDependency_def Let_def split: option.splits if_splits)

lemma changed_list:
  assumes "distinct_keys cs" "\<forall>e \<in> set es. dependency_ok e" "\<forall>e \<in> set cs. dependency_ok e"
  shows "map ch_dependency (List.map_filter (changedDependency (keyed cs)) (keyed es)) = filter (\<lambda>d. d \<notin> set cs) es"
  using assms(2)
proof (induction es)
  case (Cons e es)
  then show ?case
    using changedDependency_None [OF assms(1) _ assms(3), of e] changedDependency_same [of "keyed cs" "dependencyKey e" e]
    by (cases "changedDependency (keyed cs) (dependencyKey e, e)") (auto simp: List.map_filter_def keyed_def)
qed (simp add: List.map_filter_def)

lemma comparison_exact:
  assumes "compareExecutionCapsuleDependencies h (JArr vs) (JArr ws) = Inr r"
    and "normalizeDependencies h ''capsuleDependencies'' 0 vs = Inr es"
    and "normalizeDependencies h ''currentDependencies'' 0 ws = Inr cs"
  shows "cmp_valid r = (set es \<subseteq> set cs)
    \<and> cmp_staticInvalidated r = (\<exists>d \<in> set es - set cs. d_refreshClass d = ''static'')
    \<and> cmp_dynamicRefreshRequired r = (\<exists>d \<in> set es - set cs. d_refreshClass d = ''dynamic'')
    \<and> set (map ch_dependency (cmp_changed r)) = set es - set cs"
proof -
  obtain expected current where m:
      "buildDependencyMap h vs ''capsuleDependencies'' (MAX_CAPSULE_DEPENDENCIES + length DependencyDomains) = Inr expected"
      "buildDependencyMap h ws ''currentDependencies'' MAX_CURRENT_DEPENDENCIES = Inr current"
    using assms(1) by (auto simp: compareExecutionCapsuleDependencies_def)
  have es: "expected = keyed es" "\<forall>e \<in> set es. dependency_ok e"
    using buildDependencyMap_Inr [OF m(1)] assms(2) by auto
  have cs: "current = keyed cs" "distinct_keys cs" "\<forall>e \<in> set cs. dependency_ok e"
    using buildDependencyMap_Inr [OF m(2)] assms(3) by auto
  let ?ch = "List.map_filter (changedDependency current) expected"
  have ch: "map ch_dependency ?ch = filter (\<lambda>d. d \<notin> set cs) es"
    using changed_list [OF cs(2) es(2) cs(3)] es(1) cs(1) by simp
  then have "set (map ch_dependency ?ch) = set (filter (\<lambda>d. d \<notin> set cs) es)"
    by (rule arg_cong)
  then have img: "ch_dependency ` set ?ch = set es - set cs"
    by auto
  have "?ch = [] \<longleftrightarrow> set es \<subseteq> set cs"
    using ch by (metis (mono_tags, lifting) filter_False filter_empty_conv list.map_disc_iff subsetI subsetD)
  moreover have "list_ex (\<lambda>c. d_refreshClass (ch_dependency c) = k) ?ch \<longleftrightarrow> (\<exists>d \<in> set es - set cs. d_refreshClass d = k)" for k
    unfolding img [symmetric] by (auto simp: list_ex_iff)
  moreover have "r = \<lparr>cmp_valid = (?ch = []),
            cmp_changed = sort_by (lex_cmp (key (\<lambda>c. d_domain (ch_dependency c)) (collate h))
              (key (\<lambda>c. d_ref (ch_dependency c)) (collate h))) ?ch,
            cmp_staticInvalidated = list_ex (\<lambda>c. d_refreshClass (ch_dependency c) = ''static'') ?ch,
            cmp_dynamicRefreshRequired = list_ex (\<lambda>c. d_refreshClass (ch_dependency c) = ''dynamic'') ?ch,
            cmp_secretsIncluded = False\<rparr>"
    using assms(1) m by (simp add: compareExecutionCapsuleDependencies_def Let_def)
  ultimately show ?thesis
    using img by simp
qed

text \<open>
  C17. A capsule's dependencies are current exactly when each of them occurs, with the same
  revision and refresh class, among the current ones; a static or dynamic refresh is
  demanded exactly when a static or dynamic one is missing or changed.
\<close>

theorem dependencies_valid_iff:
  assumes "compareExecutionCapsuleDependencies h (JArr vs) (JArr ws) = Inr r"
    and "normalizeDependencies h ''capsuleDependencies'' 0 vs = Inr es"
    and "normalizeDependencies h ''currentDependencies'' 0 ws = Inr cs"
  shows "cmp_valid r = (set es \<subseteq> set cs)
    \<and> cmp_staticInvalidated r = (\<exists>d \<in> set es - set cs. d_refreshClass d = ''static'')
    \<and> cmp_dynamicRefreshRequired r = (\<exists>d \<in> set es - set cs. d_refreshClass d = ''dynamic'')
    \<and> set (map ch_dependency (cmp_changed r)) = set es - set cs"
  using comparison_exact [OF assms] .

definition demo_dependency :: "string \<Rightarrow> jsval" where
  "demo_dependency revision = JObj [(''domain'', JStr ''approval''), (''ref'', JStr ''a1''), (''revision'', JStr revision)]"

definition demo_comparison :: dependency_comparison where
  "demo_comparison = projr (compareExecutionCapsuleDependencies plain_host
     (JArr [demo_dependency ''1'']) (JArr [demo_dependency ''2'']))"

lemma demo_comparison_eval:
  "compareExecutionCapsuleDependencies plain_host (JArr [demo_dependency ''1'']) (JArr [demo_dependency ''2''])
     = Inr demo_comparison"
  by code_simp

lemma field_ok_demo: "field_ok ''approval''" "field_ok ''a1''" "field_ok ''1''" "field_ok ''2''"
  by code_simp+

lemma demo_dependency_eval:
  "normalizeDependencies plain_host f 0 [demo_dependency ''1''] = Inr [static_dependency ''approval'' ''a1'' ''1'']"
  "normalizeDependencies plain_host f 0 [demo_dependency ''2''] = Inr [static_dependency ''approval'' ''a1'' ''2'']"
  by (simp_all add: demo_dependency_def normalizeDependency_def is_object_def js_or_def own_get_def
      object_prototype_def REFRESH_CLASSES_def string_value_def static_dependency_def DependencyDomains_def
      field_ok_demo)

theorem dependencies_valid_iff_witness:
  "\<not> cmp_valid demo_comparison \<and> cmp_staticInvalidated demo_comparison"
  using dependencies_valid_iff [OF demo_comparison_eval demo_dependency_eval(1) demo_dependency_eval(2)]
  by (simp add: static_dependency_def)

end
