(* ===== verification/Kernel_Delegation.thy ===== *)
theory Kernel_Delegation
  imports Kernel_Ident
begin

text \<open>
  \<^verbatim>\<open>contextKernel/domain/supportDelegationPolicy.js\<close>: evidence that a support actor or
  a delegated agent may act for a subject, and whether it covers one operation. Each
  failed condition adds a reason code; the delegation is allowed when there is none.
\<close>

section \<open>Evidence\<close>

definition SUPPORT_DELEGATION_MODES :: "string list" where
  "SUPPORT_DELEGATION_MODES = [''support_impersonation'', ''support_delegated_agent'']"

definition SUPPORT_DELEGATION_STATUSES :: "string list" where
  "SUPPORT_DELEGATION_STATUSES = [''active'', ''revoked'']"

definition REASON_CODE_PATTERN :: "string \<Rightarrow> bool" where
  "REASON_CODE_PATTERN s = bounded_pattern is_upper (\<lambda>c. is_upper c \<or> is_digit c \<or> c = CHR ''_'') 2 190 s"

definition optionalString :: "host \<Rightarrow> jsval \<Rightarrow> string \<Rightarrow> string option res" where
  "optionalString h value field = optional_with (\<lambda>v. requireString h v field 191) value"

text \<open>Here a timestamp is never optional, and null is the epoch.\<close>

definition normalizeTimestamp :: "host \<Rightarrow> jsval \<Rightarrow> string \<Rightarrow> int res" where
  "normalizeTimestamp h value field = (case to_time h value of
     None \<Rightarrow> Inl (invalidTimestamp field) | Some t \<Rightarrow> Inr t)"

definition normalizeOperations :: "host \<Rightarrow> jsval \<Rightarrow> string list res" where
  "normalizeOperations h values = (case values of
     JArr vs \<Rightarrow>
       if vs = [] then Inl (TypeError ''allowedOperations must contain at least one operation.'')
       else res_bind (res_map (\<lambda>v. requireString h v ''allowedOperations'' 191) vs)
         (\<lambda>ss. Inr (sort_strings (uniq ss)))
   | _ \<Rightarrow> Inl (TypeError ''allowedOperations must contain at least one operation.''))"

record delegation_evidence =
  de_delegationRef :: string
  de_mode :: string
  de_actorPrincipalRef :: string
  de_subjectRef :: string
  de_tenantRef :: string
  de_workspaceRef :: "string option"
  de_delegatedByPrincipalRef :: "string option"
  de_reasonCode :: string
  de_auditRef :: string
  de_allowedOperations :: "string list"
  de_validFrom :: string
  de_expiresAt :: string
  de_status :: string
  de_revokedAt :: "string option"

definition createSupportDelegationEvidence :: "host \<Rightarrow> jsval \<Rightarrow> delegation_evidence res" where
  "createSupportDelegationEvidence h arg =
     res_bind (requireString h (get arg ''mode'') ''mode'' 64) (\<lambda>rawMode.
     let mode = to_lower rawMode in
     res_bind (res_check (mode \<in> set SUPPORT_DELEGATION_MODES)
       (TypeError (''Unsupported support delegation mode: '' @ mode))) (\<lambda>_.
     res_bind (requireString h (get arg ''status'') ''status'' 32) (\<lambda>rawStatus.
     let status = to_lower rawStatus in
     res_bind (res_check (status \<in> set SUPPORT_DELEGATION_STATUSES)
       (TypeError (''Unsupported support delegation status: '' @ status))) (\<lambda>_.
     res_bind (requireString h (get arg ''reasonCode'') ''reasonCode'' 191) (\<lambda>rawReason.
     let reasonCode = to_upper rawReason in
     res_bind (res_check (REASON_CODE_PATTERN reasonCode)
       (TypeError ''reasonCode must be a stable uppercase reason code.'')) (\<lambda>_.
     res_bind (normalizeTimestamp h (get arg ''validFrom'') ''validFrom'') (\<lambda>validFrom.
     res_bind (normalizeTimestamp h (get arg ''expiresAt'') ''expiresAt'') (\<lambda>expiresAt.
     res_bind (res_check (validFrom < expiresAt) (TypeError ''expiresAt must be later than validFrom.'')) (\<lambda>_.
     res_bind (if nullish (get arg ''revokedAt'') then Inr None
       else res_bind (normalizeTimestamp h (get arg ''revokedAt'') ''revokedAt'') (\<lambda>t. Inr (Some t))) (\<lambda>revokedAt.
     res_bind (res_check (\<not> (status = ''revoked'' \<and> revokedAt = None))
       (TypeError ''revokedAt is required when status is revoked.'')) (\<lambda>_.
     res_bind (res_check (\<not> (status = ''active'' \<and> revokedAt \<noteq> None))
       (TypeError ''Active delegation evidence cannot include revokedAt.'')) (\<lambda>_.
     res_bind (optionalString h (get arg ''delegatedByPrincipalRef'') ''delegatedByPrincipalRef'') (\<lambda>delegatedBy.
     res_bind (res_check (\<not> (mode = ''support_delegated_agent'' \<and> delegatedBy = None))
       (TypeError ''delegatedByPrincipalRef is required for support_delegated_agent mode.'')) (\<lambda>_.
     res_bind (requireString h (get arg ''delegationRef'') ''delegationRef'' 191) (\<lambda>delegationRef.
     res_bind (requireString h (get arg ''actorPrincipalRef'') ''actorPrincipalRef'' 191) (\<lambda>actor.
     res_bind (requireString h (get arg ''subjectRef'') ''subjectRef'' 191) (\<lambda>subj.
     res_bind (requireString h (get arg ''tenantRef'') ''tenantRef'' 191) (\<lambda>tenant.
     res_bind (optionalString h (get arg ''workspaceRef'') ''workspaceRef'') (\<lambda>workspace.
     res_bind (requireString h (get arg ''auditRef'') ''auditRef'' 191) (\<lambda>audit.
     res_bind (normalizeOperations h (get arg ''allowedOperations'')) (\<lambda>operations.
     Inr \<lparr>de_delegationRef = delegationRef, de_mode = mode, de_actorPrincipalRef = actor,
       de_subjectRef = subj, de_tenantRef = tenant, de_workspaceRef = workspace,
       de_delegatedByPrincipalRef = delegatedBy, de_reasonCode = reasonCode, de_auditRef = audit,
       de_allowedOperations = operations, de_validFrom = iso_string validFrom,
       de_expiresAt = iso_string expiresAt, de_status = status,
       de_revokedAt = map_option iso_string revokedAt\<rparr>)))))))))))))))))))))"

section \<open>Evaluation\<close>

text \<open>\<^verbatim>\<open>!v || typeof v !== "object"\<close> is false.\<close>

definition is_object_or_array :: "jsval \<Rightarrow> bool" where
  "is_object_or_array v = (is_object v \<or> (case v of JArr _ \<Rightarrow> True | _ \<Rightarrow> False))"

definition tenantIsAuthorized :: "jsval \<Rightarrow> string \<Rightarrow> bool" where
  "tenantIsAuthorized actor tenantRef = (case get actor ''authorizedTenantRefs'' of
     JArr vs \<Rightarrow> JStr ''*'' \<in> set vs \<or> JStr tenantRef \<in> set vs | _ \<Rightarrow> False)"

definition actorClass :: "jsval \<Rightarrow> jsval" where
  "actorClass actor = get (get actor ''attributes'') ''actorClass''"

text \<open>One entry per \<^verbatim>\<open>reasonCodes.push\<close>: whether it happens, and the code.\<close>

definition reason_if :: "bool \<Rightarrow> string \<Rightarrow> string list" where
  "reason_if b reasonCode = (if b then [reasonCode] else [])"

definition parsed_time :: "host \<Rightarrow> string \<Rightarrow> (int \<Rightarrow> bool) \<Rightarrow> bool" where
  "parsed_time h s P = (case date_parse h s of None \<Rightarrow> False | Some t \<Rightarrow> P t)"

definition evidenceReasons :: "host \<Rightarrow> jsval \<Rightarrow> jsval \<Rightarrow> delegation_evidence \<Rightarrow> string \<Rightarrow> string
    \<Rightarrow> string option \<Rightarrow> int \<Rightarrow> string list" where
  "evidenceReasons h actor effectiveSubject e operation tenantRef workspaceRef evaluatedAt =
     (if de_status e = ''revoked'' \<or> de_revokedAt e \<noteq> None then [''SUPPORT_DELEGATION_REVOKED'']
      else reason_if (de_status e \<noteq> ''active'') ''SUPPORT_DELEGATION_NOT_ACTIVE'')
     @ reason_if (parsed_time h (de_validFrom e) (\<lambda>t. evaluatedAt < t)) ''SUPPORT_DELEGATION_NOT_YET_ACTIVE''
     @ reason_if (parsed_time h (de_expiresAt e) (\<lambda>t. t \<le> evaluatedAt)) ''SUPPORT_DELEGATION_EXPIRED''
     @ reason_if (operation \<notin> set (de_allowedOperations e)) ''SUPPORT_DELEGATION_OPERATION_NOT_ALLOWED''
     @ reason_if (get actor ''principalRef'' \<noteq> JStr (de_actorPrincipalRef e)) ''SUPPORT_DELEGATION_ACTOR_MISMATCH''
     @ reason_if (get effectiveSubject ''subjectRef'' \<noteq> JStr (de_subjectRef e)) ''SUPPORT_DELEGATION_SUBJECT_MISMATCH''
     @ reason_if (tenantRef \<noteq> de_tenantRef e \<or> get effectiveSubject ''tenantRef'' \<noteq> JStr (de_tenantRef e))
         ''SUPPORT_DELEGATION_TENANT_MISMATCH''
     @ reason_if (case de_workspaceRef e of None \<Rightarrow> False
         | Some w \<Rightarrow> workspaceRef \<noteq> Some w \<or> get effectiveSubject ''workspaceRef'' \<noteq> JStr w)
         ''SUPPORT_DELEGATION_WORKSPACE_MISMATCH''
     @ reason_if (\<not> tenantIsAuthorized actor (de_tenantRef e)) ''SUPPORT_DELEGATION_TENANT_NOT_AUTHORIZED''"

definition modeReasons :: "jsval \<Rightarrow> jsval \<Rightarrow> delegation_evidence \<Rightarrow> string list" where
  "modeReasons actor effectiveSubject e =
     (if de_mode e = ''support_impersonation'' then
        reason_if (get actor ''principalType'' \<noteq> JStr ''service_principal''
            \<or> actorClass actor \<noteq> JStr ''support'') ''SUPPORT_IMPERSONATION_ACTOR_INVALID''
        @ reason_if (\<not> strict_eq (get effectiveSubject ''delegatedByPrincipalRef'') (get actor ''principalRef''))
            ''SUPPORT_IMPERSONATION_CHAIN_MISMATCH''
      else [])
     @ (if de_mode e = ''support_delegated_agent'' then
        reason_if (get actor ''principalType'' \<noteq> JStr ''delegated_agent''
            \<or> actorClass actor \<noteq> JStr ''agent'') ''SUPPORT_DELEGATED_AGENT_ACTOR_INVALID''
        @ reason_if (get (get actor ''attributes'') ''delegatedByPrincipalRef'' \<noteq> jopt (de_delegatedByPrincipalRef e)
            \<or> get effectiveSubject ''delegatedByPrincipalRef'' \<noteq> jopt (de_delegatedByPrincipalRef e))
            ''SUPPORT_DELEGATED_AGENT_CHAIN_MISMATCH''
      else [])"

record delegation_result =
  dl_allowed :: bool
  dl_status :: string
  dl_reasonCodes :: "string list"
  dl_delegationRef :: string
  dl_mode :: string
  dl_actor :: "jsval \<times> jsval"
  dl_effectiveSubject :: "jsval \<times> jsval \<times> jsval \<times> jsval \<times> jsval"
  dl_operationIntent :: string
  dl_tenantRef :: string
  dl_workspaceRef :: "string option"
  dl_reasonCode :: string
  dl_auditRef :: string
  dl_evaluatedAt :: string
  dl_auditRequired :: bool
  dl_runtimeAuthorityChanged :: bool
  dl_automaticWritePerformed :: bool
  dl_secretsIncluded :: bool

definition evaluateSupportDelegation :: "host \<Rightarrow> int \<Rightarrow> jsval \<Rightarrow> delegation_result res" where
  "evaluateSupportDelegation h clock arg = (let
     actor = get arg ''principal''; effectiveSubject = get arg ''effectiveSubject'' in
     res_bind (res_check (is_object_or_array actor) (TypeError ''principal must be an object.'')) (\<lambda>_.
     res_bind (res_check (is_object_or_array effectiveSubject) (TypeError ''effectiveSubject must be an object.'')) (\<lambda>_.
     res_bind (createSupportDelegationEvidence h (get arg ''evidence'')) (\<lambda>e.
     res_bind (requireString h (get arg ''operationIntent'') ''operationIntent'' 191) (\<lambda>operation.
     res_bind (requireString h (get arg ''tenantRef'') ''tenantRef'' 191) (\<lambda>tenantRef.
     res_bind (optionalString h (get arg ''workspaceRef'') ''workspaceRef'') (\<lambda>workspaceRef.
     res_bind (normalizeTimestamp h (default_arg (get arg ''now'') (JDate (Some clock))) ''now'') (\<lambda>evaluatedAt.
     let reasonCodes = uniq (evidenceReasons h actor effectiveSubject e operation tenantRef workspaceRef evaluatedAt
           @ modeReasons actor effectiveSubject e);
         allowed = (reasonCodes = []) in
     Inr \<lparr>dl_allowed = allowed, dl_status = (if allowed then ''allowed'' else ''blocked''),
       dl_reasonCodes = reasonCodes, dl_delegationRef = de_delegationRef e, dl_mode = de_mode e,
       dl_actor = (get actor ''principalType'', get actor ''principalRef''),
       dl_effectiveSubject = (get effectiveSubject ''subjectType'', get effectiveSubject ''subjectRef'',
         get effectiveSubject ''tenantRef'', get effectiveSubject ''workspaceRef'',
         get effectiveSubject ''delegatedByPrincipalRef''),
       dl_operationIntent = operation, dl_tenantRef = tenantRef, dl_workspaceRef = workspaceRef,
       dl_reasonCode = de_reasonCode e, dl_auditRef = de_auditRef e,
       dl_evaluatedAt = iso_string evaluatedAt, dl_auditRequired = True,
       dl_runtimeAuthorityChanged = False, dl_automaticWritePerformed = False, dl_secretsIncluded = False\<rparr>))))))))"

section \<open>Well-formed evidence\<close>

definition evidence_ok :: "delegation_evidence \<Rightarrow> bool" where
  "evidence_ok e =
     (de_mode e \<in> set SUPPORT_DELEGATION_MODES
      \<and> (de_status e = ''revoked'' \<and> de_revokedAt e \<noteq> None \<or> de_status e = ''active'' \<and> de_revokedAt e = None)
      \<and> (\<exists>f t. time_ok f \<and> time_ok t \<and> f < t \<and> de_validFrom e = iso_string f \<and> de_expiresAt e = iso_string t)
      \<and> (de_mode e = ''support_delegated_agent'' \<longrightarrow> de_delegatedByPrincipalRef e \<noteq> None)
      \<and> de_allowedOperations e \<noteq> [] \<and> distinct (de_allowedOperations e)
      \<and> REASON_CODE_PATTERN (de_reasonCode e) \<and> de_auditRef e \<noteq> [])"

lemma reason_if_Nil [simp]: "reason_if b r = [] \<longleftrightarrow> \<not> b"
  by (simp add: reason_if_def)

lemma normalizeTimestamp_ok: "Kernel_Delegation.normalizeTimestamp h v f = Inr t \<Longrightarrow> time_ok t"
  by (auto simp: Kernel_Delegation.normalizeTimestamp_def dest: to_time_ok split: option.splits)

lemma normalizeOperations_ok: "normalizeOperations h v = Inr ops \<Longrightarrow> ops \<noteq> [] \<and> distinct ops"
  by (auto simp: normalizeOperations_def dest: res_map_length split: jsval.splits if_splits)

lemma requireString_nonempty: "requireString h v f n = Inr s \<Longrightarrow> s \<noteq> []"
  by (auto simp: requireString_Inr)

lemma created_evidence_ok:
  assumes "createSupportDelegationEvidence h arg = Inr e"
  shows "evidence_ok e"
  using assms
  unfolding createSupportDelegationEvidence_def Let_def res_bind_Inr_iff res_check_iff sum.inject
  apply (elim exE conjE)
  apply hypsubst
  unfolding evidence_ok_def delegation_evidence.simps
  apply (intro conjI)
  subgoal by assumption
  subgoal by (auto simp: SUPPORT_DELEGATION_STATUSES_def)
  subgoal by (rule exI, rule exI, intro conjI, erule normalizeTimestamp_ok, erule normalizeTimestamp_ok, assumption, simp_all)
  subgoal by simp
  subgoal by (simp add: normalizeOperations_ok)
  subgoal by (simp add: normalizeOperations_ok)
  subgoal by assumption
  subgoal by (erule requireString_nonempty)
  done

section \<open>When a delegation covers an operation\<close>

definition in_window :: "delegation_evidence \<Rightarrow> int \<Rightarrow> bool" where
  "in_window e t = (\<exists>f u. time_ok f \<and> time_ok u \<and> de_validFrom e = iso_string f \<and> de_expiresAt e = iso_string u
     \<and> f \<le> t \<and> t < u)"

definition same_scope :: "delegation_evidence \<Rightarrow> jsval \<Rightarrow> jsval \<Rightarrow> string \<Rightarrow> string option \<Rightarrow> bool" where
  "same_scope e actor effectiveSubject tenantRef workspaceRef =
     (get actor ''principalRef'' = JStr (de_actorPrincipalRef e)
      \<and> get effectiveSubject ''subjectRef'' = JStr (de_subjectRef e)
      \<and> tenantRef = de_tenantRef e \<and> get effectiveSubject ''tenantRef'' = JStr tenantRef
      \<and> (\<forall>w. de_workspaceRef e = Some w \<longrightarrow> workspaceRef = Some w \<and> get effectiveSubject ''workspaceRef'' = JStr w)
      \<and> tenantIsAuthorized actor tenantRef)"

text \<open>Who may act: support staff named as the delegator, or the agent of the recorded delegator.\<close>

definition acting_party :: "delegation_evidence \<Rightarrow> jsval \<Rightarrow> jsval \<Rightarrow> bool" where
  "acting_party e actor effectiveSubject =
     (de_mode e = ''support_impersonation''
        \<and> get actor ''principalType'' = JStr ''service_principal'' \<and> actorClass actor = JStr ''support''
        \<and> get effectiveSubject ''delegatedByPrincipalRef'' = JStr (de_actorPrincipalRef e)
      \<or> de_mode e = ''support_delegated_agent''
        \<and> get actor ''principalType'' = JStr ''delegated_agent'' \<and> actorClass actor = JStr ''agent''
        \<and> (\<exists>d. de_delegatedByPrincipalRef e = Some d
              \<and> get (get actor ''attributes'') ''delegatedByPrincipalRef'' = JStr d
              \<and> get effectiveSubject ''delegatedByPrincipalRef'' = JStr d))"

definition delegation_covers where
  "delegation_covers e actor effectiveSubject operation tenantRef workspaceRef t =
     (de_status e = ''active'' \<and> in_window e t \<and> operation \<in> set (de_allowedOperations e)
      \<and> same_scope e actor effectiveSubject tenantRef workspaceRef \<and> acting_party e actor effectiveSubject)"

lemma window_reasons:
  assumes "evidence_ok e"
  shows "in_window e t \<longleftrightarrow> \<not> parsed_time h (de_validFrom e) (\<lambda>f. t < f)
    \<and> \<not> parsed_time h (de_expiresAt e) (\<lambda>u. u \<le> t)"
proof -
  obtain f u where "time_ok f" "time_ok u" "de_validFrom e = iso_string f" "de_expiresAt e = iso_string u"
    using assms by (auto simp: evidence_ok_def)
  then show ?thesis by (auto simp: in_window_def parsed_time_def not_less not_le dest: iso_string_inject)
qed

lemma evidenceReasons_Nil:
  assumes "evidence_ok e"
  shows "evidenceReasons h actor subj e operation tenantRef ws t = [] \<longleftrightarrow>
    de_status e = ''active'' \<and> in_window e t \<and> operation \<in> set (de_allowedOperations e)
    \<and> same_scope e actor subj tenantRef ws"
  using assms unfolding window_reasons [OF assms, of t h]
  by (auto simp: evidenceReasons_def same_scope_def evidence_ok_def split: option.splits)

lemma modeReasons_Nil:
  assumes "evidence_ok e" and "get actor ''principalRef'' = JStr (de_actorPrincipalRef e)"
  shows "modeReasons actor subj e = [] \<longleftrightarrow> acting_party e actor subj"
  using assms
  by (auto simp: modeReasons_def acting_party_def evidence_ok_def SUPPORT_DELEGATION_MODES_def)


definition demo_delegation :: jsval where
  "demo_delegation = JObj [(''delegationRef'', JStr ''d1''), (''mode'', JStr ''support_impersonation''),
     (''actorPrincipalRef'', JStr ''agent1''), (''subjectRef'', JStr ''user1''), (''tenantRef'', JStr ''t1''),
     (''reasonCode'', JStr ''TICKET_42''), (''auditRef'', JStr ''audit1''),
     (''allowedOperations'', JArr [JStr ''read'']), (''validFrom'', JDate (Some 0)),
     (''expiresAt'', JDate (Some 1000)), (''status'', JStr ''active'')]"

definition demo_delegated :: "string \<Rightarrow> jsval" where
  "demo_delegated operation = JObj [(''principal'', JObj [(''principalType'', JStr ''service_principal''),
       (''principalRef'', JStr ''agent1''), (''authorizedTenantRefs'', JArr [JStr ''t1'']),
       (''attributes'', JObj [(''actorClass'', JStr ''support'')])]),
     (''effectiveSubject'', JObj [(''subjectRef'', JStr ''user1''), (''tenantRef'', JStr ''t1''),
       (''delegatedByPrincipalRef'', JStr ''agent1'')]),
     (''evidence'', demo_delegation), (''operationIntent'', JStr operation), (''tenantRef'', JStr ''t1''),
     (''now'', JDate (Some 500))]"

lemma demo_delegated_allowed:
  "\<exists>r. evaluateSupportDelegation plain_host 0 (demo_delegated ''read'') = Inr r \<and> dl_allowed r"
proof -
  have "(case evaluateSupportDelegation plain_host 0 (demo_delegated ''read'') of
      Inl _ \<Rightarrow> False | Inr r \<Rightarrow> dl_allowed r)"
    by code_simp
  then show ?thesis by (auto split: sum.splits)
qed


end
