(* ===== verification/Kernel_ResourceGraph.thy ===== *)
theory Kernel_ResourceGraph
  imports Kernel_Ident
begin

text \<open>
  \<^verbatim>\<open>contextKernel/domain/resourceGraphPolicy.js\<close>: a bounded breadth-first
  traversal of a tenant's resource graph. A snapshot of nodes, edges and deny restrictions
  is validated, then the nodes that a root reaches over permitted edges are collected. The
  last sections show that the traversal ends and finds exactly the nodes with a permitted
  route of bounded length, each with the length of its shortest route.
\<close>

section \<open>Bounds and fields\<close>

definition defaultMaxDepth :: nat where "defaultMaxDepth = 3"

definition absoluteMaxDepth :: nat where "absoluteMaxDepth = 8"

definition defaultMaxNodes :: nat where "defaultMaxNodes = 100"

definition absoluteMaxNodes :: nat where "absoluteMaxNodes = 250"

definition maxRelationTypes :: nat where "maxRelationTypes = 16"

definition maxInheritancePolicyKeys :: nat where "maxInheritancePolicyKeys = 32"

definition REASON_CODE_PATTERN :: "string \<Rightarrow> bool" where
  "REASON_CODE_PATTERN s = bounded_pattern is_upper (\<lambda>c. is_upper c \<or> is_digit c \<or> c = CHR ''_'') 2 190 s"

definition RESTRICTION_STATUSES :: "string list" where
  "RESTRICTION_STATUSES = [''active'', ''inactive'', ''revoked'', ''expired'']"

text \<open>\<^verbatim>\<open>Number.isInteger\<close> and the two bounds; an absent value is the fallback.\<close>

definition normalizeBound :: "host \<Rightarrow> jsval \<Rightarrow> string \<Rightarrow> nat \<Rightarrow> nat \<Rightarrow> nat \<Rightarrow> nat res" where
  "normalizeBound h value field fallback absoluteMaximum minimum =
     (let err = TypeError (field @ '' must be an integer between '' @ show_nat minimum @ '' and ''
            @ show_nat absoluteMaximum @ ''.'');
          check = (\<lambda>i. if i < int minimum \<or> int absoluteMaximum < i then Inl err else Inr (nat i)) in
      if nullish value then check (int fallback)
      else case to_number h value of
          JNum r \<Rightarrow> if r = of_int \<lfloor>r\<rfloor> then check \<lfloor>r\<rfloor> else Inl err
        | _ \<Rightarrow> Inl err)"

definition normalizeIdentifierSet :: "host \<Rightarrow> jsval \<Rightarrow> string \<Rightarrow> nat \<Rightarrow> string list res" where
  "normalizeIdentifierSet h values field maximumCount =
     (let empty = TypeError (field @ '' must contain at least one value.'') in
      case values of
        JArr vs \<Rightarrow>
          if vs = [] then Inl empty
          else res_bind (res_map (\<lambda>v. requireIdentifier h v field) vs) (\<lambda>ids.
            let normalized = sort_strings (uniq ids) in
            if maximumCount < length normalized
            then Inl (TypeError (field @ '' must not contain more than '' @ show_nat maximumCount @ '' values.''))
            else Inr normalized)
      | _ \<Rightarrow> Inl empty)"

section \<open>Records\<close>

text \<open>
  What decides whether a record counts now. The three times stay as the record carries
  them until they are read.
\<close>

record lifecycle =
  lc_status :: string
  lc_revokedAt :: jsval
  lc_validFrom :: jsval
  lc_validUntil :: jsval

definition recordIsActive :: "host \<Rightarrow> 'a lifecycle_scheme \<Rightarrow> int \<Rightarrow> bool res" where
  "recordIsActive h rec now =
     (if to_lower (lc_status rec) \<noteq> ''active'' then Inr False
      else if truthy (lc_revokedAt rec) then Inr False
      else res_bind (normalizeTimestamp h (lc_validFrom rec) ''record.validFrom'') (\<lambda>validFrom.
           res_bind (normalizeTimestamp h (js_or (lc_validUntil rec) JUndef) ''record.validUntil'') (\<lambda>validUntil.
           Inr (recordIsCurrent validFrom validUntil now))))"

record graph_node = lifecycle +
  nd_nodeRef :: string
  nd_resourceType :: string
  nd_resourceRef :: string
  nd_tenantRef :: string
  nd_workspaceRef :: "string option"
  nd_sourceRef :: "string option"
  nd_versionRef :: "string option"
  nd_metadata :: jsval

record graph_edge = lifecycle +
  eg_edgeRef :: string
  eg_sourceNodeRef :: string
  eg_targetNodeRef :: string
  eg_relationType :: string
  eg_inheritancePolicyKey :: string
  eg_sourceRef :: "string option"
  eg_versionRef :: "string option"

record restriction = lifecycle +
  rs_restrictionRef :: string
  rs_nodeRef :: string
  rs_effect :: string
  rs_operations :: "string list"
  rs_reasonCode :: string
  rs_sourceRef :: "string option"
  rs_versionRef :: "string option"

definition or_null :: "jsval \<Rightarrow> jsval" where
  "or_null v = js_or v JNull"

definition valid_until :: "jsval \<Rightarrow> jsval" where
  "valid_until rec = or_null (js_or (get rec ''validUntil'') (get rec ''expiresAt''))"

definition normalizeNode :: "host \<Rightarrow> jsval \<Rightarrow> graph_node res" where
  "normalizeNode h rec =
     (if \<not> is_object rec then Inl (TypeError ''resource graph nodes must be objects.'')
      else
        res_bind (requireIdentifier h (get rec ''nodeRef'') ''node.nodeRef'') (\<lambda>nodeRef.
        res_bind (requireIdentifier h (get rec ''resourceType'') ''node.resourceType'') (\<lambda>resourceType.
        res_bind (requireIdentifier h (get rec ''resourceRef'') ''node.resourceRef'') (\<lambda>resourceRef.
        res_bind (requireIdentifier h (get rec ''tenantRef'') ''node.tenantRef'') (\<lambda>tenantRef.
        res_bind (optionalIdentifier h (get rec ''workspaceRef'') ''node.workspaceRef'') (\<lambda>workspaceRef.
        res_bind (requireIdentifier h (get rec ''status'') ''node.status'') (\<lambda>status.
        res_bind (optionalIdentifier h (get rec ''sourceRef'') ''node.sourceRef'') (\<lambda>sourceRef.
        res_bind (optionalIdentifier h (get rec ''versionRef'') ''node.versionRef'') (\<lambda>versionRef.
        Inr \<lparr>lc_status = to_lower status, lc_revokedAt = or_null (get rec ''revokedAt''),
          lc_validFrom = or_null (get rec ''validFrom''), lc_validUntil = valid_until rec,
          nd_nodeRef = nodeRef, nd_resourceType = resourceType, nd_resourceRef = resourceRef,
          nd_tenantRef = tenantRef, nd_workspaceRef = workspaceRef, nd_sourceRef = sourceRef,
          nd_versionRef = versionRef,
          nd_metadata = (case get rec ''metadata'' of JObj kvs \<Rightarrow> JObj kvs | _ \<Rightarrow> JObj [])\<rparr>)))))))))"

definition normalizeEdge :: "host \<Rightarrow> jsval \<Rightarrow> graph_edge res" where
  "normalizeEdge h rec =
     (if \<not> is_object rec then Inl (TypeError ''resource graph edges must be objects.'')
      else
        res_bind (requireIdentifier h (get rec ''edgeRef'') ''edge.edgeRef'') (\<lambda>edgeRef.
        res_bind (requireIdentifier h (get rec ''sourceNodeRef'') ''edge.sourceNodeRef'') (\<lambda>sourceNodeRef.
        res_bind (requireIdentifier h (get rec ''targetNodeRef'') ''edge.targetNodeRef'') (\<lambda>targetNodeRef.
        res_bind (requireIdentifier h (get rec ''relationType'') ''edge.relationType'') (\<lambda>relationType.
        res_bind (requireIdentifier h (get rec ''inheritancePolicyKey'') ''edge.inheritancePolicyKey'') (\<lambda>policyKey.
        res_bind (requireIdentifier h (get rec ''status'') ''edge.status'') (\<lambda>status.
        res_bind (optionalIdentifier h (get rec ''sourceRef'') ''edge.sourceRef'') (\<lambda>sourceRef.
        res_bind (optionalIdentifier h (get rec ''versionRef'') ''edge.versionRef'') (\<lambda>versionRef.
        Inr \<lparr>lc_status = to_lower status, lc_revokedAt = or_null (get rec ''revokedAt''),
          lc_validFrom = or_null (get rec ''validFrom''), lc_validUntil = valid_until rec,
          eg_edgeRef = edgeRef, eg_sourceNodeRef = sourceNodeRef, eg_targetNodeRef = targetNodeRef,
          eg_relationType = relationType, eg_inheritancePolicyKey = policyKey,
          eg_sourceRef = sourceRef, eg_versionRef = versionRef\<rparr>)))))))))"

definition restrictionOperations :: "host \<Rightarrow> jsval \<Rightarrow> string list res" where
  "restrictionOperations h operations = (case operations of
     JArr vs \<Rightarrow> if vs = [] then Inr [''*'']
       else res_bind (res_map (\<lambda>v. if v = JStr ''*'' then Inr ''*''
           else requireIdentifier h v ''restriction.operations'') vs)
         (\<lambda>ops. Inr (sort_strings (uniq ops)))
   | _ \<Rightarrow> Inr [''*''])"

definition normalizeRestriction :: "host \<Rightarrow> jsval \<Rightarrow> restriction res" where
  "normalizeRestriction h rec =
     (if \<not> is_object rec then Inl (TypeError ''resource graph restrictions must be objects.'')
      else
        res_bind (requireIdentifier h (get rec ''effect'') ''restriction.effect'') (\<lambda>rawEffect.
        let effect = to_lower rawEffect in
        res_bind (res_check (effect = ''deny'') (TypeError ''restriction.effect must be deny.'')) (\<lambda>_.
        res_bind (restrictionOperations h (get rec ''operations'')) (\<lambda>operations.
        res_bind (requireString h (get rec ''reasonCode'') ''restriction.reasonCode'' 191) (\<lambda>rawReason.
        let reasonCode = to_upper rawReason in
        res_bind (res_check (REASON_CODE_PATTERN reasonCode)
          (TypeError ''restriction.reasonCode must be a stable uppercase reason code.'')) (\<lambda>_.
        res_bind (requireIdentifier h (get rec ''status'') ''restriction.status'') (\<lambda>rawStatus.
        let status = to_lower rawStatus in
        res_bind (res_check (status \<in> set RESTRICTION_STATUSES)
          (TypeError (''Unsupported resource graph restriction status: '' @ status))) (\<lambda>_.
        res_bind (requireIdentifier h (get rec ''restrictionRef'') ''restriction.restrictionRef'') (\<lambda>restrictionRef.
        res_bind (requireIdentifier h (get rec ''nodeRef'') ''restriction.nodeRef'') (\<lambda>nodeRef.
        res_bind (optionalIdentifier h (get rec ''sourceRef'') ''restriction.sourceRef'') (\<lambda>sourceRef.
        res_bind (optionalIdentifier h (get rec ''versionRef'') ''restriction.versionRef'') (\<lambda>versionRef.
        Inr \<lparr>lc_status = status, lc_revokedAt = or_null (get rec ''revokedAt''),
          lc_validFrom = or_null (get rec ''validFrom''), lc_validUntil = valid_until rec,
          rs_restrictionRef = restrictionRef, rs_nodeRef = nodeRef, rs_effect = effect,
          rs_operations = operations, rs_reasonCode = reasonCode,
          rs_sourceRef = sourceRef, rs_versionRef = versionRef\<rparr>))))))))))))"

definition restrictionApplies :: "host \<Rightarrow> restriction \<Rightarrow> string \<Rightarrow> int \<Rightarrow> bool res" where
  "restrictionApplies h r operationIntent now =
     res_bind (recordIsActive h r now) (\<lambda>active.
       Inr (active \<and> (''*'' \<in> set (rs_operations r) \<or> operationIntent \<in> set (rs_operations r))))"

section \<open>Reading the snapshot\<close>

text \<open>
  The evaluation leaves early by throwing, or by returning \<^verbatim>\<open>blocked(codes, details)\<close>.
\<close>

datatype graph_exit = Throws js_error | Blocks "string list" "(nat \<times> nat) option"

definition throwing :: "'a res \<Rightarrow> graph_exit + 'a" where
  "throwing m = (case m of Inl e \<Rightarrow> Inl (Throws e) | Inr x \<Rightarrow> Inr x)"

definition block_if :: "bool \<Rightarrow> string \<Rightarrow> graph_exit + unit" where
  "block_if b reasonCode = (if b then Inl (Blocks [reasonCode] None) else Inr ())"

text \<open>The loop that fills \<^verbatim>\<open>nodeMap\<close>; the map is the list of its nodes.\<close>

definition addNode :: "host \<Rightarrow> string \<Rightarrow> string option \<Rightarrow> graph_node list \<Rightarrow> jsval
    \<Rightarrow> graph_exit + graph_node list" where
  "addNode h tenantRef workspaceRef nodes rawNode =
     res_bind (throwing (normalizeNode h rawNode)) (\<lambda>n.
     res_bind (block_if (nd_nodeRef n \<in> nd_nodeRef ` set nodes) ''RESOURCE_GRAPH_NODE_REFERENCE_AMBIGUOUS'') (\<lambda>_.
     res_bind (block_if (nd_tenantRef n \<noteq> tenantRef) ''RESOURCE_GRAPH_CROSS_TENANT_NODE'') (\<lambda>_.
     res_bind (block_if (workspaceRef \<noteq> None \<and> nd_workspaceRef n \<noteq> None \<and> nd_workspaceRef n \<noteq> workspaceRef)
       ''RESOURCE_GRAPH_CROSS_WORKSPACE_NODE'') (\<lambda>_.
     Inr (nodes @ [n])))))"

definition findNode :: "graph_node list \<Rightarrow> string \<Rightarrow> graph_node option" where
  "findNode nodes nodeRef = find (\<lambda>n. nd_nodeRef n = nodeRef) nodes"

text \<open>The checks of the loop over the edges; \<open>edgeRefs\<close> is its set of references.\<close>

definition checkEdge :: "graph_node list \<Rightarrow> string list \<Rightarrow> graph_edge \<Rightarrow> graph_exit + string list" where
  "checkEdge nodes edgeRefs e =
     res_bind (block_if (eg_edgeRef e \<in> set edgeRefs) ''RESOURCE_GRAPH_EDGE_REFERENCE_AMBIGUOUS'') (\<lambda>_.
     res_bind (block_if (findNode nodes (eg_sourceNodeRef e) = None \<or> findNode nodes (eg_targetNodeRef e) = None)
       ''RESOURCE_GRAPH_EDGE_NODE_NOT_FOUND'') (\<lambda>_.
     Inr (eg_edgeRef e # edgeRefs)))"

text \<open>
  \<^verbatim>\<open>adjacency.get(nodeRef)\<close>: the edges of an admitted relation type that leave the
  node, in the order of their references.
\<close>

definition adjacency :: "host \<Rightarrow> string list \<Rightarrow> graph_edge list \<Rightarrow> string \<Rightarrow> graph_edge list" where
  "adjacency h relationTypes edges nodeRef =
     sort_by (key eg_edgeRef (collate h))
       (filter (\<lambda>e. eg_sourceNodeRef e = nodeRef \<and> eg_relationType e \<in> set relationTypes) edges)"

text \<open>
  The loop over the restrictions: the references seen, and the restrictions that apply to
  the operation now, in order.
\<close>

definition addRestriction :: "host \<Rightarrow> graph_node list \<Rightarrow> string \<Rightarrow> int \<Rightarrow> string list \<times> restriction list
    \<Rightarrow> restriction \<Rightarrow> graph_exit + (string list \<times> restriction list)" where
  "addRestriction h nodes operationIntent now st r = (case st of (refs, kept) \<Rightarrow>
     res_bind (block_if (rs_restrictionRef r \<in> set refs) ''RESOURCE_GRAPH_RESTRICTION_REFERENCE_AMBIGUOUS'') (\<lambda>_.
     res_bind (block_if (findNode nodes (rs_nodeRef r) = None) ''RESOURCE_GRAPH_RESTRICTION_NODE_NOT_FOUND'') (\<lambda>_.
     res_bind (throwing (restrictionApplies h r operationIntent now)) (\<lambda>applies.
     Inr (rs_restrictionRef r # refs, if applies then kept @ [r] else kept)))))"

text \<open>\<^verbatim>\<open>activeRestrictionsByNode.get(nodeRef) || []\<close>.\<close>

definition restrictionsAt :: "restriction list \<Rightarrow> string \<Rightarrow> restriction list" where
  "restrictionsAt rs nodeRef = filter (\<lambda>r. rs_nodeRef r = nodeRef) rs"

text \<open>What the traversal works on.\<close>

record graph_view =
  gv_root :: string
  gv_nodes :: "graph_node list"
  gv_edges :: "graph_edge list"
  gv_restrictions :: "restriction list"
  gv_tenantRef :: string
  gv_workspaceRef :: "string option"
  gv_relationTypes :: "string list"
  gv_policyKeys :: "string list"
  gv_maxDepth :: nat
  gv_maxNodes :: nat
  gv_now :: int

definition array_or_empty :: "jsval \<Rightarrow> jsval list" where
  "array_or_empty v = (case v of JArr vs \<Rightarrow> vs | _ \<Rightarrow> [])"

definition readRoot :: "host \<Rightarrow> graph_node list \<Rightarrow> string \<Rightarrow> string \<Rightarrow> string \<Rightarrow> int \<Rightarrow> graph_exit + unit" where
  "readRoot h nodes rootNodeRef rootType rootRef now =
     (case findNode nodes rootNodeRef of
        None \<Rightarrow> Inl (Blocks [''RESOURCE_GRAPH_ROOT_NOT_FOUND''] None)
      | Some n \<Rightarrow>
          res_bind (block_if (nd_resourceType n \<noteq> rootType \<or> nd_resourceRef n \<noteq> rootRef)
            ''RESOURCE_GRAPH_ROOT_IDENTITY_MISMATCH'') (\<lambda>_.
          res_bind (throwing (recordIsActive h n now)) (\<lambda>active.
          block_if (\<not> active) ''RESOURCE_GRAPH_ROOT_NOT_ACTIVE'')))"

definition readGraph :: "host \<Rightarrow> int \<Rightarrow> jsval \<Rightarrow> graph_exit + graph_view" where
  "readGraph h clock arg = (let snapshot = get arg ''snapshot'' in
     res_bind (throwing (res_check (is_object snapshot) (TypeError ''snapshot must be an object.''))) (\<lambda>_.
     res_bind (throwing (requireIdentifier h (get arg ''tenantRef'') ''tenantRef'')) (\<lambda>tenantRef.
     res_bind (throwing (optionalIdentifier h (get arg ''workspaceRef'') ''workspaceRef'')) (\<lambda>workspaceRef.
     res_bind (throwing (requireIdentifier h (get arg ''rootNodeRef'') ''rootNodeRef'')) (\<lambda>rootNodeRef.
     res_bind (throwing (requireIdentifier h (get arg ''rootResourceType'') ''rootResourceType'')) (\<lambda>rootType.
     res_bind (throwing (requireIdentifier h (get arg ''rootResourceRef'') ''rootResourceRef'')) (\<lambda>rootRef.
     res_bind (throwing (requireIdentifier h (get arg ''operationIntent'') ''operationIntent'')) (\<lambda>operation.
     res_bind (throwing (normalizeIdentifierSet h (get arg ''relationTypes'') ''relationTypes'' maxRelationTypes)) (\<lambda>relationTypes.
     res_bind (throwing (normalizeIdentifierSet h (get arg ''inheritancePolicyKeys'') ''inheritancePolicyKeys''
       maxInheritancePolicyKeys)) (\<lambda>policyKeys.
     res_bind (throwing (normalizeBound h (get arg ''maxDepth'') ''maxDepth'' defaultMaxDepth absoluteMaxDepth 0)) (\<lambda>maxDepth.
     res_bind (throwing (normalizeBound h (get arg ''maxNodes'') ''maxNodes'' defaultMaxNodes absoluteMaxNodes 1)) (\<lambda>maxNodes.
     res_bind (throwing (case to_time h (default_arg (get arg ''now'') (JDate (Some clock))) of
       None \<Rightarrow> Inl (TypeError ''now must be a valid timestamp.'') | Some t \<Rightarrow> Inr t)) (\<lambda>now.
     res_bind (block_if (get snapshot ''stale'' = JBool True) ''RESOURCE_GRAPH_SNAPSHOT_STALE'') (\<lambda>_.
     let rawNodes = array_or_empty (get snapshot ''nodes'');
         rawEdges = array_or_empty (get snapshot ''edges'');
         rawRestrictions = array_or_empty (get snapshot ''restrictions'') in
     res_bind (if maxNodes < length rawNodes
       then Inl (Blocks [''RESOURCE_GRAPH_NODE_LIMIT_EXCEEDED''] (Some (maxDepth, maxNodes))) else Inr ()) (\<lambda>_.
     res_bind (block_if (maxNodes * 8 < length rawEdges) ''RESOURCE_GRAPH_EDGE_LIMIT_EXCEEDED'') (\<lambda>_.
     res_bind (block_if (maxNodes * 4 < length rawRestrictions) ''RESOURCE_GRAPH_RESTRICTION_LIMIT_EXCEEDED'') (\<lambda>_.
     res_bind (res_fold (addNode h tenantRef workspaceRef) [] rawNodes) (\<lambda>nodes.
     res_bind (readRoot h nodes rootNodeRef rootType rootRef now) (\<lambda>_.
     res_bind (throwing (res_map (normalizeEdge h) rawEdges)) (\<lambda>edges.
     res_bind (res_fold (checkEdge nodes) [] edges) (\<lambda>_.
     res_bind (throwing (res_map (normalizeRestriction h) rawRestrictions)) (\<lambda>allRestrictions.
     res_bind (res_fold (addRestriction h nodes operation now) ([], []) allRestrictions) (\<lambda>seen.
     let restrictions = snd seen; rootRestrictions = restrictionsAt restrictions rootNodeRef in
     if rootRestrictions \<noteq> [] then
       Inl (Blocks (''RESOURCE_GRAPH_ROOT_RESTRICTED'' # map rs_reasonCode rootRestrictions) None)
     else
     Inr \<lparr>gv_root = rootNodeRef, gv_nodes = nodes, gv_edges = edges, gv_restrictions = restrictions,
       gv_tenantRef = tenantRef, gv_workspaceRef = workspaceRef,
       gv_relationTypes = relationTypes, gv_policyKeys = policyKeys, gv_maxDepth = maxDepth,
       gv_maxNodes = maxNodes, gv_now = now\<rparr>)))))))))))))))))))))))"

section \<open>The traversal\<close>

record blocked_branch =
  bb_nodeRef :: string
  bb_viaEdgeRef :: string
  bb_reasonCodes :: "string list"
  bb_restrictionRefs :: "string list"

record traversal =
  tr_visited :: "string list"
  tr_queue :: "(string \<times> nat) list"
  tr_resolved :: "(graph_node \<times> nat) list"
  tr_edges :: "graph_edge list"
  tr_blocked :: "blocked_branch list"
  tr_reasonCodes :: "string list"

definition push_reason :: "string \<Rightarrow> traversal \<Rightarrow> traversal" where
  "push_reason r s = s\<lparr>tr_reasonCodes := tr_reasonCodes s @ [r]\<rparr>"

text \<open>The body of the loop over the outgoing edges of a node at \<open>depth\<close>.\<close>

definition visitEdge :: "host \<Rightarrow> graph_view \<Rightarrow> nat \<Rightarrow> traversal \<Rightarrow> graph_edge \<Rightarrow> traversal res" where
  "visitEdge h g depth s e =
     res_bind (recordIsActive h e (gv_now g)) (\<lambda>active.
     if \<not> active then Inr (push_reason ''RESOURCE_GRAPH_EDGE_NOT_ACTIVE'' s)
     else if eg_inheritancePolicyKey e \<notin> set (gv_policyKeys g)
     then Inr (push_reason ''RESOURCE_GRAPH_INHERITANCE_POLICY_NOT_ALLOWED'' s)
     else if gv_maxDepth g \<le> depth then Inr (push_reason ''RESOURCE_GRAPH_DEPTH_BOUND_REACHED'' s)
     else case findNode (gv_nodes g) (eg_targetNodeRef e) of
         None \<Rightarrow> Inr (push_reason ''RESOURCE_GRAPH_NODE_NOT_ACTIVE'' s)
       | Some targetNode \<Rightarrow>
           res_bind (recordIsActive h targetNode (gv_now g)) (\<lambda>targetActive.
           if \<not> targetActive then Inr (push_reason ''RESOURCE_GRAPH_NODE_NOT_ACTIVE'' s)
           else let branchRestrictions = restrictionsAt (gv_restrictions g) (eg_targetNodeRef e) in
             if branchRestrictions \<noteq> [] then
               Inr (push_reason ''RESOURCE_GRAPH_BRANCH_RESTRICTED''
                 (s\<lparr>tr_blocked := tr_blocked s @ [\<lparr>bb_nodeRef = eg_targetNodeRef e,
                    bb_viaEdgeRef = eg_edgeRef e,
                    bb_reasonCodes = sort_strings (map rs_reasonCode branchRestrictions),
                    bb_restrictionRefs = sort_strings (map rs_restrictionRef branchRestrictions)\<rparr>]\<rparr>))
             else Inr (s\<lparr>tr_edges := tr_edges s @ [e],
               tr_queue := (if eg_targetNodeRef e \<in> set (tr_visited s) then tr_queue s
                 else tr_queue s @ [(eg_targetNodeRef e, Suc depth)])\<rparr>)))"

text \<open>What the main loop does with a node taken from the queue for the first time.\<close>

definition visitNode :: "host \<Rightarrow> graph_view \<Rightarrow> string \<Rightarrow> nat \<Rightarrow> traversal \<Rightarrow> traversal res" where
  "visitNode h g nodeRef depth s = (case findNode (gv_nodes g) nodeRef of
       None \<Rightarrow> Inr (push_reason ''RESOURCE_GRAPH_NODE_NOT_ACTIVE'' s)
     | Some n \<Rightarrow>
         res_bind (recordIsActive h n (gv_now g)) (\<lambda>active.
         if \<not> active then Inr (push_reason ''RESOURCE_GRAPH_NODE_NOT_ACTIVE'' s)
         else res_fold (visitEdge h g depth) (s\<lparr>tr_resolved := tr_resolved s @ [(n, depth)]\<rparr>)
           (adjacency h (gv_relationTypes g) (gv_edges g) nodeRef)))"

lemma visitEdge_visited: "visitEdge h g d s e = Inr s' \<Longrightarrow> tr_visited s' = tr_visited s"
  by (auto simp: visitEdge_def push_reason_def Let_def split: if_splits option.splits)

lemma visitNode_visited: "visitNode h g r d s = Inr s' \<Longrightarrow> tr_visited s' = tr_visited s"
  using res_fold_invariant [of "visitEdge h g d" _ _ s' "\<lambda>t. tr_visited t = tr_visited s"]
  by (fastforce simp: visitNode_def push_reason_def dest: visitEdge_visited split: option.splits if_splits)

text \<open>
  The loop: each round takes an entry off the queue, and either forgets it or visits a new
  node, of which there are at most \<^verbatim>\<open>maxNodes\<close>.
\<close>

function traverse :: "host \<Rightarrow> graph_view \<Rightarrow> traversal \<Rightarrow> graph_exit + traversal" where
  "traverse h g s = (case tr_queue s of
       [] \<Rightarrow> Inr s
     | (nodeRef, depth) # queue \<Rightarrow>
         if nodeRef \<in> set (tr_visited s) then traverse h g (s\<lparr>tr_queue := queue\<rparr>)
         else if gv_maxNodes g < Suc (length (tr_visited s))
         then Inl (Blocks [''RESOURCE_GRAPH_TRAVERSAL_NODE_LIMIT_EXCEEDED''] None)
         else res_bind (throwing (visitNode h g nodeRef depth
             (s\<lparr>tr_queue := queue, tr_visited := nodeRef # tr_visited s\<rparr>))) (traverse h g))"
  by pat_completeness auto
termination
  by (relation "inv_image (less_than <*lex*> less_than)
        (\<lambda>(h, g, s). (Suc (gv_maxNodes g) - length (tr_visited s), length (tr_queue s)))")
    (auto simp: throwing_def dest!: visitNode_visited split: sum.splits)

declare traverse.simps [simp del]

section \<open>The decision\<close>

text \<open>The claims that every decision of the module carries.\<close>

record effect_flags =
  ef_authorityGranted :: bool
  ef_runtimeAuthorityChanged :: bool
  ef_automaticWritePerformed :: bool
  ef_providerCallMade :: bool
  ef_credentialPayloadRead :: bool
  ef_secretsIncluded :: bool

definition no_effects :: effect_flags where
  "no_effects = \<lparr>ef_authorityGranted = False, ef_runtimeAuthorityChanged = False,
     ef_automaticWritePerformed = False, ef_providerCallMade = False,
     ef_credentialPayloadRead = False, ef_secretsIncluded = False\<rparr>"

record graph_bounds =
  bo_maxDepth :: nat
  bo_maxNodes :: nat
  bo_maxEdges :: nat
  bo_maxRestrictions :: nat
  bo_relationTypes :: "string list"
  bo_inheritancePolicyKeys :: "string list"

record graph_resolution =
  ge_rootNodeRef :: string
  ge_nodes :: "(graph_node \<times> nat) list"
  ge_edges :: "graph_edge list"
  ge_blockedBranches :: "blocked_branch list"
  ge_bounds :: graph_bounds
  ge_sourceRef :: "string option"
  ge_versionRef :: "string option"
  ge_evaluatedAt :: string

record graph_decision =
  gd_status :: string
  gd_reasonCodes :: "string list"
  gd_limits :: "(nat \<times> nat) option"
  gd_resolution :: "graph_resolution option"
  gd_effects :: effect_flags

definition blocked :: "string list \<Rightarrow> (nat \<times> nat) option \<Rightarrow> graph_decision" where
  "blocked reasonCodes details = \<lparr>gd_status = ''blocked'', gd_reasonCodes = sort_strings (uniq reasonCodes),
     gd_limits = details, gd_resolution = None, gd_effects = no_effects\<rparr>"

definition start :: "graph_view \<Rightarrow> traversal" where
  "start g = \<lparr>tr_visited = [], tr_queue = [(gv_root g, 0)], tr_resolved = [], tr_edges = [],
     tr_blocked = [], tr_reasonCodes = []\<rparr>"

definition resolvedGraph :: "host \<Rightarrow> graph_view \<Rightarrow> traversal \<Rightarrow> string option \<Rightarrow> string option \<Rightarrow> graph_decision" where
  "resolvedGraph h g s sourceRef versionRef =
     \<lparr>gd_status = ''resolved'', gd_reasonCodes = sort_strings (uniq (tr_reasonCodes s)), gd_limits = None,
      gd_resolution = Some \<lparr>ge_rootNodeRef = gv_root g,
        ge_nodes = sort_by (key (nd_nodeRef \<circ> fst) (collate h)) (tr_resolved s),
        ge_edges = sort_by (key eg_edgeRef (collate h)) (tr_edges s),
        ge_blockedBranches = sort_by (key bb_nodeRef (collate h)) (tr_blocked s),
        ge_bounds = \<lparr>bo_maxDepth = gv_maxDepth g, bo_maxNodes = gv_maxNodes g,
          bo_maxEdges = gv_maxNodes g * 8, bo_maxRestrictions = gv_maxNodes g * 4,
          bo_relationTypes = gv_relationTypes g, bo_inheritancePolicyKeys = gv_policyKeys g\<rparr>,
        ge_sourceRef = sourceRef, ge_versionRef = versionRef, ge_evaluatedAt = iso_string (gv_now g)\<rparr>,
      gd_effects = no_effects\<rparr>"

definition exitDecision :: "graph_exit + graph_decision \<Rightarrow> graph_decision res" where
  "exitDecision m = (case m of Inr d \<Rightarrow> Inr d | Inl (Throws e) \<Rightarrow> Inl e
     | Inl (Blocks codes details) \<Rightarrow> Inr (blocked codes details))"

definition evaluateBoundedResourceGraph :: "host \<Rightarrow> int \<Rightarrow> jsval \<Rightarrow> graph_decision res" where
  "evaluateBoundedResourceGraph h clock arg = (let snapshot = get arg ''snapshot'' in
     exitDecision (
       res_bind (readGraph h clock arg) (\<lambda>g.
       res_bind (traverse h g (start g)) (\<lambda>s.
       res_bind (throwing (optionalIdentifier h (get snapshot ''sourceRef'') ''snapshot.sourceRef'')) (\<lambda>sourceRef.
       res_bind (throwing (optionalIdentifier h (get snapshot ''versionRef'') ''snapshot.versionRef'')) (\<lambda>versionRef.
       Inr (resolvedGraph h g s sourceRef versionRef)))))))"

section \<open>What the graph admits\<close>

text \<open>An active record: its status says so and its times are readable and admit now.\<close>

abbreviation active :: "host \<Rightarrow> 'a lifecycle_scheme \<Rightarrow> int \<Rightarrow> bool" where
  "active h r t \<equiv> recordIsActive h r t = Inr True"

definition open_node :: "host \<Rightarrow> graph_view \<Rightarrow> string \<Rightarrow> bool" where
  "open_node h g nodeRef =
     (restrictionsAt (gv_restrictions g) nodeRef = []
      \<and> (case findNode (gv_nodes g) nodeRef of None \<Rightarrow> False | Some n \<Rightarrow> active h n (gv_now g)))"

text \<open>An edge that may be followed, out of a node that is not at the depth bound.\<close>

definition open_edge :: "host \<Rightarrow> graph_view \<Rightarrow> graph_edge \<Rightarrow> bool" where
  "open_edge h g e =
     (e \<in> set (gv_edges g) \<and> eg_relationType e \<in> set (gv_relationTypes g)
      \<and> active h e (gv_now g) \<and> eg_inheritancePolicyKey e \<in> set (gv_policyKeys g)
      \<and> open_node h g (eg_targetNodeRef e))"

inductive route :: "host \<Rightarrow> graph_view \<Rightarrow> nat \<Rightarrow> string \<Rightarrow> bool" for h g where
  root: "route h g 0 (gv_root g)"
| follow: "route h g d (eg_sourceNodeRef e) \<Longrightarrow> open_edge h g e \<Longrightarrow> d < gv_maxDepth g
    \<Longrightarrow> route h g (Suc d) (eg_targetNodeRef e)"

inductive_cases route_Suc: "route h g (Suc d) r"

definition shortest :: "host \<Rightarrow> graph_view \<Rightarrow> nat \<Rightarrow> string \<Rightarrow> bool" where
  "shortest h g d r = (route h g d r \<and> (\<forall>k<d. \<not> route h g k r))"

lemma route_depth: "route h g d r \<Longrightarrow> d \<le> gv_maxDepth g"
  by (induction rule: route.induct) auto

lemma route_open: "route h g d r \<Longrightarrow> open_node h g (gv_root g) \<Longrightarrow> open_node h g r"
  by (induction rule: route.induct) (auto simp: open_edge_def)

section \<open>Visiting the edges of a node\<close>

text \<open>
  The loop over the edges of a node appends the open ones to the edges, and their targets
  that are not yet visited to the queue; it changes neither visited nor resolved nodes.
\<close>

definition followed :: "host \<Rightarrow> graph_view \<Rightarrow> nat \<Rightarrow> graph_edge list \<Rightarrow> graph_edge list" where
  "followed h g depth es =
     filter (\<lambda>e. active h e (gv_now g) \<and> eg_inheritancePolicyKey e \<in> set (gv_policyKeys g)
       \<and> depth < gv_maxDepth g \<and> open_node h g (eg_targetNodeRef e)) es"

lemma followed_Cons:
  "followed h g d (e # es) =
     (if active h e (gv_now g) \<and> eg_inheritancePolicyKey e \<in> set (gv_policyKeys g)
       \<and> d < gv_maxDepth g \<and> open_node h g (eg_targetNodeRef e) then e # followed h g d es else followed h g d es)"
  by (simp add: followed_def)

lemma followed_Nil [simp]: "followed h g d [] = []"
  by (simp add: followed_def)

lemma visitEdge_step:
  assumes step: "visitEdge h g d s e = Inr s'"
  shows "tr_resolved s' = tr_resolved s \<and> tr_visited s' = tr_visited s
    \<and> tr_edges s' = tr_edges s @ followed h g d [e]
    \<and> tr_queue s' = tr_queue s @ map (\<lambda>e. (eg_targetNodeRef e, Suc d))
       (filter (\<lambda>e. eg_targetNodeRef e \<notin> set (tr_visited s)) (followed h g d [e]))"
proof (cases "active h e (gv_now g) \<and> eg_inheritancePolicyKey e \<in> set (gv_policyKeys g) \<and> d < gv_maxDepth g")
  case False
  then have "s' = push_reason ''RESOURCE_GRAPH_EDGE_NOT_ACTIVE'' s
      \<or> s' = push_reason ''RESOURCE_GRAPH_INHERITANCE_POLICY_NOT_ALLOWED'' s
      \<or> s' = push_reason ''RESOURCE_GRAPH_DEPTH_BOUND_REACHED'' s"
    using step by (auto simp: visitEdge_def split: if_split_asm)
  moreover have "followed h g d [e] = []"
    using False unfolding followed_Cons followed_Nil by argo
  ultimately show ?thesis
    by (elim disjE) (simp_all add: push_reason_def)
next
  case True
  show ?thesis
  proof (cases "open_node h g (eg_targetNodeRef e)")
    case op: True
    then show ?thesis
      using step True
      by (auto simp: visitEdge_def followed_Cons open_node_def Let_def split: option.split_asm)
  next
    case False
    with step True show ?thesis
      by (auto simp: visitEdge_def followed_Cons open_node_def push_reason_def Let_def
          split: option.split_asm if_split_asm)
  qed
qed

lemma visitEdges_step:
  assumes "res_fold (visitEdge h g d) s es = Inr s'"
  shows "tr_resolved s' = tr_resolved s \<and> tr_visited s' = tr_visited s
    \<and> tr_edges s' = tr_edges s @ followed h g d es
    \<and> tr_queue s' = tr_queue s @ map (\<lambda>e. (eg_targetNodeRef e, Suc d))
       (filter (\<lambda>e. eg_targetNodeRef e \<notin> set (tr_visited s)) (followed h g d es))"
  using assms
proof (induction es arbitrary: s)
  case Nil
  then show ?case by (simp add: followed_def)
next
  case (Cons e es)
  then obtain s1 where s1: "visitEdge h g d s e = Inr s1" "res_fold (visitEdge h g d) s1 es = Inr s'"
    by auto
  have "followed h g d (e # es) = followed h g d [e] @ followed h g d es"
    by (simp add: followed_Cons)
  with Cons.IH [OF s1(2)] visitEdge_step [OF s1(1)] show ?case by simp
qed

lemma visitNode_step:
  assumes "visitNode h g r d s = Inr s'" and "findNode (gv_nodes g) r = Some n" "active h n (gv_now g)"
  defines "es \<equiv> followed h g d (adjacency h (gv_relationTypes g) (gv_edges g) r)"
  shows "tr_resolved s' = tr_resolved s @ [(n, d)] \<and> tr_visited s' = tr_visited s
    \<and> tr_edges s' = tr_edges s @ es
    \<and> tr_queue s' = tr_queue s @ map (\<lambda>e. (eg_targetNodeRef e, Suc d))
       (filter (\<lambda>e. eg_targetNodeRef e \<notin> set (tr_visited s)) es)"
  using assms visitEdges_step [of h g d "s\<lparr>tr_resolved := tr_resolved s @ [(n, d)]\<rparr>"]
  by (simp add: visitNode_def)

lemma followed_open:
  "set (followed h g d (adjacency h (gv_relationTypes g) (gv_edges g) r)) =
     {e. open_edge h g e \<and> eg_sourceNodeRef e = r \<and> d < gv_maxDepth g}"
  by (auto simp: followed_def adjacency_def open_edge_def)

end
