(* ===== verification/Kernel_GraphSearch.thy ===== *)
theory Kernel_GraphSearch
  imports Kernel_ResourceGraph
begin

text \<open>
  The correctness of the traversal of \<^verbatim>\<open>resourceGraphPolicy.js\<close>: the
  invariant of the breadth-first loop (levels of the queue, soundness, completeness), what
  validating a snapshot establishes, and the properties of the decision.
\<close>

section \<open>The invariant of the traversal\<close>

definition resolved_refs :: "traversal \<Rightarrow> (string \<times> nat) set" where
  "resolved_refs s = (\<lambda>(n, d). (nd_nodeRef n, d)) ` set (tr_resolved s)"

definition known :: "traversal \<Rightarrow> (string \<times> nat) set" where
  "known s = set (tr_queue s) \<union> resolved_refs s"

text \<open>Where a node is known, with a depth that is not too large.\<close>

definition known_by :: "traversal \<Rightarrow> string \<Rightarrow> nat \<Rightarrow> bool" where
  "known_by s r d = (\<exists>k\<le>d. (r, k) \<in> known s)"

text \<open>The queue holds the depths of two consecutive levels, in order, none below a resolved node's.\<close>

definition queue_levels :: "traversal \<Rightarrow> bool" where
  "queue_levels s =
     (sorted_wrt (\<lambda>x y. snd x \<le> snd y) (tr_queue s)
      \<and> (\<forall>x\<in>set (tr_queue s). \<forall>y\<in>set (tr_queue s). snd x \<le> Suc (snd y))
      \<and> (\<forall>x\<in>resolved_refs s. \<forall>y\<in>set (tr_queue s). snd x \<le> snd y))"

definition bfs_sound :: "host \<Rightarrow> graph_view \<Rightarrow> traversal \<Rightarrow> bool" where
  "bfs_sound h g s =
     ((\<forall>(r, d)\<in>known s. route h g d r)
      \<and> (\<forall>(n, d)\<in>set (tr_resolved s). findNode (gv_nodes g) (nd_nodeRef n) = Some n)
      \<and> map (nd_nodeRef \<circ> fst) (tr_resolved s) = rev (tr_visited s) \<and> distinct (tr_visited s)
      \<and> set (tr_edges s) = {e. open_edge h g e \<and> (\<exists>d<gv_maxDepth g. (eg_sourceNodeRef e, d) \<in> resolved_refs s)})"

definition bfs_complete :: "host \<Rightarrow> graph_view \<Rightarrow> traversal \<Rightarrow> bool" where
  "bfs_complete h g s =
     (known_by s (gv_root g) 0
      \<and> (\<forall>e d. open_edge h g e \<and> (eg_sourceNodeRef e, d) \<in> resolved_refs s \<and> d < gv_maxDepth g
           \<longrightarrow> known_by s (eg_targetNodeRef e) (Suc d)))"

definition bfs_inv :: "host \<Rightarrow> graph_view \<Rightarrow> traversal \<Rightarrow> bool" where
  "bfs_inv h g s = (queue_levels s \<and> bfs_sound h g s \<and> bfs_complete h g s)"

lemma visited_refs: "bfs_sound h g s \<Longrightarrow> r \<in> set (tr_visited s) \<longleftrightarrow> (\<exists>d. (r, d) \<in> resolved_refs s)"
proof -
  assume "bfs_sound h g s"
  then have "set (map (nd_nodeRef \<circ> fst) (tr_resolved s)) = set (tr_visited s)"
    by (simp add: bfs_sound_def)
  moreover have "fst ` resolved_refs s = set (map (nd_nodeRef \<circ> fst) (tr_resolved s))"
    by (simp add: resolved_refs_def image_image case_prod_beta o_def)
  moreover have "r \<in> fst ` A \<longleftrightarrow> (\<exists>d. (r, d) \<in> A)" for A :: "(string \<times> nat) set"
    by force
  ultimately show ?thesis by metis
qed

lemma bfs_inv_start: "bfs_inv h g (start g)"
  by (auto simp: bfs_inv_def queue_levels_def bfs_sound_def bfs_complete_def start_def known_def known_by_def
      resolved_refs_def intro: route.root)

text \<open>An entry whose node is resolved is not needed.\<close>

lemma known_by_drop:
  assumes "bfs_inv h g s" "tr_queue s = (r, d) # q" "r \<in> set (tr_visited s)" "known_by s x k"
  shows "known_by (s\<lparr>tr_queue := q\<rparr>) x k"
proof -
  obtain d' where d': "(r, d') \<in> resolved_refs s"
    using assms visited_refs by (auto simp: bfs_inv_def)
  then have "d' \<le> d"
    using assms(1,2) by (force simp: bfs_inv_def queue_levels_def)
  obtain j where j: "j \<le> k" "(x, j) \<in> known s"
    using assms(4) by (auto simp: known_by_def)
  show ?thesis
  proof (cases "(x, j) = (r, d)")
    case True
    then show ?thesis
      using d' \<open>d' \<le> d\<close> j by (auto simp: known_by_def known_def resolved_refs_def intro!: exI [of _ d'])
  next
    case False
    then show ?thesis
      using j assms(2) by (auto simp: known_by_def known_def resolved_refs_def)
  qed
qed

lemma bfs_inv_drop:
  assumes "bfs_inv h g s" "tr_queue s = (r, d) # q" "r \<in> set (tr_visited s)"
  shows "bfs_inv h g (s\<lparr>tr_queue := q\<rparr>)"
proof -
  let ?s = "s\<lparr>tr_queue := q\<rparr>"
  have [simp]: "resolved_refs ?s = resolved_refs s" by (simp add: resolved_refs_def)
  have "queue_levels ?s"
    using assms(1,2) by (simp add: bfs_inv_def queue_levels_def)
  moreover have "bfs_sound h g ?s"
    using assms(1,2) by (simp add: bfs_inv_def bfs_sound_def known_def)
  moreover have "bfs_complete h g ?s"
    using assms known_by_drop [OF assms] by (auto simp: bfs_inv_def bfs_complete_def)
  ultimately show ?thesis by (simp add: bfs_inv_def)
qed

text \<open>One round with a new node: what is known afterwards.\<close>

definition new_round :: "host \<Rightarrow> graph_view \<Rightarrow> traversal \<Rightarrow> traversal \<Rightarrow> string \<Rightarrow> nat \<Rightarrow> bool" where
  "new_round h g s s' r d =
     (\<exists>q n es. tr_queue s = (r, d) # q \<and> r \<notin> set (tr_visited s) \<and> findNode (gv_nodes g) r = Some n
        \<and> nd_nodeRef n = r \<and> tr_resolved s' = tr_resolved s @ [(n, d)] \<and> tr_visited s' = r # tr_visited s
        \<and> set es = {e. open_edge h g e \<and> eg_sourceNodeRef e = r \<and> d < gv_maxDepth g}
        \<and> tr_edges s' = tr_edges s @ es
        \<and> tr_queue s' = q @ map (\<lambda>e. (eg_targetNodeRef e, Suc d)) (filter (\<lambda>e. eg_targetNodeRef e \<notin> set (tr_visited s')) es))"

lemma new_round_refs: "new_round h g s s' r d \<Longrightarrow> resolved_refs s' = insert (r, d) (resolved_refs s)"
  by (auto simp: new_round_def resolved_refs_def)

lemma new_round_known:
  assumes "new_round h g s s' r d"
  shows "known s' = known s \<union> {(eg_targetNodeRef e, Suc d) | e. open_edge h g e \<and> eg_sourceNodeRef e = r
    \<and> d < gv_maxDepth g \<and> eg_targetNodeRef e \<notin> set (tr_visited s')}"
  using assms new_round_refs [OF assms] unfolding new_round_def known_def by (elim exE conjE) auto

lemma new_round_mono: "new_round h g s s' r d \<Longrightarrow> known_by s x k \<Longrightarrow> known_by s' x k"
  by (auto simp: known_by_def new_round_known)

lemma new_round_levels:
  assumes "queue_levels s" "new_round h g s s' r d"
  shows "queue_levels s'"
proof -
  obtain q and es :: "graph_edge list" where q: "tr_queue s = (r, d) # q"
    and q': "tr_queue s' = q @ map (\<lambda>e. (eg_targetNodeRef e, Suc d)) es"
    using assms(2) unfolding new_round_def by (elim exE conjE) (rule that, assumption+)
  have new: "snd x = Suc d" if "x \<in> set (map (\<lambda>e. (eg_targetNodeRef e, Suc d)) es)" for x
    using that by auto
  have old: "d \<le> snd x" "snd x \<le> Suc d" if "x \<in> set q" for x
    using assms(1) q that by (auto simp: queue_levels_def)
  have bounds: "d \<le> snd x \<and> snd x \<le> Suc d" if "x \<in> set (tr_queue s')" for x
  proof -
    have "x \<in> set q \<or> snd x = Suc d"
      using that new unfolding q' by auto
    with old [of x] show ?thesis by auto
  qed
  have "sorted_wrt (\<lambda>x y. snd x \<le> snd y) (tr_queue s')"
    using assms(1) q unfolding q' queue_levels_def sorted_wrt_append
    by (auto simp: old sorted_wrt_map intro: sorted_wrt_mono_rel [of _ "\<lambda>_ _. True"])
  moreover have "snd x \<le> Suc (snd y)" if "x \<in> set (tr_queue s')" "y \<in> set (tr_queue s')" for x y
    using bounds that by (meson Suc_le_mono le_trans)
  moreover have "snd x \<le> snd y" if "x \<in> resolved_refs s'" "y \<in> set (tr_queue s')" for x y
  proof -
    have "snd x \<le> d"
      using that(1) assms q by (auto simp: new_round_refs queue_levels_def)
    with bounds [OF that(2)] show ?thesis by simp
  qed
  ultimately show ?thesis by (simp add: queue_levels_def)
qed

lemma new_round_complete:
  assumes "bfs_inv h g s" "bfs_sound h g s'" "queue_levels s'" "new_round h g s s' r d"
  shows "bfs_complete h g s'"
proof -
  have "known_by s' (eg_targetNodeRef e) (Suc k)"
    if e: "open_edge h g e" "(eg_sourceNodeRef e, k) \<in> resolved_refs s'" "k < gv_maxDepth g" for e k
  proof (cases "(eg_sourceNodeRef e, k) \<in> resolved_refs s")
    case True
    then show ?thesis
      using assms(1,4) e new_round_mono by (auto simp: bfs_inv_def bfs_complete_def)
  next
    case False
    then have sk: "eg_sourceNodeRef e = r" "k = d"
      using e(2) new_round_refs [OF assms(4)] by auto
    show ?thesis
    proof (cases "eg_targetNodeRef e \<in> set (tr_visited s')")
      case True
      then obtain j where j: "(eg_targetNodeRef e, j) \<in> resolved_refs s'"
        using visited_refs [OF assms(2)] by blast
      moreover have "j \<le> d"
        using j assms(1,4) by (auto simp: new_round_refs bfs_inv_def queue_levels_def new_round_def)
      ultimately show ?thesis
        unfolding known_by_def known_def sk(2) by (intro exI [of _ j]) simp
    next
      case False
      then have "(eg_targetNodeRef e, Suc d) \<in> known s'"
        using e sk unfolding new_round_known [OF assms(4)] by blast
      then show ?thesis
        unfolding known_by_def sk(2) by blast
    qed
  qed
  moreover have "known_by s' (gv_root g) 0"
    using assms(1,4) new_round_mono by (auto simp: bfs_inv_def bfs_complete_def)
  ultimately show ?thesis by (simp add: bfs_complete_def)
qed

lemma new_round_sound:
  assumes "bfs_sound h g s" "new_round h g s s' r d"
  shows "bfs_sound h g s'"
proof -
  have "route h g d r"
    using assms by (auto simp: bfs_sound_def new_round_def known_def)
  then have "\<forall>(r, d)\<in>known s'. route h g d r"
    using assms(1) unfolding new_round_known [OF assms(2)] bfs_sound_def by (auto intro: route.follow)
  moreover have "\<forall>(n, d)\<in>set (tr_resolved s'). findNode (gv_nodes g) (nd_nodeRef n) = Some n"
    using assms by (auto simp: bfs_sound_def new_round_def)
  moreover have "map (nd_nodeRef \<circ> fst) (tr_resolved s') = rev (tr_visited s') \<and> distinct (tr_visited s')"
    using assms by (auto simp: bfs_sound_def new_round_def)
  moreover have "set (tr_edges s') = {e. open_edge h g e \<and> (\<exists>d<gv_maxDepth g. (eg_sourceNodeRef e, d) \<in> resolved_refs s')}"
  proof -
    have "set (tr_edges s') = set (tr_edges s) \<union> {e. open_edge h g e \<and> eg_sourceNodeRef e = r \<and> d < gv_maxDepth g}"
      using assms(2) unfolding new_round_def by (elim exE conjE) (simp only: set_append)
    then show ?thesis
      using assms(1) unfolding new_round_refs [OF assms(2)] bfs_sound_def by auto
  qed
  ultimately show ?thesis by (simp add: bfs_sound_def)
qed

lemma new_round_inv: "bfs_inv h g s \<Longrightarrow> new_round h g s s' r d \<Longrightarrow> bfs_inv h g s'"
  using new_round_levels new_round_sound new_round_complete unfolding bfs_inv_def by metis

lemma findNode_Some: "findNode nodes r = Some n \<Longrightarrow> nd_nodeRef n = r \<and> n \<in> set nodes"
  by (auto simp: findNode_def find_Some_iff in_set_conv_nth)

lemma visitNode_round:
  assumes "bfs_inv h g s" "open_node h g (gv_root g)" "tr_queue s = (r, d) # q" "r \<notin> set (tr_visited s)"
    and "visitNode h g r d (s\<lparr>tr_queue := q, tr_visited := r # tr_visited s\<rparr>) = Inr s'"
  shows "new_round h g s s' r d"
proof -
  have "route h g d r"
    using assms(1,3) by (auto simp: bfs_inv_def bfs_sound_def known_def)
  then have "open_node h g r"
    using assms(2) by (rule route_open)
  then obtain n where n: "findNode (gv_nodes g) r = Some n" "active h n (gv_now g)"
    by (auto simp: open_node_def split: option.splits)
  show ?thesis
    unfolding new_round_def
    by (rule exI [of _ q], rule exI [of _ n],
        rule exI [of _ "followed h g d (adjacency h (gv_relationTypes g) (gv_edges g) r)"])
      (use visitNode_step [OF assms(5) n] assms(3,4) n findNode_Some [OF n(1)] followed_open in simp)
qed

lemma traverse_inv:
  assumes "bfs_inv h g s" "open_node h g (gv_root g)" "traverse h g s = Inr s'"
  shows "bfs_inv h g s' \<and> tr_queue s' = []"
  using assms
proof (induction h g s rule: traverse.induct)
  case (1 h g s)
  show ?case
  proof (cases "tr_queue s")
    case Nil
    then show ?thesis using "1.prems" by (simp add: traverse.simps [of h g s])
  next
    case (Cons x q)
    obtain r d where x: "x = (r, d)" by (cases x)
    show ?thesis
    proof (cases "r \<in> set (tr_visited s)")
      case True
      have t: "traverse h g (s\<lparr>tr_queue := q\<rparr>) = Inr s'"
        using "1.prems"(3) Cons x True by (simp add: traverse.simps [of h g s])
      show ?thesis
        using "1.IH"(1) [OF Cons x [symmetric] True bfs_inv_drop [OF "1.prems"(1) _ True] "1.prems"(2) t]
          Cons x by simp
    next
      case False
      let ?s = "s\<lparr>tr_queue := q, tr_visited := r # tr_visited s\<rparr>"
      obtain s1 where s1: "visitNode h g r d ?s = Inr s1" and t: "traverse h g s1 = Inr s'"
        and le: "\<not> gv_maxNodes g < Suc (length (tr_visited s))"
        using "1.prems"(3) Cons x False
        by (auto simp: traverse.simps [of h g s] throwing_def split: if_splits sum.splits)
      have "new_round h g s s1 r d"
        using visitNode_round "1.prems"(1,2) Cons x False s1 by simp
      then have inv: "bfs_inv h g s1"
        using "1.prems"(1) new_round_inv by blast
      show ?thesis
      proof (rule "1.IH"(2) [OF Cons x [symmetric] False le _ inv "1.prems"(2) t])
        show "throwing (visitNode h g r d ?s) = Inr s1"
          using s1 by (simp add: throwing_def)
      qed
    qed
  qed
qed

text \<open>The loop never meets its own node limit: a visited node is a node of the snapshot.\<close>

lemma inv_room:
  assumes "bfs_inv h g s" "open_node h g (gv_root g)" "tr_queue s = (r, d) # q" "r \<notin> set (tr_visited s)"
  shows "Suc (length (tr_visited s)) \<le> length (gv_nodes g)"
proof -
  have "x \<in> nd_nodeRef ` set (gv_nodes g)" if "route h g k x" for k x
    using route_open [OF that assms(2)] findNode_Some
    by (fastforce simp: open_node_def split: option.splits)
  moreover have "\<exists>k. route h g k x" if "x \<in> insert r (set (tr_visited s))" for x
    using that assms(1,3) visited_refs [of h g s x]
    by (fastforce simp: bfs_inv_def bfs_sound_def known_def)
  ultimately have "insert r (set (tr_visited s)) \<subseteq> nd_nodeRef ` set (gv_nodes g)"
    by blast
  then have "card (insert r (set (tr_visited s))) \<le> card (nd_nodeRef ` set (gv_nodes g))"
    by (intro card_mono) auto
  also have "\<dots> \<le> length (gv_nodes g)"
    by (metis card_length length_map set_map)
  finally show ?thesis
    using assms(1,4) by (simp add: distinct_card bfs_inv_def bfs_sound_def)
qed

lemma traverse_only_throws:
  assumes "bfs_inv h g s" "open_node h g (gv_root g)" "length (gv_nodes g) \<le> gv_maxNodes g"
    and "traverse h g s = Inl x"
  shows "\<exists>e. x = Throws e"
  using assms
proof (induction h g s rule: traverse.induct)
  case (1 h g s)
  show ?case
  proof (cases "tr_queue s")
    case Nil
    then show ?thesis using "1.prems"(4) by (simp add: traverse.simps [of h g s])
  next
    case (Cons y q)
    obtain r d where y: "y = (r, d)" by (cases y)
    show ?thesis
    proof (cases "r \<in> set (tr_visited s)")
      case True
      have t: "traverse h g (s\<lparr>tr_queue := q\<rparr>) = Inl x"
        using "1.prems"(4) Cons y True by (simp add: traverse.simps [of h g s])
      show ?thesis
        using "1.IH"(1) [OF Cons y [symmetric] True bfs_inv_drop [OF "1.prems"(1) _ True] "1.prems"(2,3) t]
          Cons y by simp
    next
      case False
      let ?s = "s\<lparr>tr_queue := q, tr_visited := r # tr_visited s\<rparr>"
      have le: "\<not> gv_maxNodes g < Suc (length (tr_visited s))"
        using inv_room [OF "1.prems"(1,2) _ False] "1.prems"(3) Cons y by simp
      then have step: "res_bind (throwing (visitNode h g r d ?s)) (traverse h g) = Inl x"
        using "1.prems"(4) Cons y False by (simp add: traverse.simps [of h g s])
      show ?thesis
      proof (cases "visitNode h g r d ?s")
        case (Inl e)
        then show ?thesis using step by (auto simp: throwing_def)
      next
        case (Inr s1)
        have "new_round h g s s1 r d"
          using visitNode_round "1.prems"(1,2) Cons y False Inr by simp
        then have inv: "bfs_inv h g s1"
          using "1.prems"(1) new_round_inv by blast
        have "throwing (visitNode h g r d ?s) = Inr s1" "traverse h g s1 = Inl x"
          using step Inr by (simp_all add: throwing_def)
        then show ?thesis
          by (intro "1.IH"(2) [OF Cons y [symmetric] False le _ inv "1.prems"(2,3)])
      qed
    qed
  qed
qed

section \<open>What reading a snapshot establishes\<close>

definition in_scope :: "string \<Rightarrow> string option \<Rightarrow> graph_node \<Rightarrow> bool" where
  "in_scope tenantRef workspaceRef n =
     (nd_tenantRef n = tenantRef
      \<and> (workspaceRef = None \<or> nd_workspaceRef n = None \<or> nd_workspaceRef n = workspaceRef))"

lemma throwing_Inr [simp]: "throwing m = Inr x \<longleftrightarrow> m = Inr x"
  by (cases m) (simp_all add: throwing_def)

lemma block_if_Inr [simp]: "block_if b c = Inr u \<longleftrightarrow> \<not> b"
  by (simp add: block_if_def)

lemma addNode_Inr:
  "addNode h t w nodes v = Inr nodes' \<longleftrightarrow> (\<exists>n. normalizeNode h v = Inr n \<and> nd_nodeRef n \<notin> nd_nodeRef ` set nodes
     \<and> in_scope t w n \<and> nodes' = nodes @ [n])"
  by (auto simp: addNode_def in_scope_def)

lemma addNodes_length: "res_fold (addNode h t w) nodes vs = Inr nodes' \<Longrightarrow> length nodes' = length nodes + length vs"
  by (induction vs arbitrary: nodes) (auto simp: addNode_Inr)

lemma addNodes_scope:
  assumes "res_fold (addNode h t w) [] vs = Inr nodes"
  shows "\<forall>n\<in>set nodes. in_scope t w n" and "distinct (map nd_nodeRef nodes)"
proof -
  show "\<forall>n\<in>set nodes. in_scope t w n"
    by (rule res_fold_invariant [OF assms]) (auto simp: addNode_Inr)
  show "distinct (map nd_nodeRef nodes)"
    by (rule res_fold_invariant [OF assms]) (auto simp: addNode_Inr)
qed

lemma normalizeBound_range:
  "normalizeBound h v f d hi lo = Inr n \<Longrightarrow> lo \<le> n \<and> n \<le> hi"
  by (auto simp: normalizeBound_def Let_def not_less le_nat_iff nat_le_iff split: if_splits jsval.splits)

definition graph_view_ok :: "host \<Rightarrow> graph_view \<Rightarrow> bool" where
  "graph_view_ok h g =
     (open_node h g (gv_root g) \<and> length (gv_nodes g) \<le> gv_maxNodes g
      \<and> gv_maxNodes g \<le> absoluteMaxNodes \<and> gv_maxDepth g \<le> absoluteMaxDepth
      \<and> (\<forall>n\<in>set (gv_nodes g). in_scope (gv_tenantRef g) (gv_workspaceRef g) n)
      \<and> distinct (map nd_nodeRef (gv_nodes g)))"

lemma readRoot_Inr:
  "readRoot h nodes r ty ref now = Inr u \<Longrightarrow>
     \<exists>n. findNode nodes r = Some n \<and> active h n now \<and> nd_resourceType n = ty \<and> nd_resourceRef n = ref"
  by (auto simp: readRoot_def split: option.splits)

lemma readGraph_facts:
  assumes "readGraph h clock arg = Inr g"
  defines "rawNodes \<equiv> array_or_empty (get (get arg ''snapshot'') ''nodes'')"
  shows "requireIdentifier h (get arg ''tenantRef'') ''tenantRef'' = Inr (gv_tenantRef g)
    \<and> normalizeBound h (get arg ''maxDepth'') ''maxDepth'' defaultMaxDepth absoluteMaxDepth 0 = Inr (gv_maxDepth g)
    \<and> normalizeBound h (get arg ''maxNodes'') ''maxNodes'' defaultMaxNodes absoluteMaxNodes 1 = Inr (gv_maxNodes g)
    \<and> length rawNodes \<le> gv_maxNodes g
    \<and> res_fold (addNode h (gv_tenantRef g) (gv_workspaceRef g)) [] rawNodes = Inr (gv_nodes g)
    \<and> (\<exists>ty ref. readRoot h (gv_nodes g) (gv_root g) ty ref (gv_now g) = Inr ())
    \<and> restrictionsAt (gv_restrictions g) (gv_root g) = []"
  using assms unfolding readGraph_def Let_def res_bind_Inr_iff throwing_Inr block_if_Inr
  by (elim exE conjE, auto simp: not_less split: if_splits, blast)

lemma readGraph_ok:
  assumes "readGraph h clock arg = Inr g"
  shows "graph_view_ok h g"
proof -
  note facts = readGraph_facts [OF assms]
  from facts obtain ty ref where root: "readRoot h (gv_nodes g) (gv_root g) ty ref (gv_now g) = Inr ()" by blast
  from facts have nodes: "res_fold (addNode h (gv_tenantRef g) (gv_workspaceRef g)) []
      (array_or_empty (get (get arg ''snapshot'') ''nodes'')) = Inr (gv_nodes g)" by blast
  have "gv_maxNodes g \<le> absoluteMaxNodes" "gv_maxDepth g \<le> absoluteMaxDepth"
    using facts normalizeBound_range by blast+
  then show ?thesis
    using facts readRoot_Inr [OF root] addNodes_scope [OF nodes] addNodes_length [OF nodes]
    by (auto simp: graph_view_ok_def open_node_def)
qed

lemma evaluate_resolved:
  assumes "evaluateBoundedResourceGraph h clock arg = Inr d" "gd_resolution d = Some r"
  obtains g s src ver where "readGraph h clock arg = Inr g" "traverse h g (start g) = Inr s"
    "d = resolvedGraph h g s src ver"
  using assms
  by (auto simp: evaluateBoundedResourceGraph_def exitDecision_def Let_def blocked_def
      split: sum.splits graph_exit.splits)

lemma resolved_shortest:
  assumes "bfs_inv h g s" "tr_queue s = []"
  shows "(r, k) \<in> resolved_refs s \<longleftrightarrow> shortest h g k r"
proof -
  have known: "known s = resolved_refs s"
    using assms(2) by (simp add: known_def)
  have sound: "route h g j x" if "(x, j) \<in> resolved_refs s" for x j
    using that assms(1) known by (auto simp: bfs_inv_def bfs_sound_def)
  have complete: "\<exists>j\<le>d. (x, j) \<in> resolved_refs s" if "route h g d x" for d x
    using that
  proof (induction rule: route.induct)
    case root
    then show ?case
      using assms(1) known by (auto simp: bfs_inv_def bfs_complete_def known_by_def)
  next
    case (follow d e)
    then obtain j where j: "j \<le> d" "(eg_sourceNodeRef e, j) \<in> resolved_refs s" by blast
    then have "known_by s (eg_targetNodeRef e) (Suc j)"
      using follow assms(1) by (auto simp: bfs_inv_def bfs_complete_def)
    then show ?case
      using j(1) unfolding known_by_def known by (meson Suc_le_mono le_trans)
  qed
  have unique: "j = k" if "(r, j) \<in> resolved_refs s" "(r, k) \<in> resolved_refs s" for j
  proof -
    have "distinct (map (nd_nodeRef \<circ> fst) (tr_resolved s))"
      using assms(1) by (simp add: bfs_inv_def bfs_sound_def)
    then show ?thesis
      using that unfolding resolved_refs_def by (force simp: distinct_map inj_on_def)
  qed
  show ?thesis
  proof
    assume rk: "(r, k) \<in> resolved_refs s"
    then show "shortest h g k r"
      using sound complete unique unfolding shortest_def by (metis not_less)
  next
    assume rk: "shortest h g k r"
    then obtain j where j: "j \<le> k" "(r, j) \<in> resolved_refs s"
      using complete [of k r] by (auto simp: shortest_def)
    then have "j = k"
      using rk sound by (metis le_neq_implies_less shortest_def)
    with j show "(r, k) \<in> resolved_refs s" by simp
  qed
qed

lemma shortest_exists: "route h g d r \<Longrightarrow> \<exists>k\<le>d. shortest h g k r"
proof -
  assume r: "route h g d r"
  let ?k = "LEAST k. route h g k r"
  have "route h g ?k r" "?k \<le> d"
    using r by (auto intro: LeastI Least_le)
  moreover have "\<not> route h g j r" if "j < ?k" for j
    using that by (rule not_less_Least)
  ultimately show ?thesis
    unfolding shortest_def by blast
qed

lemma evaluate_traversal:
  assumes "evaluateBoundedResourceGraph h clock arg = Inr d" "gd_resolution d = Some r"
  obtains g s src ver where "readGraph h clock arg = Inr g" "graph_view_ok h g" "bfs_inv h g s" "tr_queue s = []"
    "d = resolvedGraph h g s src ver"
  using assms
proof (rule evaluate_resolved)
  fix g s src ver
  assume g: "readGraph h clock arg = Inr g" and s: "traverse h g (start g) = Inr s"
    and d: "d = resolvedGraph h g s src ver"
  have ok: "graph_view_ok h g"
    using g by (rule readGraph_ok)
  then have "bfs_inv h g s \<and> tr_queue s = []"
    using traverse_inv [OF bfs_inv_start _ s] by (simp add: graph_view_ok_def)
  with g d ok show thesis
    by (intro that) auto
qed

lemma resolved_node:
  assumes "bfs_inv h g s"
  shows "(n, k) \<in> set (tr_resolved s) \<longleftrightarrow> findNode (gv_nodes g) (nd_nodeRef n) = Some n \<and> (nd_nodeRef n, k) \<in> resolved_refs s"
proof
  assume "(n, k) \<in> set (tr_resolved s)"
  then show "findNode (gv_nodes g) (nd_nodeRef n) = Some n \<and> (nd_nodeRef n, k) \<in> resolved_refs s"
    using assms by (force simp: bfs_inv_def bfs_sound_def resolved_refs_def)
next
  assume r: "findNode (gv_nodes g) (nd_nodeRef n) = Some n \<and> (nd_nodeRef n, k) \<in> resolved_refs s"
  then obtain m where "(m, k) \<in> set (tr_resolved s)" "nd_nodeRef m = nd_nodeRef n"
    by (auto simp: resolved_refs_def)
  then show "(n, k) \<in> set (tr_resolved s)"
    using r assms by (force simp: bfs_inv_def bfs_sound_def)
qed

lemma findNode_distinct: "distinct (map nd_nodeRef nodes) \<Longrightarrow> findNode nodes (nd_nodeRef n) = Some n \<longleftrightarrow> n \<in> set nodes"
  by (induction nodes) (auto simp: findNode_def image_iff)

text \<open>
  C19. The traversal finds exactly what the graph admits. A node is reported with depth k if
  and only if the shortest permitted route from the root to it has length k: every edge on
  the route is active, of an admitted relation type and inheritance policy, leads to an
  active node without a restriction on the operation, and leaves a node above the depth
  bound. An edge is reported if and only if it is such an edge and leaves a node that a
  route reaches above the depth bound.
\<close>
theorem graph_resolution_exact:
  assumes "evaluateBoundedResourceGraph h clock arg = Inr d" and "gd_resolution d = Some r"
  shows "\<exists>g. readGraph h clock arg = Inr g
    \<and> (\<forall>n k. (n, k) \<in> set (ge_nodes r) \<longleftrightarrow> n \<in> set (gv_nodes g) \<and> shortest h g k (nd_nodeRef n))
    \<and> set (ge_edges r) = {e. open_edge h g e \<and> (\<exists>k<gv_maxDepth g. route h g k (eg_sourceNodeRef e))}"
proof -
  obtain g s src ver where g: "readGraph h clock arg = Inr g" "graph_view_ok h g" and s: "bfs_inv h g s" "tr_queue s = []"
    and d: "d = resolvedGraph h g s src ver"
    using evaluate_traversal [OF assms] .
  have r: "set (ge_nodes r) = set (tr_resolved s)" "set (ge_edges r) = set (tr_edges s)"
    using assms(2) d by (auto simp: resolvedGraph_def)
  have "(\<exists>k<gv_maxDepth g. shortest h g k x) \<longleftrightarrow> (\<exists>k<gv_maxDepth g. route h g k x)" for x
    using shortest_exists [of h g _ x] by (meson le_less_trans shortest_def)
  then have "set (tr_edges s) = {e. open_edge h g e \<and> (\<exists>k<gv_maxDepth g. route h g k (eg_sourceNodeRef e))}"
    using s(1) unfolding bfs_inv_def bfs_sound_def resolved_shortest [OF s] by simp
  then show ?thesis
    using g r resolved_node [OF s(1)] findNode_distinct [of "gv_nodes g"]
    unfolding resolved_shortest [OF s] by (intro exI [of _ g]) (simp add: graph_view_ok_def)
qed

text \<open>
  C20. What is reported stays inside the request's boundary: every node belongs to the
  requested tenant and does not belong to another workspace, is active and carries no
  restriction on the operation; no node is reported twice; and the number of nodes and
  their depths respect the requested bounds, which never exceed 250 nodes and depth 8.
\<close>
theorem graph_resolution_bounded:
  assumes "evaluateBoundedResourceGraph h clock arg = Inr d" and "gd_resolution d = Some r"
  shows "\<exists>g t. readGraph h clock arg = Inr g \<and> requireIdentifier h (get arg ''tenantRef'') ''tenantRef'' = Inr t
    \<and> (\<forall>(n, k)\<in>set (ge_nodes r). in_scope t (gv_workspaceRef g) n \<and> active h n (gv_now g)
          \<and> restrictionsAt (gv_restrictions g) (nd_nodeRef n) = [] \<and> k \<le> bo_maxDepth (ge_bounds r))
    \<and> distinct (map (nd_nodeRef \<circ> fst) (ge_nodes r))
    \<and> length (ge_nodes r) \<le> bo_maxNodes (ge_bounds r)
    \<and> bo_maxNodes (ge_bounds r) \<le> 250 \<and> bo_maxDepth (ge_bounds r) \<le> 8"
proof -
  obtain g s src ver where g: "readGraph h clock arg = Inr g" and ok: "graph_view_ok h g"
    and s: "bfs_inv h g s" "tr_queue s = []" and d: "d = resolvedGraph h g s src ver"
    using evaluate_traversal [OF assms] .
  have r: "mset (ge_nodes r) = mset (tr_resolved s)" "ge_bounds r = ge_bounds r"
    "bo_maxDepth (ge_bounds r) = gv_maxDepth g" "bo_maxNodes (ge_bounds r) = gv_maxNodes g"
    using assms(2) d by (auto simp: resolvedGraph_def)
  have refs: "distinct (map (nd_nodeRef \<circ> fst) (tr_resolved s))"
    using s(1) by (simp add: bfs_inv_def bfs_sound_def)
  have node: "n \<in> set (gv_nodes g) \<and> active h n (gv_now g)
      \<and> restrictionsAt (gv_restrictions g) (nd_nodeRef n) = [] \<and> k \<le> gv_maxDepth g"
    if "(n, k) \<in> set (tr_resolved s)" for n k
  proof -
    have n: "findNode (gv_nodes g) (nd_nodeRef n) = Some n" "route h g k (nd_nodeRef n)"
      using that s by (simp_all add: resolved_node [OF s(1)] resolved_shortest [OF s] shortest_def)
    then have "open_node h g (nd_nodeRef n)"
      using route_open ok by (auto simp: graph_view_ok_def)
    then show ?thesis
      using n route_depth findNode_Some [OF n(1)] by (simp add: open_node_def)
  qed
  have "(\<lambda>(n, k). nd_nodeRef n) ` set (tr_resolved s) \<subseteq> nd_nodeRef ` set (gv_nodes g)"
    using node by auto
  then have "card ((nd_nodeRef \<circ> fst) ` set (tr_resolved s)) \<le> card (nd_nodeRef ` set (gv_nodes g))"
    by (intro card_mono) (auto simp: case_prod_beta)
  also have "\<dots> \<le> length (gv_nodes g)"
    by (metis card_length length_map set_map)
  finally have "length (tr_resolved s) \<le> length (gv_nodes g)"
    using distinct_card [OF refs] by simp
  moreover have "distinct (map (nd_nodeRef \<circ> fst) (ge_nodes r))"
    using refs r(1) by (metis mset_eq_imp_distinct_iff mset_map)
  ultimately show ?thesis
    using g ok r node readGraph_facts [OF g] mset_eq_length [OF r(1)] mset_eq_setD [OF r(1)]
    by (intro exI [of _ g] exI [of _ "gv_tenantRef g"])
      (auto simp: graph_view_ok_def open_node_def absoluteMaxNodes_def absoluteMaxDepth_def)
qed

section \<open>The traversal always returns\<close>

text \<open>Every time a record of the snapshot carries can be read.\<close>

definition readable :: "host \<Rightarrow> graph_view \<Rightarrow> bool" where
  "readable h g = ((\<forall>n\<in>set (gv_nodes g). is_ok (recordIsActive h n (gv_now g)))
     \<and> (\<forall>e\<in>set (gv_edges g). is_ok (recordIsActive h e (gv_now g))))"

lemma res_fold_total:
  assumes "\<And>s x. x \<in> set xs \<Longrightarrow> is_ok (f s x)"
  shows "is_ok (res_fold f s xs)"
  using assms
proof (induction xs arbitrary: s)
  case (Cons x xs)
  then have "is_ok (f s x)" by simp
  then obtain s' where "f s x = Inr s'" by (auto simp: is_ok_iff)
  with Cons show ?case by simp
qed simp

lemma visitEdge_total:
  assumes "readable h g" "e \<in> set (gv_edges g)"
  shows "is_ok (visitEdge h g d s e)"
proof -
  obtain b where "recordIsActive h e (gv_now g) = Inr b"
    using assms by (auto simp: readable_def is_ok_iff)
  moreover have "\<exists>b. recordIsActive h n (gv_now g) = Inr b" if "findNode (gv_nodes g) r = Some n" for n r
    using that assms findNode_Some by (fastforce simp: readable_def is_ok_iff)
  ultimately show ?thesis
    by (fastforce simp: visitEdge_def Let_def split: option.splits)
qed

lemma visitNode_total:
  assumes "readable h g"
  shows "is_ok (visitNode h g r d s)"
proof (cases "findNode (gv_nodes g) r")
  case (Some n)
  then obtain b where b: "recordIsActive h n (gv_now g) = Inr b"
    using assms findNode_Some by (fastforce simp: readable_def is_ok_iff)
  have "is_ok (res_fold (visitEdge h g d) s' (adjacency h (gv_relationTypes g) (gv_edges g) r))" for s'
    by (rule res_fold_total) (auto intro!: visitEdge_total assms simp: adjacency_def)
  with Some b show ?thesis by (simp add: visitNode_def)
qed (simp add: visitNode_def)

lemma traverse_throw_unreadable: "traverse h g s = Inl (Throws e) \<Longrightarrow> \<not> readable h g"
proof (induction h g s rule: traverse.induct)
  case (1 h g s)
  show ?case
  proof
    assume readable: "readable h g"
    have total: "\<exists>s'. visitNode h g r d t = Inr s'" for r d t
      using visitNode_total [OF readable] by (auto simp: is_ok_iff)
    show False
    proof (cases "tr_queue s")
      case Nil
      then show ?thesis using "1.prems" by (simp add: traverse.simps [of h g s])
    next
      case (Cons y q)
      obtain r d where y: "y = (r, d)" by (cases y)
      show ?thesis
      proof (cases "r \<in> set (tr_visited s)")
        case True
        then have "traverse h g (s\<lparr>tr_queue := q\<rparr>) = Inl (Throws e)"
          using "1.prems" Cons y by (simp add: traverse.simps [of h g s])
        then show ?thesis
          using "1.IH"(1) [OF Cons y [symmetric] True] readable by blast
      next
        case False
        let ?s = "s\<lparr>tr_queue := q, tr_visited := r # tr_visited s\<rparr>"
        obtain s1 where s1: "visitNode h g r d ?s = Inr s1"
          using total by blast
        have le: "\<not> gv_maxNodes g < Suc (length (tr_visited s))" and "traverse h g s1 = Inl (Throws e)"
          using "1.prems" Cons y False s1 by (auto simp: traverse.simps [of h g s] throwing_def split: if_splits)
        then show ?thesis
          using "1.IH"(2) [OF Cons y [symmetric] False le, of s1] s1 readable by (simp add: throwing_def)
      qed
    qed
  qed
qed

text \<open>
  C21. The search loop always ends, and never by its own node limit: once a snapshot with
  readable times has passed validation, the traversal returns a state with an empty queue,
  and the decision is a resolution whenever the snapshot's provenance fields are valid.
\<close>
theorem graph_traversal_returns:
  assumes "readGraph h clock arg = Inr g" and "readable h g"
    and "optionalIdentifier h (get (get arg ''snapshot'') ''sourceRef'') ''snapshot.sourceRef'' = Inr src"
    and "optionalIdentifier h (get (get arg ''snapshot'') ''versionRef'') ''snapshot.versionRef'' = Inr ver"
  shows "\<exists>s. traverse h g (start g) = Inr s \<and> tr_queue s = []
    \<and> evaluateBoundedResourceGraph h clock arg = Inr (resolvedGraph h g s src ver)"
proof (cases "traverse h g (start g)")
  case (Inl x)
  have "graph_view_ok h g"
    using assms(1) by (rule readGraph_ok)
  then obtain e where "x = Throws e"
    using traverse_only_throws [OF bfs_inv_start _ _ Inl] by (auto simp: graph_view_ok_def)
  then show ?thesis
    using Inl assms(2) traverse_throw_unreadable by blast
next
  case (Inr s)
  then have "tr_queue s = []"
    using traverse_inv [OF bfs_inv_start _ Inr] readGraph_ok [OF assms(1)] by (simp add: graph_view_ok_def)
  then show ?thesis
    using Inr assms by (simp add: evaluateBoundedResourceGraph_def exitDecision_def throwing_def Let_def)
qed

section \<open>An example\<close>

definition demo_node :: "string \<Rightarrow> jsval" where
  "demo_node r = JObj [(''nodeRef'', JStr r), (''resourceType'', JStr ''site''), (''resourceRef'', JStr r),
     (''tenantRef'', JStr ''t1''), (''status'', JStr ''active'')]"

definition demo_edge :: "string \<Rightarrow> string \<Rightarrow> string \<Rightarrow> jsval" where
  "demo_edge e a b = JObj [(''edgeRef'', JStr e), (''sourceNodeRef'', JStr a), (''targetNodeRef'', JStr b),
     (''relationType'', JStr ''owns''), (''inheritancePolicyKey'', JStr ''pk''), (''status'', JStr ''active'')]"

text \<open>Two ways lead from \<open>a\<close> to \<open>c\<close>, and a cycle leads back.\<close>

definition demo_graph_arg :: jsval where
  "demo_graph_arg = JObj [(''snapshot'', JObj [(''nodes'', JArr [demo_node ''a'', demo_node ''b'', demo_node ''c'']),
       (''edges'', JArr [demo_edge ''e1'' ''a'' ''b'', demo_edge ''e2'' ''b'' ''c'', demo_edge ''e3'' ''a'' ''c'',
          demo_edge ''e4'' ''c'' ''a''])]),
     (''tenantRef'', JStr ''t1''), (''rootNodeRef'', JStr ''a''), (''rootResourceType'', JStr ''site''),
     (''rootResourceRef'', JStr ''a''), (''relationTypes'', JArr [JStr ''owns'']),
     (''inheritancePolicyKeys'', JArr [JStr ''pk'']), (''operationIntent'', JStr ''read''),
     (''now'', JDate (Some 5000))]"

definition demo_graph_nodes :: "graph_decision res \<Rightarrow> (string \<times> nat) list" where
  "demo_graph_nodes m = (case m of Inl _ \<Rightarrow> [] | Inr d \<Rightarrow> (case gd_resolution d of None \<Rightarrow> []
     | Some r \<Rightarrow> map (\<lambda>(n, k). (nd_nodeRef n, k)) (ge_nodes r)))"

lemma demo_graph_eval:
  "demo_graph_nodes (evaluateBoundedResourceGraph plain_host 0 demo_graph_arg) = [(''a'', 0), (''b'', 1), (''c'', 1)]"
  by code_simp

lemma demo_graph_resolved:
  obtains d r where "evaluateBoundedResourceGraph plain_host 0 demo_graph_arg = Inr d" "gd_resolution d = Some r"
    "map (\<lambda>(n, k). (nd_nodeRef n, k)) (ge_nodes r) = [(''a'', 0), (''b'', 1), (''c'', 1)]"
  using demo_graph_eval by (auto simp: demo_graph_nodes_def split: sum.splits option.splits)

theorem graph_resolution_exact_witness:
  "\<exists>g. readGraph plain_host 0 demo_graph_arg = Inr g \<and> shortest plain_host g 1 ''c''"
proof -
  obtain d r where d: "evaluateBoundedResourceGraph plain_host 0 demo_graph_arg = Inr d" "gd_resolution d = Some r"
      "map (\<lambda>(n, k). (nd_nodeRef n, k)) (ge_nodes r) = [(''a'', 0), (''b'', 1), (''c'', 1)]"
    by (rule demo_graph_resolved)
  have "(''c'', 1) \<in> set (map (\<lambda>(n, k). (nd_nodeRef n, k)) (ge_nodes r))"
    unfolding d(3) by simp
  then obtain n where "(n, 1) \<in> set (ge_nodes r)" "nd_nodeRef n = ''c''" by auto
  then show ?thesis
    using graph_resolution_exact [OF d(1,2)] by metis
qed

theorem graph_resolution_bounded_witness:
  "\<exists>d r. evaluateBoundedResourceGraph plain_host 0 demo_graph_arg = Inr d \<and> gd_resolution d = Some r
     \<and> length (ge_nodes r) = 3 \<and> bo_maxNodes (ge_bounds r) \<le> 250"
proof -
  obtain d r where d: "evaluateBoundedResourceGraph plain_host 0 demo_graph_arg = Inr d" "gd_resolution d = Some r"
      "map (\<lambda>(n, k). (nd_nodeRef n, k)) (ge_nodes r) = [(''a'', 0), (''b'', 1), (''c'', 1)]"
    by (rule demo_graph_resolved)
  have "length (ge_nodes r) = 3"
    using arg_cong [OF d(3), of length] by simp
  then show ?thesis
    using graph_resolution_bounded [OF d(1,2)] d(1,2) by blast
qed

definition demo_readable :: "graph_exit + graph_view \<Rightarrow> bool" where
  "demo_readable m = (case m of Inl _ \<Rightarrow> False | Inr g \<Rightarrow> readable plain_host g)"

theorem graph_traversal_returns_witness:
  "\<exists>g s. readGraph plain_host 0 demo_graph_arg = Inr g \<and> traverse plain_host g (start g) = Inr s \<and> tr_queue s = []"
proof -
  have "demo_readable (readGraph plain_host 0 demo_graph_arg)"
    by code_simp
  then obtain g where g: "readGraph plain_host 0 demo_graph_arg = Inr g" "readable plain_host g"
    by (auto simp: demo_readable_def split: sum.splits)
  have "optionalIdentifier plain_host (get (get demo_graph_arg ''snapshot'') f) f' = Inr None"
    if "f = ''sourceRef'' \<or> f = ''versionRef''" for f f'
    using that by (auto simp: demo_graph_arg_def optionalIdentifier_def optional_with_def own_get_def object_prototype_def)
  then have src: "optionalIdentifier plain_host (get (get demo_graph_arg ''snapshot'') ''sourceRef'') ''snapshot.sourceRef'' = Inr None"
      "optionalIdentifier plain_host (get (get demo_graph_arg ''snapshot'') ''versionRef'') ''snapshot.versionRef'' = Inr None"
    by simp_all
  obtain s where "traverse plain_host g (start g) = Inr s" "tr_queue s = []"
    using graph_traversal_returns [OF g src] by (elim exE conjE)
  then show ?thesis
    using g(1) by (intro exI [of _ g] exI [of _ s]) simp
qed

end
