(* ===== verification/Kernel_Parity.thy ===== *)
theory Kernel_Parity
  imports Kernel_Ident
begin

text \<open>
  \<^verbatim>\<open>contextKernel/domain/shadowAuthorityParityDecision.js\<close>: the comparison of what
  a legacy resolver and the new resolver decided, run in shadow. A snapshot of each side is
  normalised, every defect becoming an issue; the sides match when nothing differs and
  nothing is wrong with either. The last section characterises a match and the direction
  in which the new resolver may grant more.
\<close>

section \<open>Limits and tokens\<close>

definition maxIdentityRefsPerDimension :: nat where "maxIdentityRefsPerDimension = 200"

definition maxReasonCodes :: nat where "maxReasonCodes = 200"

definition maxReadinessDimensions :: nat where "maxReadinessDimensions = 100"

definition maxDataQualityIssues :: nat where "maxDataQualityIssues = 100"

definition maxUnsupportedSemantics :: nat where "maxUnsupportedSemantics = 100"

definition IDENTITY_DIMENSIONS :: "string list" where
  "IDENTITY_DIMENSIONS = [''resourceRefs'', ''capabilityKeys'', ''connectionRefs'', ''actionKeys'']"

definition SIDE_EFFECT_FLAGS :: "string list" where
  "SIDE_EFFECT_FLAGS = [''executionPerformed'', ''providerCallMade'', ''automaticWritePerformed'',
     ''credentialPayloadRead'', ''secretsIncluded'']"

text \<open>The token pattern is the identifier pattern of the evidence modules.\<close>

definition requireToken :: "host \<Rightarrow> jsval \<Rightarrow> string \<Rightarrow> string res" where
  "requireToken h value fieldName = (let normalized = trim (string_or_empty h value) in
     if normalized = [] \<or> \<not> IDENTIFIER_PATTERN normalized
     then Inl (TypeError (fieldName @ '' must be a stable token.'')) else Inr normalized)"

text \<open>
  The mutable \<^verbatim>\<open>issues\<close> array is threaded: every operation returns the issues it
  adds, in order.
\<close>

definition normalizeOptionalToken :: "host \<Rightarrow> jsval \<Rightarrow> string \<Rightarrow> string \<Rightarrow> string option \<times> string list" where
  "normalizeOptionalToken h value fieldName issueCode =
     (if absent value then (None, [])
      else case requireToken h value fieldName of Inl _ \<Rightarrow> (None, [issueCode]) | Inr t \<Rightarrow> (Some t, []))"

fun tokenLoop :: "host \<Rightarrow> string \<Rightarrow> string list \<Rightarrow> jsval list \<Rightarrow> string list \<times> string list" where
  "tokenLoop h fieldName seen [] = ([], [])"
| "tokenLoop h fieldName seen (v # vs) = (case requireToken h v fieldName of
      Inl _ \<Rightarrow> (let (ts, is) = tokenLoop h fieldName seen vs in (ts, (fieldName @ ''_invalid_ref'') # is))
    | Inr t \<Rightarrow>
        if t \<in> set seen
        then (let (ts, is) = tokenLoop h fieldName seen vs in (ts, (fieldName @ ''_duplicate_ref'') # is))
        else (let (ts, is) = tokenLoop h fieldName (t # seen) vs in (t # ts, is)))"

definition normalizeTokenList :: "host \<Rightarrow> jsval \<Rightarrow> string \<Rightarrow> nat \<Rightarrow> string list \<times> string list" where
  "normalizeTokenList h value fieldName limit = (case value of
     JArr vs \<Rightarrow>
       if limit < length vs then ([], [fieldName @ ''_limit_exceeded''])
       else (let (ts, is) = tokenLoop h fieldName [] vs in (sort_strings ts, is))
   | _ \<Rightarrow> ([], [fieldName @ ''_not_array'']))"

section \<open>Readiness\<close>

text \<open>
  \<^verbatim>\<open>Object.entries\<close>: array indices first, in ascending order, then the other keys
  in the order of insertion.
\<close>

definition is_index :: "string \<Rightarrow> bool" where
  "is_index s = (s \<noteq> [] \<and> list_all is_digit s \<and> (s = ''0'' \<or> hd s \<noteq> CHR ''0'') \<and> undigits s < 4294967295)"

definition own_entries :: "(string \<times> jsval) list \<Rightarrow> (string \<times> jsval) list" where
  "own_entries kvs = sort_by (key (undigits \<circ> fst) default) (filter (is_index \<circ> fst) kvs)
     @ filter (\<lambda>kv. \<not> is_index (fst kv)) kvs"

fun readinessLoop :: "host \<Rightarrow> (string \<times> string) list \<Rightarrow> (string \<times> jsval) list
    \<Rightarrow> (string \<times> string) list \<times> string list" where
  "readinessLoop h result [] = (result, [])"
| "readinessLoop h result ((rawKey, rawValue) # kvs) =
     (case res_bind (requireToken h (JStr rawKey) ''readinessDimensions.key'') (\<lambda>k.
        res_bind (requireToken h rawValue (''readinessDimensions.'' @ k)) (\<lambda>state. Inr (k, state))) of
        Inl _ \<Rightarrow> (let (r, is) = readinessLoop h result kvs in (r, ''readiness_dimension_invalid'' # is))
      | Inr (k, state) \<Rightarrow> readinessLoop h (map_set k state result) kvs)"

definition object_entries :: "jsval \<Rightarrow> (string \<times> jsval) list" where
  "object_entries v = (case v of JObj kvs \<Rightarrow> own_entries kvs | _ \<Rightarrow> [])"

definition normalizeReadinessDimensions :: "host \<Rightarrow> jsval \<Rightarrow> (string \<times> string) list \<times> string list" where
  "normalizeReadinessDimensions h value =
     (if \<not> is_object value then ([], [''readiness_dimensions_not_object''])
      else if maxReadinessDimensions < length (object_entries value)
      then ([], [''readiness_dimensions_limit_exceeded''])
      else (let (r, is) = readinessLoop h [] (object_entries value) in
        (sort_by (key fst (collate h)) r, is)))"

section \<open>Snapshots\<close>

record parity_snapshot =
  ps_source :: string
  ps_resolverKey :: "string option"
  ps_authorityAllowed :: bool
  ps_executionEligible :: bool
  ps_identitySets :: "(string \<times> string list) list"
  ps_reasonCodes :: "string list"
  ps_readinessDimensions :: "(string \<times> string) list"
  ps_dataQualityIssues :: "string list"
  ps_unsupportedSemantics :: "string list"
  ps_evaluatedAt :: "string option"
  ps_expiresAt :: "string option"
  ps_manifestRef :: "string option"
  ps_revisionRef :: "string option"

record normalization =
  nz_snapshot :: "parity_snapshot option"
  nz_issues :: "string list"
  nz_stale :: bool
  nz_unsupported :: bool
  nz_dataQualityDetected :: bool
  nz_sideEffectDetected :: bool

definition emptyNormalization :: "string \<Rightarrow> normalization" where
  "emptyNormalization expectedSource = \<lparr>nz_snapshot = None, nz_issues = [expectedSource @ ''_snapshot_not_object''],
     nz_stale = False, nz_unsupported = False, nz_dataQualityDetected = True, nz_sideEffectDetected = False\<rparr>"

text \<open>
  The \<^verbatim>\<open>try\<close> block that reads the metadata: an exception keeps the assignments made
  before it.
\<close>

record snapshot_metadata =
  sm_source :: "string option"
  sm_resolverKey :: "string option"
  sm_evaluatedAt :: "int option"
  sm_expiresAt :: "int option"
  sm_failed :: bool

definition readMetadata :: "host \<Rightarrow> jsval \<Rightarrow> string \<Rightarrow> snapshot_metadata" where
  "readMetadata h snapshot expectedSource = (let
     m0 = \<lparr>sm_source = None, sm_resolverKey = None, sm_evaluatedAt = None, sm_expiresAt = None, sm_failed = True\<rparr> in
     case requireToken h (get snapshot ''source'') (expectedSource @ ''.source'') of Inl _ \<Rightarrow> m0
   | Inr source \<Rightarrow> (let m1 = m0\<lparr>sm_source := Some (to_lower source)\<rparr> in
     case requireToken h (get snapshot ''resolverKey'') (expectedSource @ ''.resolverKey'') of Inl _ \<Rightarrow> m1
   | Inr resolverKey \<Rightarrow> (let m2 = m1\<lparr>sm_resolverKey := Some resolverKey\<rparr> in
     case normalizeTimestamp h (get snapshot ''evaluatedAt'') (expectedSource @ ''.evaluatedAt'') of Inl _ \<Rightarrow> m2
   | Inr evaluatedAt \<Rightarrow> (let m3 = m2\<lparr>sm_evaluatedAt := evaluatedAt\<rparr> in
     case normalizeTimestamp h (get snapshot ''expiresAt'') (expectedSource @ ''.expiresAt'') of Inl _ \<Rightarrow> m3
   | Inr expiresAt \<Rightarrow> m3\<lparr>sm_expiresAt := expiresAt, sm_failed := False\<rparr>))))"

definition issue_if :: "bool \<Rightarrow> string \<Rightarrow> string list" where
  "issue_if b i = (if b then [i] else [])"

definition metadataIssues :: "snapshot_metadata \<Rightarrow> string \<Rightarrow> string list" where
  "metadataIssues m expectedSource =
     issue_if (sm_failed m) (expectedSource @ ''_snapshot_metadata_invalid'')
     @ issue_if (sm_source m \<noteq> None \<and> sm_source m \<noteq> Some expectedSource) (expectedSource @ ''_source_mismatch'')
     @ issue_if (sm_evaluatedAt m = None) (expectedSource @ ''_evaluated_at_required'')
     @ issue_if (sm_expiresAt m = None) (expectedSource @ ''_expires_at_required'')"

definition normalizeIdentitySets :: "host \<Rightarrow> jsval \<Rightarrow> string \<Rightarrow> (string \<times> string list) list \<times> string list" where
  "normalizeIdentitySets h identitySetsInput expectedSource =
     (let rs = map (\<lambda>d. (d, normalizeTokenList h (get identitySetsInput d) (expectedSource @ ''_'' @ d)
          maxIdentityRefsPerDimension)) IDENTITY_DIMENSIONS in
      (map (\<lambda>(d, ts, _). (d, ts)) rs,
       issue_if (\<not> is_object identitySetsInput) (expectedSource @ ''_identity_sets_not_object'')
       @ concat (map (\<lambda>(_, _, is). is) rs)))"

definition normalizeSnapshot :: "host \<Rightarrow> jsval \<Rightarrow> string \<Rightarrow> int \<Rightarrow> normalization" where
  "normalizeSnapshot h snapshot expectedSource now =
     (if \<not> is_object snapshot then emptyNormalization expectedSource
      else let
        m = readMetadata h snapshot expectedSource;
        (identitySets, is1) = normalizeIdentitySets h (get snapshot ''identitySets'') expectedSource;
        (reasonCodes, is2) = normalizeTokenList h (get snapshot ''reasonCodes'')
          (expectedSource @ ''_reason_codes'') maxReasonCodes;
        (dataQualityIssues, is3) = normalizeTokenList h (js_or (get snapshot ''dataQualityIssues'') (JArr []))
          (expectedSource @ ''_data_quality_issues'') maxDataQualityIssues;
        (unsupportedSemantics, is4) = normalizeTokenList h (js_or (get snapshot ''unsupportedSemantics'') (JArr []))
          (expectedSource @ ''_unsupported_semantics'') maxUnsupportedSemantics;
        (readinessDimensions, is5) = normalizeReadinessDimensions h (get snapshot ''readinessDimensions'');
        (manifestRef, is6) = normalizeOptionalToken h (get snapshot ''manifestRef'')
          (expectedSource @ ''.manifestRef'') (expectedSource @ ''_manifest_ref_invalid'');
        (revisionRef, is7) = normalizeOptionalToken h (get snapshot ''revisionRef'')
          (expectedSource @ ''.revisionRef'') (expectedSource @ ''_revision_ref_invalid'');
        issues = metadataIssues m expectedSource @ is1 @ is2 @ is3 @ is4 @ is5 @ is6 @ is7
      in \<lparr>nz_snapshot = Some \<lparr>ps_source = (case sm_source m of None \<Rightarrow> expectedSource | Some s \<Rightarrow> s),
            ps_resolverKey = sm_resolverKey m,
            ps_authorityAllowed = strict_eq (get snapshot ''authorityAllowed'') (JBool True),
            ps_executionEligible = strict_eq (get snapshot ''executionEligible'') (JBool True),
            ps_identitySets = identitySets, ps_reasonCodes = reasonCodes,
            ps_readinessDimensions = readinessDimensions, ps_dataQualityIssues = dataQualityIssues,
            ps_unsupportedSemantics = unsupportedSemantics,
            ps_evaluatedAt = map_option iso_string (sm_evaluatedAt m),
            ps_expiresAt = map_option iso_string (sm_expiresAt m),
            ps_manifestRef = manifestRef, ps_revisionRef = revisionRef\<rparr>,
          nz_issues = issues,
          nz_stale = ((case sm_evaluatedAt m of None \<Rightarrow> False | Some t \<Rightarrow> now < t)
            \<or> (case sm_expiresAt m of None \<Rightarrow> False | Some t \<Rightarrow> t \<le> now)),
          nz_unsupported = (unsupportedSemantics \<noteq> []),
          nz_dataQualityDetected = (dataQualityIssues \<noteq> [] \<or> issues \<noteq> []),
          nz_sideEffectDetected = list_ex (\<lambda>flag. strict_eq (get snapshot flag) (JBool True)) SIDE_EFFECT_FLAGS\<rparr>)"

section \<open>Comparison\<close>

record token_difference =
  td_legacyOnly :: "string list"
  td_effectiveOnly :: "string list"
  td_shared :: "string list"

definition compareTokenSets :: "string list \<Rightarrow> string list \<Rightarrow> token_difference" where
  "compareTokenSets legacyValues effectiveValues =
     \<lparr>td_legacyOnly = filter (\<lambda>v. v \<notin> set effectiveValues) legacyValues,
      td_effectiveOnly = filter (\<lambda>v. v \<notin> set legacyValues) effectiveValues,
      td_shared = filter (\<lambda>v. v \<in> set effectiveValues) legacyValues\<rparr>"

record readiness_difference =
  rd_dimension :: string
  rd_legacyState :: jsval
  rd_effectiveState :: jsval

text \<open>
  \<^verbatim>\<open>states[dimension]\<close>: a plain object also answers for the names it inherits from
  \<^verbatim>\<open>Object.prototype\<close>.
\<close>

definition state_of :: "(string \<times> string) list \<Rightarrow> string \<Rightarrow> jsval" where
  "state_of states dimension = own_get (map (\<lambda>(k, s). (k, JStr s)) states) dimension"

definition compareReadiness :: "(string \<times> string) list \<Rightarrow> (string \<times> string) list \<Rightarrow> readiness_difference list" where
  "compareReadiness legacy effective =
     map (\<lambda>d. \<lparr>rd_dimension = d, rd_legacyState = js_or (state_of legacy d) JNull,
         rd_effectiveState = js_or (state_of effective d) JNull\<rparr>)
       (filter (\<lambda>d. state_of legacy d \<noteq> state_of effective d)
         (sort_strings (uniq (map fst legacy @ map fst effective))))"

definition addGrantDirectionClasses :: "bool \<Rightarrow> bool \<Rightarrow> string list" where
  "addGrantDirectionClasses legacyHasMore effectiveHasMore =
     (if legacyHasMore then [''legacy_over_grant'', ''new_resolver_under_grant''] else [])
     @ (if effectiveHasMore then [''legacy_under_grant'', ''new_resolver_over_grant''] else [])"

section \<open>The decision\<close>

record parity_safety =
  py_shadowMode :: bool
  py_parityOnly :: bool
  py_rolloutApproved :: bool
  py_authorityGranted :: bool
  py_executionAuthorized :: bool
  py_executionPerformed :: bool
  py_runtimeAuthorityChanged :: bool
  py_automaticWritePerformed :: bool
  py_providerCallMade :: bool
  py_credentialPayloadRead :: bool
  py_secretsIncluded :: bool

definition baseSafety :: parity_safety where
  "baseSafety = \<lparr>py_shadowMode = True, py_parityOnly = True, py_rolloutApproved = False,
     py_authorityGranted = False, py_executionAuthorized = False, py_executionPerformed = False,
     py_runtimeAuthorityChanged = False, py_automaticWritePerformed = False, py_providerCallMade = False,
     py_credentialPayloadRead = False, py_secretsIncluded = False\<rparr>"

record parity_details =
  pt_legacy :: parity_snapshot
  pt_effective :: parity_snapshot
  pt_identityDifferences :: "(string \<times> token_difference) list"
  pt_authorityAllowed :: "bool \<times> bool"
  pt_executionEligible :: "bool \<times> bool"
  pt_reasonCodes :: token_difference
  pt_readinessDimensions :: "readiness_difference list"

record parity_decision =
  pd_status :: string
  pd_parityStatus :: string
  pd_matched :: bool
  pd_mismatchClasses :: "string list"
  pd_reasonCodes :: "string list"
  pd_legacyIssues :: "string list"
  pd_effectiveIssues :: "string list"
  pd_securityRelevant :: bool
  pd_rolloutBlocked :: bool
  pd_evaluatedAt :: string
  pd_details :: "parity_details option"
  pd_safety :: parity_safety

text \<open>The classes and reasons that the normalisation alone gives.\<close>

definition initialClasses :: "normalization \<Rightarrow> normalization \<Rightarrow> string list" where
  "initialClasses legacy effective =
     issue_if (nz_dataQualityDetected legacy \<or> nz_dataQualityDetected effective) ''data_quality_mismatch''
     @ issue_if (nz_stale legacy \<or> nz_stale effective) ''stale_projection''
     @ issue_if (nz_unsupported legacy) ''unsupported_legacy_semantics''"

definition initialReasons :: "normalization \<Rightarrow> normalization \<Rightarrow> string list" where
  "initialReasons legacy effective =
     issue_if (nz_sideEffectDetected legacy \<or> nz_sideEffectDetected effective) ''SHADOW_SIDE_EFFECT_INVARIANT_VIOLATED''
     @ issue_if (nz_dataQualityDetected legacy \<or> nz_dataQualityDetected effective) ''SHADOW_PARITY_DATA_QUALITY_MISMATCH''
     @ issue_if (nz_stale legacy \<or> nz_stale effective) ''SHADOW_PARITY_STALE_PROJECTION''
     @ issue_if (nz_unsupported legacy) ''SHADOW_PARITY_UNSUPPORTED_LEGACY_SEMANTICS''"

definition identity_set :: "parity_snapshot \<Rightarrow> string \<Rightarrow> string list" where
  "identity_set s dimension = (case map_of (ps_identitySets s) dimension of None \<Rightarrow> [] | Some ts \<Rightarrow> ts)"

definition identityDifferences :: "parity_snapshot \<Rightarrow> parity_snapshot \<Rightarrow> (string \<times> token_difference) list" where
  "identityDifferences l e =
     map (\<lambda>d. (d, compareTokenSets (identity_set l d) (identity_set e d))) IDENTITY_DIMENSIONS"

definition legacyGrantsMore :: "parity_snapshot \<Rightarrow> parity_snapshot \<Rightarrow> bool" where
  "legacyGrantsMore l e =
     (list_ex (\<lambda>(_, d). td_legacyOnly d \<noteq> []) (identityDifferences l e)
      \<or> ps_authorityAllowed l \<and> \<not> ps_authorityAllowed e
      \<or> ps_executionEligible l \<and> \<not> ps_executionEligible e)"

definition effectiveGrantsMore :: "parity_snapshot \<Rightarrow> parity_snapshot \<Rightarrow> bool" where
  "effectiveGrantsMore l e =
     (list_ex (\<lambda>(_, d). td_effectiveOnly d \<noteq> []) (identityDifferences l e)
      \<or> ps_authorityAllowed e \<and> \<not> ps_authorityAllowed l
      \<or> ps_executionEligible e \<and> \<not> ps_executionEligible l)"

definition comparedDecision :: "normalization \<Rightarrow> normalization \<Rightarrow> parity_snapshot \<Rightarrow> parity_snapshot \<Rightarrow> int \<Rightarrow> parity_decision" where
  "comparedDecision legacy effective l e now = (let
     reasonDifference = compareTokenSets (ps_reasonCodes l) (ps_reasonCodes e);
     readinessDifferences = compareReadiness (ps_readinessDimensions l) (ps_readinessDimensions e);
     evidenceDiffers = (td_legacyOnly reasonDifference \<noteq> [] \<or> td_effectiveOnly reasonDifference \<noteq> []
       \<or> readinessDifferences \<noteq> []);
     sideEffect = (nz_sideEffectDetected legacy \<or> nz_sideEffectDetected effective);
     classes = initialClasses legacy effective
       @ addGrantDirectionClasses (legacyGrantsMore l e) (effectiveGrantsMore l e)
       @ issue_if evidenceDiffers ''data_quality_mismatch''
       @ issue_if sideEffect ''data_quality_mismatch'';
     matched = (classes = []);
     reasonCodes = initialReasons legacy effective
       @ issue_if evidenceDiffers ''SHADOW_PARITY_DECISION_EVIDENCE_MISMATCH''
       @ issue_if matched ''SHADOW_PARITY_MATCHED''
   in \<lparr>pd_status = (if matched then ''matched'' else ''mismatched''),
       pd_parityStatus = (if matched then ''pass'' else ''blocked''), pd_matched = matched,
       pd_mismatchClasses = sort_strings (uniq classes), pd_reasonCodes = sort_strings (uniq reasonCodes),
       pd_legacyIssues = sort_strings (nz_issues legacy), pd_effectiveIssues = sort_strings (nz_issues effective),
       pd_securityRelevant = (''legacy_over_grant'' \<in> set classes \<or> ''new_resolver_over_grant'' \<in> set classes
         \<or> sideEffect),
       pd_rolloutBlocked = (\<not> matched), pd_evaluatedAt = iso_string now,
       pd_details = Some \<lparr>pt_legacy = l, pt_effective = e, pt_identityDifferences = identityDifferences l e,
         pt_authorityAllowed = (ps_authorityAllowed l, ps_authorityAllowed e),
         pt_executionEligible = (ps_executionEligible l, ps_executionEligible e),
         pt_reasonCodes = reasonDifference, pt_readinessDimensions = readinessDifferences\<rparr>,
       pd_safety = baseSafety\<rparr>)"

definition blockedParity :: "normalization \<Rightarrow> normalization \<Rightarrow> int \<Rightarrow> parity_decision" where
  "blockedParity legacy effective now =
     \<lparr>pd_status = ''blocked'', pd_parityStatus = ''blocked'', pd_matched = False,
      pd_mismatchClasses = sort_strings (uniq (initialClasses legacy effective)),
      pd_reasonCodes = sort_strings (uniq (initialReasons legacy effective)),
      pd_legacyIssues = sort_strings (nz_issues legacy), pd_effectiveIssues = sort_strings (nz_issues effective),
      pd_securityRelevant = True, pd_rolloutBlocked = True, pd_evaluatedAt = iso_string now,
      pd_details = None, pd_safety = baseSafety\<rparr>"

definition evaluateShadowAuthorityParity :: "host \<Rightarrow> int \<Rightarrow> jsval \<Rightarrow> parity_decision res" where
  "evaluateShadowAuthorityParity h clock arg =
     res_bind (evaluated_now h clock (get arg ''now'')) (\<lambda>now. let
       legacy = normalizeSnapshot h (get arg ''legacySnapshot'') ''legacy'' now;
       effective = normalizeSnapshot h (get arg ''effectiveSnapshot'') ''effective'' now in
       Inr (case (nz_snapshot legacy, nz_snapshot effective) of
           (Some l, Some e) \<Rightarrow> comparedDecision legacy effective l e now
         | _ \<Rightarrow> blockedParity legacy effective now))"

section \<open>What a match means\<close>

text \<open>A side that is fit for comparison.\<close>

definition clean :: "normalization \<Rightarrow> bool" where
  "clean n = (nz_issues n = [] \<and> \<not> nz_stale n \<and> \<not> nz_sideEffectDetected n \<and> \<not> nz_dataQualityDetected n)"

definition same_grants :: "parity_snapshot \<Rightarrow> parity_snapshot \<Rightarrow> bool" where
  "same_grants l e =
     ((\<forall>d\<in>set IDENTITY_DIMENSIONS. set (identity_set l d) = set (identity_set e d))
      \<and> ps_authorityAllowed l = ps_authorityAllowed e \<and> ps_executionEligible l = ps_executionEligible e)"

definition same_evidence :: "parity_snapshot \<Rightarrow> parity_snapshot \<Rightarrow> bool" where
  "same_evidence l e = (set (ps_reasonCodes l) = set (ps_reasonCodes e)
     \<and> map_of (ps_readinessDimensions l) = map_of (ps_readinessDimensions e))"

lemma issue_if_Nil [simp]: "issue_if b i = [] \<longleftrightarrow> \<not> b"
  by (simp add: issue_if_def)

lemma set_issue_if [simp]: "set (issue_if b i) = (if b then {i} else {})"
  by (simp add: issue_if_def)

lemma compareTokenSets_Nil:
  "td_legacyOnly (compareTokenSets xs ys) = [] \<longleftrightarrow> set xs \<subseteq> set ys"
  "td_effectiveOnly (compareTokenSets xs ys) = [] \<longleftrightarrow> set ys \<subseteq> set xs"
  by (auto simp: compareTokenSets_def filter_empty_conv)

lemma grants_more_iff:
  "legacyGrantsMore l e \<longleftrightarrow> (\<exists>d\<in>set IDENTITY_DIMENSIONS. \<not> set (identity_set l d) \<subseteq> set (identity_set e d))
     \<or> ps_authorityAllowed l \<and> \<not> ps_authorityAllowed e \<or> ps_executionEligible l \<and> \<not> ps_executionEligible e"
  "effectiveGrantsMore l e \<longleftrightarrow> (\<exists>d\<in>set IDENTITY_DIMENSIONS. \<not> set (identity_set e d) \<subseteq> set (identity_set l d))
     \<or> ps_authorityAllowed e \<and> \<not> ps_authorityAllowed l \<or> ps_executionEligible e \<and> \<not> ps_executionEligible l"
  unfolding legacyGrantsMore_def effectiveGrantsMore_def identityDifferences_def
  by (auto simp: list_ex_iff compareTokenSets_Nil)

lemma same_grants_iff: "same_grants l e \<longleftrightarrow> \<not> legacyGrantsMore l e \<and> \<not> effectiveGrantsMore l e"
  unfolding grants_more_iff same_grants_def by blast

lemma state_of_map_of: "state_of l d = (case map_of l d of Some s \<Rightarrow> JStr s
    | None \<Rightarrow> if d \<in> set object_prototype then JFun d else JUndef)"
proof -
  have "map_of (map (\<lambda>(k, s). (k, JStr s)) l) d = map_option JStr (map_of l d)"
    by (induction l) auto
  then show ?thesis by (simp add: state_of_def own_get_def split: option.split)
qed

text \<open>
  Inherited members do not hide a difference: an inherited member is a function, and no
  state is one.
\<close>

lemma compareReadiness_Nil: "compareReadiness l e = [] \<longleftrightarrow> map_of l = map_of e"
proof -
  have "state_of l d = state_of e d \<longleftrightarrow> map_of l d = map_of e d" for d
    by (auto simp: state_of_map_of split: option.splits if_splits)
  moreover have "map_of l d = map_of e d" if "d \<notin> fst ` set l \<union> fst ` set e" for d
    using that by (metis UnCI map_of_eq_None_iff)
  ultimately show ?thesis
    unfolding compareReadiness_def map_is_Nil_conv filter_empty_conv set_sort_strings set_uniq set_append set_map
      fun_eq_iff by blast
qed

lemma addGrantDirectionClasses_Nil [simp]: "addGrantDirectionClasses a b = [] \<longleftrightarrow> \<not> a \<and> \<not> b"
  by (simp add: addGrantDirectionClasses_def)

lemma initialClasses_Nil:
  "initialClasses l e = [] \<longleftrightarrow> \<not> nz_dataQualityDetected l \<and> \<not> nz_dataQualityDetected e \<and> \<not> nz_stale l
    \<and> \<not> nz_stale e \<and> \<not> nz_unsupported l"
  by (auto simp: initialClasses_def)

lemma normalize_clean:
  "nz_issues (normalizeSnapshot h v s now) \<noteq> [] \<Longrightarrow> nz_dataQualityDetected (normalizeSnapshot h v s now)"
  unfolding normalizeSnapshot_def emptyNormalization_def Let_def case_prod_beta
  by (cases "is_object v") simp_all

lemma comparedDecision_matched:
  "pd_matched (comparedDecision L E l e now) \<longleftrightarrow>
     initialClasses L E = [] \<and> same_grants l e \<and> same_evidence l e
     \<and> \<not> nz_sideEffectDetected L \<and> \<not> nz_sideEffectDetected E"
  by (auto simp: comparedDecision_def Let_def same_grants_iff same_evidence_def compareTokenSets_Nil
      compareReadiness_Nil)

lemma comparedDecision_over_grant:
  "''new_resolver_over_grant'' \<in> set (pd_mismatchClasses (comparedDecision L E l e now)) \<longleftrightarrow> effectiveGrantsMore l e"
proof -
  have "''new_resolver_over_grant'' \<notin> set (initialClasses L E)"
    by (simp add: initialClasses_def)
  moreover have "''new_resolver_over_grant'' \<in> set (addGrantDirectionClasses a b) \<longleftrightarrow> b" for a b
    by (simp add: addGrantDirectionClasses_def)
  ultimately show ?thesis
    by (simp add: comparedDecision_def Let_def del: set_append) simp
qed

lemma comparedDecision_flags:
  "effectiveGrantsMore l e \<Longrightarrow> pd_securityRelevant (comparedDecision L E l e now)"
  "effectiveGrantsMore l e \<Longrightarrow> pd_rolloutBlocked (comparedDecision L E l e now)"
  "pd_safety (comparedDecision L E l e now) = baseSafety"
  by (simp_all add: comparedDecision_def Let_def addGrantDirectionClasses_def)

text \<open>
  C22. The sides match exactly when both snapshots are objects without a normalisation issue,
  neither is stale, reports a data quality issue or a side effect, the legacy side has no
  unsupported semantics, and the two agree on every identity set, on authority, on
  eligibility, on the reason codes and on every readiness dimension. A match is the only
  case in which the rollout is not blocked.
\<close>
theorem parity_matched_iff:
  assumes "evaluateShadowAuthorityParity h clock arg = Inr d"
  shows "\<exists>now. evaluated_now h clock (get arg ''now'') = Inr now
    \<and> pd_rolloutBlocked d = (\<not> pd_matched d)
    \<and> (pd_matched d \<longleftrightarrow> (\<exists>l e.
          nz_snapshot (normalizeSnapshot h (get arg ''legacySnapshot'') ''legacy'' now) = Some l
        \<and> nz_snapshot (normalizeSnapshot h (get arg ''effectiveSnapshot'') ''effective'' now) = Some e
        \<and> clean (normalizeSnapshot h (get arg ''legacySnapshot'') ''legacy'' now)
        \<and> clean (normalizeSnapshot h (get arg ''effectiveSnapshot'') ''effective'' now)
        \<and> \<not> nz_unsupported (normalizeSnapshot h (get arg ''legacySnapshot'') ''legacy'' now)
        \<and> same_grants l e \<and> same_evidence l e))"
proof -
  obtain now where now: "evaluated_now h clock (get arg ''now'') = Inr now"
    using assms by (auto simp: evaluateShadowAuthorityParity_def)
  define L where "L = normalizeSnapshot h (get arg ''legacySnapshot'') ''legacy'' now"
  define E where "E = normalizeSnapshot h (get arg ''effectiveSnapshot'') ''effective'' now"
  have d: "d = (case (nz_snapshot L, nz_snapshot E) of (Some l, Some e) \<Rightarrow> comparedDecision L E l e now
      | _ \<Rightarrow> blockedParity L E now)"
    using assms now unfolding evaluateShadowAuthorityParity_def Let_def L_def E_def by (simp del: split_paired_Ex)
  have clean: "clean L \<longleftrightarrow> \<not> nz_stale L \<and> \<not> nz_sideEffectDetected L \<and> \<not> nz_dataQualityDetected L"
      "clean E \<longleftrightarrow> \<not> nz_stale E \<and> \<not> nz_sideEffectDetected E \<and> \<not> nz_dataQualityDetected E"
    using normalize_clean unfolding clean_def L_def E_def by blast+
  have "pd_rolloutBlocked d = (\<not> pd_matched d)"
    unfolding d by (auto simp: comparedDecision_def blockedParity_def Let_def split: option.split)
  moreover have "pd_matched d \<longleftrightarrow> (\<exists>l e. nz_snapshot L = Some l \<and> nz_snapshot E = Some e \<and> clean L \<and> clean E
      \<and> \<not> nz_unsupported L \<and> same_grants l e \<and> same_evidence l e)"
    unfolding d clean
    by (cases "nz_snapshot L"; cases "nz_snapshot E")
      (auto simp: blockedParity_def comparedDecision_matched initialClasses_Nil)
  ultimately show ?thesis
    using now unfolding L_def E_def by (intro exI [of _ now] conjI)
qed


definition demo_parity_side :: "string \<Rightarrow> string list \<Rightarrow> jsval" where
  "demo_parity_side source refs = JObj [(''source'', JStr source), (''resolverKey'', JStr ''r1''),
     (''evaluatedAt'', JDate (Some 1000)), (''expiresAt'', JDate (Some 9000)), (''authorityAllowed'', JBool True),
     (''identitySets'', JObj [(''resourceRefs'', JArr (map JStr refs)), (''capabilityKeys'', JArr []),
       (''connectionRefs'', JArr []), (''actionKeys'', JArr [])]),
     (''reasonCodes'', JArr []), (''readinessDimensions'', JObj [(''consent'', JStr ''ready'')])]"

definition demo_parity_arg :: "string list \<Rightarrow> jsval" where
  "demo_parity_arg refs = JObj [(''legacySnapshot'', demo_parity_side ''legacy'' [''a'', ''b'']),
     (''effectiveSnapshot'', demo_parity_side ''effective'' refs), (''now'', JDate (Some 5000))]"

lemma demo_parity_eval:
  "map_sum id pd_matched (evaluateShadowAuthorityParity plain_host 0 (demo_parity_arg [''b'', ''a''])) = Inr True"
  "map_sum id (\<lambda>d. (pd_details d \<noteq> None, ''new_resolver_over_grant'' \<in> set (pd_mismatchClasses d)))
     (evaluateShadowAuthorityParity plain_host 0 (demo_parity_arg [''b'', ''a'', ''c''])) = Inr (True, True)"
  by code_simp+

theorem parity_matched_iff_witness:
  "\<exists>l e. same_grants l e \<and> same_evidence l e
     \<and> nz_snapshot (normalizeSnapshot plain_host (demo_parity_side ''legacy'' [''a'', ''b'']) ''legacy'' 5000) = Some l"
proof -
  obtain d where d: "evaluateShadowAuthorityParity plain_host 0 (demo_parity_arg [''b'', ''a'']) = Inr d" "pd_matched d"
    using demo_parity_eval(1)
    by (cases "evaluateShadowAuthorityParity plain_host 0 (demo_parity_arg [''b'', ''a''])") simp_all
  have "evaluated_now plain_host 0 (get (demo_parity_arg [''b'', ''a'']) ''now'') = Inr 5000"
    by code_simp
  moreover have "get (demo_parity_arg [''b'', ''a'']) ''legacySnapshot'' = demo_parity_side ''legacy'' [''a'', ''b'']"
    by (simp add: demo_parity_arg_def)
  ultimately show ?thesis
    using parity_matched_iff [OF d(1)] d(2) by auto
qed


end
