(* ===== verification/Kernel_AppSupport.thy ===== *)
theory Kernel_AppSupport
  imports Kernel_Integrity
begin

text \<open>
  \<^verbatim>\<open>contextKernel/application/applicationSupport.js\<close>: what the application services
  share. Errors are \<open>AppError\<close> values with the code and the HTTP status. The module's
  sanitiser differs from the one for hashing in that it keeps the flags which report that
  no credential was read.
\<close>

section \<open>Sanitising application values\<close>

definition SENSITIVE_EXACT_KEYS :: "string list" where
  "SENSITIVE_EXACT_KEYS =
     [''authorization'', ''authorizationheader'', ''cookie'', ''setcookie'', ''credential'',
      ''credentials'', ''credentialpayload'', ''secret'', ''secrets'', ''token'', ''tokens'',
      ''accesstoken'', ''refreshtoken'', ''password'', ''privatekey'', ''apikey'']"

definition SAFE_SECURITY_FLAG_KEYS :: "string list" where
  "SAFE_SECURITY_FLAG_KEYS =
     [''automaticretryperformed'', ''automaticwriteperformed'', ''credentialpayloadread'',
      ''credentialpayloadreads'', ''providercallmade'', ''readbackperformed'', ''retryallowed'', ''secretsincluded'']"

definition normalizedKey :: "string \<Rightarrow> string" where
  "normalizedKey k = to_lower (filter is_alnum k)"

definition isSensitiveKey :: "string \<Rightarrow> bool" where
  "isSensitiveKey k = (let normalized = normalizedKey k in
     if normalized \<in> set SAFE_SECURITY_FLAG_KEYS then False
     else if suffix ''ref'' normalized \<or> suffix ''id'' normalized then False
     else normalized \<in> set SENSITIVE_EXACT_KEYS
       \<or> sublist ''credential'' normalized \<or> sublist ''secret'' normalized
       \<or> sublist ''token'' normalized \<or> sublist ''password'' normalized
       \<or> sublist ''privatekey'' normalized \<or> sublist ''apikey'' normalized)"

text \<open>As for hashing: undefined children are dropped, and a property named \<^verbatim>\<open>__proto__\<close> is not created.\<close>

definition keep_application_entry :: "string \<times> jsval \<Rightarrow> bool" where
  "keep_application_entry kv = (\<not> isSensitiveKey (fst kv) \<and> snd kv \<noteq> JUndef \<and> fst kv \<noteq> ''__proto__'')"

function sanitizeApplicationValue :: "jsval \<Rightarrow> jsval" where
  "sanitizeApplicationValue (JArr vs) = JArr (map sanitizeApplicationValue vs)"
| "sanitizeApplicationValue (JObj kvs) =
     JObj (map (\<lambda>kv. (fst kv, sanitizeApplicationValue (snd kv))) (filter keep_application_entry (sort_entries kvs)))"
| "sanitizeApplicationValue (JDate t) = JObj []"
| "sanitizeApplicationValue JUndef = JUndef"
| "sanitizeApplicationValue JNull = JNull"
| "sanitizeApplicationValue (JBool b) = JBool b"
| "sanitizeApplicationValue (JNum r) = JNum r"
| "sanitizeApplicationValue JNaN = JNaN"
| "sanitizeApplicationValue (JInf p) = JInf p"
| "sanitizeApplicationValue (JStr s) = JStr s"
| "sanitizeApplicationValue (JFun f) = JFun f"
  by pat_completeness auto
termination
  by (relation "measure size")
    (auto intro!: size_list_estimation le_imp_less_Suc trans_le_add2 size_list_estimation'
      simp: less_Suc_eq_le size_list_estimation' prod.size_gen_o_map)

section \<open>Required arguments\<close>

definition requireApplicationString :: "jsval \<Rightarrow> string \<Rightarrow> string res" where
  "requireApplicationString value fieldName = (case value of
     JStr s \<Rightarrow> if trim s = [] then Inl (nonEmptyError fieldName) else Inr (trim s)
   | _ \<Rightarrow> Inl (nonEmptyError fieldName))"

definition optionalApplicationString :: "jsval \<Rightarrow> string option res" where
  "optionalApplicationString value =
     (if absent value then Inr None
      else res_bind (requireApplicationString value ''value'') (\<lambda>s. Inr (Some s)))"

definition requireApplicationObject :: "jsval \<Rightarrow> string \<Rightarrow> jsval res" where
  "requireApplicationObject value fieldName =
     (if is_object value then Inr value else Inl (TypeError (fieldName @ '' must be an object.'')))"

definition clockIso :: "jsval \<Rightarrow> string res" where
  "clockIso clockValue = (case clockValue of
     JDate t \<Rightarrow> (case Option.bind t time_clip of
         Some u \<Rightarrow> Inr (iso_string u) | None \<Rightarrow> Inl (TypeError ''clock must return a valid Date.''))
   | _ \<Rightarrow> Inl (TypeError ''clock must return a valid Date.''))"

section \<open>Candidate references\<close>

definition addCandidateReference :: "string list \<Rightarrow> candidate \<Rightarrow> string list res" where
  "addCandidateReference seen c =
     res_bind (requireApplicationString (JStr (c_stableRef c)) ''candidate.stableRef'') (\<lambda>stableRef.
     if stableRef \<in> set seen then Inl (AppError ''context_candidate_reference_ambiguous'' 409)
     else Inr (seen @ [stableRef]))"

definition ensureUniqueCandidateReferences :: "candidate list \<Rightarrow> candidate list res" where
  "ensureUniqueCandidateReferences candidates =
     res_bind (res_fold addCandidateReference [] candidates) (\<lambda>_. Inr candidates)"

section \<open>Lemmas\<close>

lemma requireApplicationString_Inr [simp]:
  "requireApplicationString v f = Inr s \<longleftrightarrow> (\<exists>t. v = JStr t \<and> s = trim t \<and> s \<noteq> [])"
  by (auto simp: requireApplicationString_def split: jsval.splits if_splits)

lemma requireApplicationObject_Inr [simp]: "requireApplicationObject v f = Inr w \<longleftrightarrow> is_object v \<and> w = v"
  by (auto simp: requireApplicationObject_def)

lemma keep_application_sanitize:
  "keep_application_entry (k, sanitizeApplicationValue v) \<longleftrightarrow> keep_application_entry (k, v)"
  by (cases v) (simp_all add: keep_application_entry_def)

interpretation application_sanitiser: sanitiser sanitizeApplicationValue keep_application_entry
proof
  show "sanitizeApplicationValue v = v" if "\<And>vs. v \<noteq> JArr vs" "\<And>kvs. v \<noteq> JObj kvs" "\<And>t. v \<noteq> JDate t" for v
    using that by (cases v) auto
qed (simp_all add: keep_application_sanitize)

lemma addCandidateReference_Inr:
  "addCandidateReference seen c = Inr seen' \<longleftrightarrow>
     trim (c_stableRef c) \<noteq> [] \<and> trim (c_stableRef c) \<notin> set seen \<and> seen' = seen @ [trim (c_stableRef c)]"
  by (auto simp: addCandidateReference_def)

lemma references_distinct:
  "res_fold addCandidateReference seen cs = Inr seen' \<Longrightarrow> distinct seen \<Longrightarrow>
     seen' = seen @ map (trim \<circ> c_stableRef) cs \<and> distinct seen'"
proof (induction cs arbitrary: seen)
  case (Cons c cs)
  then have new: "trim (c_stableRef c) \<notin> set seen"
      and rest: "res_fold addCandidateReference (seen @ [trim (c_stableRef c)]) cs = Inr seen'"
    by (auto simp: addCandidateReference_Inr)
  have "distinct (seen @ [trim (c_stableRef c)])"
    using new Cons.prems(2) by simp
  from Cons.IH [OF rest this] show ?case
    by (metis append.assoc append_Cons append_Nil comp_apply list.simps(9))
qed simp

lemma ensureUnique_Inr:
  "ensureUniqueCandidateReferences cs = Inr ds \<Longrightarrow> ds = cs \<and> distinct (map (trim \<circ> c_stableRef) cs)"
  using references_distinct [of "[]" cs] by (auto simp: ensureUniqueCandidateReferences_def)


end
