(* ===== verification/Kernel_CapsuleService.thy ===== *)
theory Kernel_CapsuleService
  imports Kernel_Sealing Kernel_AppSupport
begin

text \<open>
  \<^verbatim>\<open>contextKernel/application/executionCapsuleService.js\<close>: a resolved context is
  turned into an execution capsule, and a stored capsule is validated against the current
  context and dependencies. The value that \<^verbatim>\<open>clock()\<close> returns at the call is the
  argument \<open>clock\<close>; the service's \<^verbatim>\<open>defaultTtlMs\<close> is the argument \<open>ttl\<close>.
\<close>

section \<open>Fields\<close>

datatype validation_status =
    VALID | EXPIRED | REVISION_MISMATCH | CONTEXT_MISMATCH
  | DYNAMIC_REFRESH_REQUIRED | INTERPRETATION_REQUIRED | BLOCKED

definition status_string :: "validation_status \<Rightarrow> string" where
  "status_string s = (case s of VALID \<Rightarrow> ''valid'' | EXPIRED \<Rightarrow> ''expired''
     | REVISION_MISMATCH \<Rightarrow> ''revision_mismatch'' | CONTEXT_MISMATCH \<Rightarrow> ''context_mismatch''
     | DYNAMIC_REFRESH_REQUIRED \<Rightarrow> ''dynamic_refresh_required''
     | INTERPRETATION_REQUIRED \<Rightarrow> ''interpretation_required'' | BLOCKED \<Rightarrow> ''blocked'')"

definition CAPSULE_OPERATION_KINDS :: "string list" where
  "CAPSULE_OPERATION_KINDS = [''read'', ''mutation'']"

definition REASON_CODE_PATTERN :: "string \<Rightarrow> bool" where
  "REASON_CODE_PATTERN s = bounded_pattern (\<lambda>c. is_lower c \<or> is_digit c)
     (\<lambda>c. is_lower c \<or> is_digit c \<or> c \<in> set ''_.:-'') 0 190 s"

definition normalizedDate :: "host \<Rightarrow> jsval \<Rightarrow> string \<Rightarrow> int res" where
  "normalizedDate h value fieldName = (case to_time h value of
     None \<Rightarrow> Inl (TypeError (fieldName @ '' must be a valid date.'')) | Some t \<Rightarrow> Inr t)"

fun reasonCodesFrom :: "host \<Rightarrow> nat \<Rightarrow> jsval list \<Rightarrow> string list res" where
  "reasonCodesFrom h index [] = Inr []"
| "reasonCodesFrom h index (v # vs) = (let normalized = trim (string_if_truthy h v) in
     if \<not> REASON_CODE_PATTERN normalized
     then Inl (TypeError (indexed ''blockedReasonCodes'' index @ '' must be a bounded reason code.''))
     else res_bind (reasonCodesFrom h (Suc index) vs) (\<lambda>rs. Inr (normalized # rs)))"

definition normalizeReasonCodes :: "host \<Rightarrow> jsval list \<Rightarrow> string list res" where
  "normalizeReasonCodes h reasonCodes = res_bind (reasonCodesFrom h 0 reasonCodes) (\<lambda>rs. Inr (uniq rs))"

section \<open>The resolved candidate\<close>

definition array_items :: "jsval \<Rightarrow> jsval list" where
  "array_items v = (case v of JArr vs \<Rightarrow> vs | _ \<Rightarrow> [])"

definition selectedCandidateFromResolution :: "jsval \<Rightarrow> jsval res" where
  "selectedCandidateFromResolution resolution =
     res_bind (requireApplicationObject (get resolution ''selectedCandidate'') ''resolution.selectedCandidate'') (\<lambda>selected.
     res_bind (requireApplicationString (get selected ''stableRef'') ''selectedCandidate.stableRef'') (\<lambda>stableRef.
     case filter (\<lambda>c. get c ''stableRef'' = JStr stableRef) (array_items (get resolution ''candidates'')) of
       [] \<Rightarrow> Inl (AppError ''execution_capsule_selected_candidate_missing'' 409)
     | [c] \<Rightarrow> requireApplicationObject c ''resolution.candidates[selectedCandidate]''
     | _ \<Rightarrow> Inl (AppError ''execution_capsule_selected_candidate_ambiguous'' 409)))"

text \<open>\<^verbatim>\<open>v ?? null\<close>.\<close>

definition or_null_value :: "jsval \<Rightarrow> jsval" where
  "or_null_value v = (if nullish v then JNull else v)"

definition candidateFields :: "string list" where
  "candidateFields = [''candidateType'', ''stableRef'', ''tenantRef'', ''workspaceRef'', ''brandRef'',
     ''resourceType'', ''resourceRef'', ''connectionRef'']"

definition contextFields :: "string list" where
  "contextFields = [''tenantRef'', ''workspaceRef'', ''brandRef'', ''resourceType'', ''resourceRef'', ''connectionRef'']"

definition sameField :: "jsval \<Rightarrow> jsval \<Rightarrow> string \<Rightarrow> bool" where
  "sameField a b k = strict_eq (or_null_value (get a k)) (or_null_value (get b k))"

definition assertExactContextConsistency :: "jsval \<Rightarrow> jsval \<Rightarrow> unit res" where
  "assertExactContextConsistency context selected =
     res_bind (requireApplicationObject (get context ''selectedCandidate'') ''resolution.context.selectedCandidate'') (\<lambda>contextSelected.
     res_check (list_all (sameField contextSelected selected) candidateFields
         \<and> list_all (sameField context selected) contextFields)
       (AppError ''execution_capsule_context_candidate_mismatch'' 409))"

record context_identity =
  ci_contextHash :: string
  ci_contextRevision :: string
  ci_principalType :: string
  ci_principalRef :: string
  ci_effectiveSubjectRef :: string
  ci_tenantRef :: string
  ci_workspaceRef :: string
  ci_brandRef :: "string option"
  ci_resourceType :: string
  ci_resourceRef :: string
  ci_connectionRef :: string

definition contextIdentity :: "jsval \<Rightarrow> context_identity res" where
  "contextIdentity context =
     res_bind (requireApplicationObject (get context ''principal'') ''context.principal'') (\<lambda>actor.
     res_bind (requireApplicationObject (get context ''effectiveSubject'') ''context.effectiveSubject'') (\<lambda>subj.
     res_bind (requireApplicationString (get context ''contextHash'') ''context.contextHash'') (\<lambda>f0.
     res_bind (requireApplicationString (get context ''contextRevision'') ''context.contextRevision'') (\<lambda>f1.
     res_bind (requireApplicationString (get actor ''principalType'') ''context.principal.principalType'') (\<lambda>f2.
     res_bind (requireApplicationString (get actor ''principalRef'') ''context.principal.principalRef'') (\<lambda>f3.
     res_bind (requireApplicationString (get subj ''subjectRef'') ''context.effectiveSubject.subjectRef'') (\<lambda>f4.
     res_bind (requireApplicationString (get context ''tenantRef'') ''context.tenantRef'') (\<lambda>f5.
     res_bind (requireApplicationString (get context ''workspaceRef'') ''context.workspaceRef'') (\<lambda>f6.
     res_bind (optionalApplicationString (get context ''brandRef'')) (\<lambda>f7.
     res_bind (requireApplicationString (get context ''resourceType'') ''context.resourceType'') (\<lambda>f8.
     res_bind (requireApplicationString (get context ''resourceRef'') ''context.resourceRef'') (\<lambda>f9.
     res_bind (requireApplicationString (get context ''connectionRef'') ''context.connectionRef'') (\<lambda>f10.
     Inr \<lparr>ci_contextHash = f0, ci_contextRevision = f1, ci_principalType = f2, ci_principalRef = f3,
       ci_effectiveSubjectRef = f4, ci_tenantRef = f5, ci_workspaceRef = f6, ci_brandRef = f7,
       ci_resourceType = f8, ci_resourceRef = f9, ci_connectionRef = f10\<rparr>)))))))))))))"

definition identity_fields :: "context_identity \<Rightarrow> (string \<times> jsval) list" where
  "identity_fields i = [(''contextHash'', JStr (ci_contextHash i)), (''contextRevision'', JStr (ci_contextRevision i)),
     (''principalType'', JStr (ci_principalType i)), (''principalRef'', JStr (ci_principalRef i)),
     (''effectiveSubjectRef'', JStr (ci_effectiveSubjectRef i)), (''tenantRef'', JStr (ci_tenantRef i)),
     (''workspaceRef'', JStr (ci_workspaceRef i)), (''brandRef'', jopt (ci_brandRef i)),
     (''resourceType'', JStr (ci_resourceType i)), (''resourceRef'', JStr (ci_resourceRef i)),
     (''connectionRef'', JStr (ci_connectionRef i))]"

section \<open>Creating a capsule\<close>

text \<open>The capability of a resolved context that may be dispatched.\<close>

definition resolvedCapability :: "jsval \<Rightarrow> jsval \<Rightarrow> string res" where
  "resolvedCapability resolved context = (let
     readiness = js_or (get resolved ''capabilityReadiness'') (js_or (get context ''capability'') JNull);
     capability = get context ''capability'' in
     if \<not> truthy readiness \<or> get readiness ''dispatchAllowed'' \<noteq> JBool True
     then Inl (AppError ''execution_capsule_capability_not_ready'' 409)
     else res_bind (requireApplicationString (get readiness ''capabilityKey'') ''capabilityKey'') (\<lambda>capabilityKey.
       if truthy capability
         \<and> (get capability ''capabilityKey'' \<noteq> JStr capabilityKey
            \<or> truthy (get capability ''dispatchAllowed'') \<noteq> truthy (get readiness ''dispatchAllowed'')
            \<or> truthy (get capability ''applyAllowed'') \<noteq> truthy (get readiness ''applyAllowed''))
       then Inl (AppError ''execution_capsule_capability_context_mismatch'' 409)
       else Inr capabilityKey))"

text \<open>
  \<^verbatim>\<open>new Date(issued.getTime() + defaultTtlMs)\<close>, or the requested expiry. The sum may
  leave the range of dates, which the comparison with the issue time does not notice.
\<close>

definition capsuleExpiry :: "host \<Rightarrow> rat \<Rightarrow> int \<Rightarrow> jsval \<Rightarrow> int option res" where
  "capsuleExpiry h ttl issued expiresAt =
     (if nullish expiresAt then Inr (time_clip (truncate_rat (of_int issued + ttl)))
      else res_bind (normalizedDate h expiresAt ''expiresAt'') (\<lambda>t. Inr (Some t)))"

record capsule_resolution =
  cr_status :: string
  cr_capsule :: capsule
  cr_tenantProjection :: jsval
  cr_adminProjection :: jsval
  cr_executionAllowed :: bool
  cr_automaticWritePerformed :: bool
  cr_secretsIncluded :: bool

text \<open>The exact context of a resolution: its checks before a capsule is built.\<close>

definition resolvedIdentity :: "jsval \<Rightarrow> (context_identity \<times> string) res" where
  "resolvedIdentity resolution =
     res_bind (requireApplicationObject resolution ''resolution'') (\<lambda>resolved.
     res_bind (res_check (get resolved ''status'' = JStr ''resolved'' \<and> truthy (get resolved ''context'')
         \<and> truthy (get resolved ''selectedCandidate''))
       (AppError ''execution_capsule_requires_resolved_context'' 409)) (\<lambda>_.
     res_bind (requireApplicationObject (get resolved ''context'') ''resolution.context'') (\<lambda>context.
     res_bind (selectedCandidateFromResolution resolved) (\<lambda>selected.
     res_bind (assertExactContextConsistency context selected) (\<lambda>_.
     res_bind (contextIdentity context) (\<lambda>identity.
     res_bind (requireApplicationObject (js_or (get resolved ''authorityScope'') (get context ''authority''))
       ''resolution.authorityScope'') (\<lambda>authorityScope.
     res_bind (res_check (\<not> (truthy (get authorityScope ''tenantRef'')
         \<and> get authorityScope ''tenantRef'' \<noteq> JStr (ci_tenantRef identity)))
       (AppError ''execution_capsule_authority_context_mismatch'' 409)) (\<lambda>_.
     res_bind (resolvedCapability resolved context) (\<lambda>capabilityKey.
     Inr (identity, capabilityKey))))))))))"

definition resolveCapsule :: "host \<Rightarrow> rat \<Rightarrow> jsval \<Rightarrow> jsval \<Rightarrow> capsule_resolution res" where
  "resolveCapsule h ttl clock arg =
     res_bind (resolvedIdentity (get arg ''resolution'')) (\<lambda>(identity, capabilityKey).
     res_bind (normalizedDate h clock ''clock result'') (\<lambda>issued.
     res_bind (capsuleExpiry h ttl issued (get arg ''expiresAt'')) (\<lambda>expiry.
     res_bind (res_check (case expiry of None \<Rightarrow> True | Some e \<Rightarrow> issued < e)
       (AppError ''execution_capsule_expiry_invalid'' 422)) (\<lambda>_.
     res_bind (requireApplicationString (get arg ''authorityPathRef'') ''authorityPathRef'') (\<lambda>authorityPathRef.
     res_bind (requireApplicationString (get arg ''authorityRevision'') ''authorityRevision'') (\<lambda>authorityRevision.
     res_bind (requireApplicationString (get arg ''capabilityRevision'') ''capabilityRevision'') (\<lambda>capabilityRevision.
     res_bind (requireApplicationString (get arg ''registryRevision'') ''registryRevision'') (\<lambda>registryRevision.
     res_bind (requireApplicationString (get arg ''credentialReadinessRevision'') ''credentialReadinessRevision'')
       (\<lambda>credentialReadinessRevision.
     res_bind (createExecutionCapsule h (JObj (identity_fields identity @
       [(''authorityPathRef'', JStr authorityPathRef), (''capabilityKey'', JStr capabilityKey),
        (''authorityRevision'', JStr authorityRevision), (''capabilityRevision'', JStr capabilityRevision),
        (''registryRevision'', JStr registryRevision),
        (''credentialReadinessRevision'', JStr credentialReadinessRevision),
        (''invalidationDependencies'', default_arg (get arg ''invalidationDependencies'') (JArr [])),
        (''issuedAt'', JDate (Some issued)), (''expiresAt'', JDate expiry)]))) (\<lambda>c.
     res_bind (projectExecutionCapsule h (capsule_value c) (JStr ''tenant'')) (\<lambda>tenantProjection.
     res_bind (projectExecutionCapsule h (capsule_value c) (JStr ''admin'')) (\<lambda>adminProjection.
     Inr \<lparr>cr_status = ''resolved'', cr_capsule = c, cr_tenantProjection = tenantProjection,
       cr_adminProjection = adminProjection, cr_executionAllowed = False,
       cr_automaticWritePerformed = False, cr_secretsIncluded = False\<rparr>))))))))))))"

section \<open>Validating a capsule\<close>

definition capsuleContextMismatchFields :: "capsule \<Rightarrow> context_identity \<Rightarrow> string list" where
  "capsuleContextMismatchFields c i = (let d = ca_descriptor c in
     sort_strings (map fst (filter (\<lambda>(_, differs). differs)
       [(''contextHash'', ds_contextHash d \<noteq> ci_contextHash i),
        (''principalType'', ds_principalType d \<noteq> ci_principalType i),
        (''principalRef'', ds_principalRef d \<noteq> ci_principalRef i),
        (''effectiveSubjectRef'', ds_effectiveSubjectRef d \<noteq> ci_effectiveSubjectRef i),
        (''tenantRef'', ds_tenantRef d \<noteq> ci_tenantRef i),
        (''workspaceRef'', ds_workspaceRef d \<noteq> ci_workspaceRef i),
        (''brandRef'', ds_brandRef d \<noteq> ci_brandRef i),
        (''resourceType'', ds_resourceType d \<noteq> ci_resourceType i),
        (''resourceRef'', ds_resourceRef d \<noteq> ci_resourceRef i),
        (''connectionRef'', ds_connectionRef d \<noteq> ci_connectionRef i)])))"

record validation_result =
  vr_status :: validation_status
  vr_valid :: bool
  vr_capsuleRef :: "string option"
  vr_contextHash :: "string option"
  vr_contextRevision :: "string option"
  vr_reasonCodes :: "string list"
  vr_mismatchFields :: "string list"
  vr_dependencyComparison :: "dependency_comparison option"
  vr_requiresContextReresolution :: bool
  vr_dynamicRefreshRequired :: bool
  vr_executionAllowed :: bool
  vr_automaticWritePerformed :: bool
  vr_validatedAt :: string
  vr_secretsIncluded :: bool

definition is_capsule_ref :: "string \<Rightarrow> bool" where
  "is_capsule_ref s = (take 5 s = ''ctxc-'' \<and> length s = 37
     \<and> list_all (\<lambda>c. is_digit c \<or> 97 \<le> code c \<and> code c \<le> 102) (drop 5 s))"

definition integrityFailureResult :: "jsval \<Rightarrow> string \<Rightarrow> validation_result" where
  "integrityFailureResult rawCapsule validatedAt =
     \<lparr>vr_status = BLOCKED, vr_valid = False,
      vr_capsuleRef = (case get rawCapsule ''capsuleRef'' of JStr s \<Rightarrow> if is_capsule_ref s then Some s else None | _ \<Rightarrow> None),
      vr_contextHash = None, vr_contextRevision = None,
      vr_reasonCodes = [''execution_capsule_integrity_invalid''], vr_mismatchFields = [],
      vr_dependencyComparison = None, vr_requiresContextReresolution = True,
      vr_dynamicRefreshRequired = False, vr_executionAllowed = False, vr_automaticWritePerformed = False,
      vr_validatedAt = validatedAt, vr_secretsIncluded = False\<rparr>"

definition validationResult :: "validation_status \<Rightarrow> capsule \<Rightarrow> string list \<Rightarrow> string list
    \<Rightarrow> dependency_comparison option \<Rightarrow> string \<Rightarrow> validation_result" where
  "validationResult status c reasonCodes mismatchFields comparison validatedAt =
     \<lparr>vr_status = status, vr_valid = (status = VALID), vr_capsuleRef = Some (ca_capsuleRef c),
      vr_contextHash = Some (ds_contextHash (ca_descriptor c)),
      vr_contextRevision = Some (ds_contextRevision (ca_descriptor c)),
      vr_reasonCodes = uniq reasonCodes, vr_mismatchFields = sort_strings (uniq mismatchFields),
      vr_dependencyComparison = comparison,
      vr_requiresContextReresolution =
        (status \<in> {EXPIRED, REVISION_MISMATCH, CONTEXT_MISMATCH, INTERPRETATION_REQUIRED}),
      vr_dynamicRefreshRequired = (status = DYNAMIC_REFRESH_REQUIRED), vr_executionAllowed = False,
      vr_automaticWritePerformed = False, vr_validatedAt = validatedAt, vr_secretsIncluded = False\<rparr>"

text \<open>The outcome for an intact capsule once the context's identity is known.\<close>

definition validateAgainst :: "host \<Rightarrow> capsule \<Rightarrow> context_identity \<Rightarrow> jsval \<Rightarrow> string \<Rightarrow> bool \<Rightarrow> string
    \<Rightarrow> validation_result res" where
  "validateAgainst h c current currentDependencies operationKind refreshComplete validatedAt = (let
     mismatchFields = capsuleContextMismatchFields c current in
     if mismatchFields \<noteq> [] then
       Inr (validationResult CONTEXT_MISMATCH c [''execution_capsule_context_mismatch''] mismatchFields None validatedAt)
     else if ds_contextRevision (ca_descriptor c) \<noteq> ci_contextRevision current then
       Inr (validationResult REVISION_MISMATCH c [''execution_capsule_context_revision_mismatch''] [] None validatedAt)
     else if (case (date_parse h (ds_expiresAt (ca_descriptor c)), date_parse h validatedAt) of
         (Some e, Some n) \<Rightarrow> e \<le> n | _ \<Rightarrow> False) then
       Inr (validationResult EXPIRED c [''execution_capsule_expired''] [] None validatedAt)
     else res_bind (compareExecutionCapsuleDependencies h
         (JArr (map dependency_value (ca_invalidationDependencies c))) currentDependencies) (\<lambda>comparison.
       if cmp_staticInvalidated comparison then
         Inr (validationResult REVISION_MISMATCH c [''execution_capsule_static_revision_mismatch''] [] (Some comparison) validatedAt)
       else if cmp_dynamicRefreshRequired comparison \<or> operationKind = ''mutation'' \<and> \<not> refreshComplete then
         Inr (validationResult DYNAMIC_REFRESH_REQUIRED c
           (if cmp_dynamicRefreshRequired comparison then [''execution_capsule_dynamic_dependency_changed'']
            else [''execution_capsule_mutation_refresh_required'']) [] (Some comparison) validatedAt)
       else Inr (validationResult VALID c [] [] (Some comparison) validatedAt)))"

definition validateCapsule :: "host \<Rightarrow> jsval \<Rightarrow> jsval \<Rightarrow> validation_result res" where
  "validateCapsule h clock arg =
     res_bind (requireApplicationObject (get arg ''capsule'') ''capsule'') (\<lambda>rawCapsule.
     res_bind (normalizedDate h (default_arg (get arg ''now'') clock) ''now'') (\<lambda>now.
     let validatedAt = iso_string now in
     case assertExecutionCapsuleIntegrity h rawCapsule of
       Inl _ \<Rightarrow> Inr (integrityFailureResult rawCapsule validatedAt)
     | Inr c \<Rightarrow>
         res_bind (requireApplicationObject (get arg ''currentContext'') ''currentContext'') (\<lambda>context.
         let operationKind = default_arg (get arg ''operationKind'') (JStr ''read'') in
         res_bind (res_check (operationKind \<in> JStr ` set CAPSULE_OPERATION_KINDS)
           (TypeError (''Unsupported operationKind: '' @ js_string h operationKind))) (\<lambda>_.
         case (get arg ''currentDependencies'', default_arg (get arg ''blockedReasonCodes'') (JArr [])) of
           (JArr ws, JArr rs) \<Rightarrow>
             if rs \<noteq> [] then
               res_bind (normalizeReasonCodes h rs) (\<lambda>reasonCodes.
               Inr (validationResult BLOCKED c reasonCodes [] None validatedAt))
             else if get arg ''interpretationRequired'' = JBool True then
               Inr (validationResult INTERPRETATION_REQUIRED c [''execution_capsule_interpretation_required''] [] None validatedAt)
             else res_bind (contextIdentity context) (\<lambda>current.
               validateAgainst h c current (JArr ws) (string_value operationKind)
                 (get arg ''dynamicRefreshComplete'' = JBool True) validatedAt)
         | (JArr _, _) \<Rightarrow> Inl (TypeError ''blockedReasonCodes must be an array.'')
         | _ \<Rightarrow> Inl (TypeError ''currentDependencies must be an array.'')))))"

section \<open>The dependencies of an intact capsule\<close>

text \<open>
  Its fields are trimmed, so reading the dependencies again either fails or returns them.
\<close>

definition trimmed :: "dependency \<Rightarrow> bool" where
  "trimmed d = (d_domain d \<in> set DependencyDomains \<and> trim (d_ref d) = d_ref d \<and> trim (d_revision d) = d_revision d
     \<and> d_refreshClass d \<in> set REFRESH_CLASSES)"

lemma trimmed_value:
  assumes "normalizeDependency h (dependency_value d) i f = Inr e" and "trimmed d"
  shows "e = d"
proof -
  have "trim (d_domain d) = d_domain d"
    using assms(2) field_ok_domains by (simp add: trimmed_def field_ok_def)
  then show ?thesis
    using assms
    by (auto simp: normalizeDependency_def dependency_value_def capsuleString_Inr trimmed_def js_or_def Let_def
        REFRESH_CLASSES_def string_value_def intro!: dependency.equality)
qed

lemma trimmed_values:
  "normalizeDependencies h f i (map dependency_value ds) = Inr es \<Longrightarrow> \<forall>d \<in> set ds. trimmed d \<Longrightarrow> es = ds"
  by (induction ds arbitrary: i es) (auto dest: trimmed_value)

lemma automatic_trimmed:
  assumes "scope_ok s" "d \<in> set (automaticDependencies s)"
  shows "trimmed d"
proof -
  have "trim (sc_resourceType s @ CHR '':'' # sc_resourceRef s) = sc_resourceType s @ CHR '':'' # sc_resourceRef s"
    using assms(1) by (intro trim_join) (simp_all add: scope_ok_def field_ok_def)
  moreover have "trim ''context-registry'' = ''context-registry''"
    by code_simp
  moreover have "trim x = x" if "field_ok x" for x
    using that by (simp add: field_ok_def)
  ultimately have "list_all trimmed (automaticDependencies s)"
    using assms(1) unfolding scope_ok_def option_ok_def automaticDependencies_def identityDependencies_def
      static_dependency_def trimmed_def DependencyDomains_def REFRESH_CLASSES_def
    by (cases "sc_brandRef s") simp_all
  then show ?thesis
    using assms(2) by (simp add: list_all_iff)
qed

lemma sealed_trimmed: "capsule_sealed h c ys \<Longrightarrow> d \<in> set (ca_invalidationDependencies c) \<Longrightarrow> trimmed d"
  using automatic_trimmed [of "scope_of (ca_descriptor c)" d]
  by (auto simp: capsule_sealed_def Let_def descriptor_ok_def trimmed_def dependency_ok_def field_ok_def)

lemma asserted_sealed: "assertExecutionCapsuleIntegrity h v = Inr c \<Longrightarrow> \<exists>ys. capsule_sealed h c ys"
  using assert_Inr create_sealed by blast

lemma comparison_of_capsule:
  assumes "assertExecutionCapsuleIntegrity h v = Inr c"
    and "compareExecutionCapsuleDependencies h (JArr (map dependency_value (ca_invalidationDependencies c))) (JArr ws) = Inr r"
  shows "\<exists>cs. normalizeDependencies h ''currentDependencies'' 0 ws = Inr cs
    \<and> (cmp_staticInvalidated r \<or> cmp_dynamicRefreshRequired r \<longleftrightarrow> \<not> set (ca_invalidationDependencies c) \<subseteq> set cs)"
proof -
  let ?ds = "ca_invalidationDependencies c"
  obtain ys where sealed: "capsule_sealed h c ys"
    using asserted_sealed [OF assms(1)] by blast
  obtain es cs where es: "normalizeDependencies h ''capsuleDependencies'' 0 (map dependency_value ?ds) = Inr es"
      and cs: "normalizeDependencies h ''currentDependencies'' 0 ws = Inr cs"
    using assms(2) buildDependencyMap_Inr by (auto simp: compareExecutionCapsuleDependencies_def) blast
  have "es = ?ds"
    using trimmed_values [OF es] sealed_trimmed [OF sealed] by blast
  moreover have "d_refreshClass d = ''static'' \<or> d_refreshClass d = ''dynamic''" if "d \<in> set ?ds" for d
    using sealed_trimmed [OF sealed that] by (auto simp: trimmed_def REFRESH_CLASSES_def)
  ultimately show ?thesis
    using comparison_exact [OF assms(2) es cs] cs by (intro exI [of _ cs]) blast
qed

section \<open>When a capsule is valid\<close>

text \<open>The identity of the current context is the one the capsule was sealed for.\<close>

definition identity_matches :: "capsule \<Rightarrow> context_identity \<Rightarrow> bool" where
  "identity_matches c i = (let d = ca_descriptor c in
     i = \<lparr>ci_contextHash = ds_contextHash d, ci_contextRevision = ds_contextRevision d,
       ci_principalType = ds_principalType d, ci_principalRef = ds_principalRef d,
       ci_effectiveSubjectRef = ds_effectiveSubjectRef d, ci_tenantRef = ds_tenantRef d,
       ci_workspaceRef = ds_workspaceRef d, ci_brandRef = ds_brandRef d, ci_resourceType = ds_resourceType d,
       ci_resourceRef = ds_resourceRef d, ci_connectionRef = ds_connectionRef d\<rparr>)"

definition unexpired :: "capsule \<Rightarrow> int \<Rightarrow> bool" where
  "unexpired c now = (\<exists>e. time_ok e \<and> ds_expiresAt (ca_descriptor c) = iso_string e \<and> now < e)"

lemma mismatch_Nil:
  "capsuleContextMismatchFields c i = [] \<and> ds_contextRevision (ca_descriptor c) = ci_contextRevision i
     \<longleftrightarrow> identity_matches c i"
  by (cases i) (auto simp: capsuleContextMismatchFields_def identity_matches_def Let_def)

lemma unexpired_iff:
  assumes "assertExecutionCapsuleIntegrity h v = Inr c" "time_ok now"
  shows "unexpired c now \<longleftrightarrow> \<not> (case (date_parse h (ds_expiresAt (ca_descriptor c)), date_parse h (iso_string now)) of
         (Some e, Some n) \<Rightarrow> e \<le> n | _ \<Rightarrow> False)"
proof -
  obtain e where e: "time_ok e" "ds_expiresAt (ca_descriptor c) = iso_string e"
    using asserted_sealed [OF assms(1)] unfolding capsule_sealed_def Let_def by blast
  then have "unexpired c now \<longleftrightarrow> now < e"
    unfolding unexpired_def by (metis iso_string_inject)
  with e assms(2) show ?thesis by (simp add: not_le)
qed

lemma validationResult_simps [simp]:
  "vr_status (validationResult st c rs ms cmp t) = st"
  "vr_valid (validationResult st c rs ms cmp t) = (st = VALID)"
  "vr_executionAllowed (validationResult st c rs ms cmp t) = False"
  "vr_contextHash (validationResult st c rs ms cmp t) = Some (ds_contextHash (ca_descriptor c))"
  by (simp_all add: validationResult_def)

lemma validateAgainst_valid:
  assumes c: "assertExecutionCapsuleIntegrity h v = Inr c" and now: "time_ok now"
    and r: "validateAgainst h c i (JArr ws) op refresh (iso_string now) = Inr r"
  shows "vr_valid r \<longleftrightarrow> identity_matches c i \<and> unexpired c now
    \<and> (\<exists>cs. normalizeDependencies h ''currentDependencies'' 0 ws = Inr cs \<and> set (ca_invalidationDependencies c) \<subseteq> set cs)
    \<and> (op = ''mutation'' \<longrightarrow> refresh)" (is "_ \<longleftrightarrow> ?current")
proof (cases "identity_matches c i \<and> unexpired c now")
  case False
  then have "vr_status r \<noteq> VALID"
    using r unfolding validateAgainst_def Let_def mismatch_Nil [symmetric] unexpired_iff [OF c now]
    by (auto split: if_splits)
  moreover have "vr_valid r \<longleftrightarrow> vr_status r = VALID"
    using r by (auto simp: validateAgainst_def Let_def split: if_splits)
  ultimately show ?thesis using False by blast
next
  case True
  then have "res_bind (compareExecutionCapsuleDependencies h
        (JArr (map dependency_value (ca_invalidationDependencies c))) (JArr ws)) (\<lambda>comparison.
       if cmp_staticInvalidated comparison then
         Inr (validationResult REVISION_MISMATCH c [''execution_capsule_static_revision_mismatch''] [] (Some comparison) (iso_string now))
       else if cmp_dynamicRefreshRequired comparison \<or> op = ''mutation'' \<and> \<not> refresh then
         Inr (validationResult DYNAMIC_REFRESH_REQUIRED c
           (if cmp_dynamicRefreshRequired comparison then [''execution_capsule_dynamic_dependency_changed'']
            else [''execution_capsule_mutation_refresh_required'']) [] (Some comparison) (iso_string now))
       else Inr (validationResult VALID c [] [] (Some comparison) (iso_string now))) = Inr r"
    using r unfolding validateAgainst_def Let_def mismatch_Nil [symmetric] unexpired_iff [OF c now] by simp
  then obtain comparison where cmp: "compareExecutionCapsuleDependencies h
        (JArr (map dependency_value (ca_invalidationDependencies c))) (JArr ws) = Inr comparison"
    and valid: "vr_valid r \<longleftrightarrow> \<not> (cmp_staticInvalidated comparison \<or> cmp_dynamicRefreshRequired comparison)
        \<and> (op = ''mutation'' \<longrightarrow> refresh)"
    unfolding res_bind_Inr_iff by (elim exE conjE) (rule that, assumption, auto split: if_split_asm)
  from comparison_of_capsule [OF c cmp] valid True show ?thesis
    by auto
qed

lemma validation_exact:
  assumes "validateCapsule h clock arg = Inr r"
  shows "\<not> vr_executionAllowed r \<and> (vr_valid r \<longleftrightarrow> (\<exists>c i now ws cs.
      assertExecutionCapsuleIntegrity h (get arg ''capsule'') = Inr c
    \<and> contextIdentity (get arg ''currentContext'') = Inr i
    \<and> normalizedDate h (default_arg (get arg ''now'') clock) ''now'' = Inr now
    \<and> default_arg (get arg ''blockedReasonCodes'') (JArr []) = JArr []
    \<and> get arg ''interpretationRequired'' \<noteq> JBool True
    \<and> identity_matches c i \<and> unexpired c now
    \<and> get arg ''currentDependencies'' = JArr ws
    \<and> normalizeDependencies h ''currentDependencies'' 0 ws = Inr cs \<and> set (ca_invalidationDependencies c) \<subseteq> set cs
    \<and> (get arg ''operationKind'' = JStr ''mutation'' \<longrightarrow> get arg ''dynamicRefreshComplete'' = JBool True)))"
proof -
  obtain now where now: "normalizedDate h (default_arg (get arg ''now'') clock) ''now'' = Inr now"
    using assms by (auto simp: validateCapsule_def)
  then have ok: "time_ok now"
    by (auto simp: normalizedDate_def dest: to_time_ok split: option.splits)
  show ?thesis
  proof (cases "assertExecutionCapsuleIntegrity h (get arg ''capsule'')")
    case (Inl e)
    then show ?thesis
      using assms now by (auto simp: validateCapsule_def Let_def integrityFailureResult_def)
  next
    case (Inr c)
    let ?op = "default_arg (get arg ''operationKind'') (JStr ''read'')"
    obtain ws rs where deps: "get arg ''currentDependencies'' = JArr ws"
        "default_arg (get arg ''blockedReasonCodes'') (JArr []) = JArr rs"
      using assms now Inr by (auto simp: validateCapsule_def Let_def split: jsval.splits)
    have op: "?op \<in> JStr ` set CAPSULE_OPERATION_KINDS"
      using assms now Inr by (auto simp: validateCapsule_def Let_def)
    then have mutation: "string_value ?op = ''mutation'' \<longleftrightarrow> get arg ''operationKind'' = JStr ''mutation''"
      by (auto simp: CAPSULE_OPERATION_KINDS_def string_value_def default_arg_def split: if_splits)
    show ?thesis
    proof (cases "rs = [] \<and> get arg ''interpretationRequired'' \<noteq> JBool True")
      case False
      then have "\<not> vr_valid r \<and> \<not> vr_executionAllowed r"
        using assms now Inr deps by (auto simp: validateCapsule_def Let_def split: if_splits)
      with False deps show ?thesis by auto
    next
      case True
      then obtain i where i: "contextIdentity (get arg ''currentContext'') = Inr i"
          "validateAgainst h c i (JArr ws) (string_value ?op) (get arg ''dynamicRefreshComplete'' = JBool True)
             (iso_string now) = Inr r"
        using assms now Inr deps by (auto simp: validateCapsule_def Let_def)
      have "\<not> vr_executionAllowed r"
        using i(2) by (auto simp: validateAgainst_def Let_def split: if_splits)
      then show ?thesis
        using validateAgainst_valid [OF Inr ok i(2)] now i(1) deps True Inr mutation by auto
    qed
  qed
qed

text \<open>
  C25. A capsule is valid exactly when it is intact, nothing blocks it and no interpretation
  is pending, the current context is the one it was sealed for in every field, it has not
  expired, each of its dependencies is current, and for a mutation the dynamic evidence was
  refreshed. A valid capsule still does not allow an execution.
\<close>
theorem capsule_valid_iff:
  assumes "validateCapsule h clock arg = Inr r"
  shows "\<not> vr_executionAllowed r \<and> (vr_valid r \<longleftrightarrow> (\<exists>c i now ws cs.
      assertExecutionCapsuleIntegrity h (get arg ''capsule'') = Inr c
    \<and> contextIdentity (get arg ''currentContext'') = Inr i
    \<and> normalizedDate h (default_arg (get arg ''now'') clock) ''now'' = Inr now
    \<and> default_arg (get arg ''blockedReasonCodes'') (JArr []) = JArr []
    \<and> get arg ''interpretationRequired'' \<noteq> JBool True
    \<and> identity_matches c i \<and> unexpired c now
    \<and> get arg ''currentDependencies'' = JArr ws
    \<and> normalizeDependencies h ''currentDependencies'' 0 ws = Inr cs \<and> set (ca_invalidationDependencies c) \<subseteq> set cs
    \<and> (get arg ''operationKind'' = JStr ''mutation'' \<longrightarrow> get arg ''dynamicRefreshComplete'' = JBool True)))"
  using validation_exact [OF assms] .

section \<open>A created capsule is valid\<close>

definition plain_field :: "string \<Rightarrow> bool" where
  "plain_field s = (s \<noteq> [] \<and> trim s = s)"

definition identity_ok :: "context_identity \<Rightarrow> bool" where
  "identity_ok i = (plain_field (ci_contextHash i) \<and> plain_field (ci_contextRevision i) \<and> plain_field (ci_principalType i) \<and> plain_field (ci_principalRef i)
     \<and> plain_field (ci_effectiveSubjectRef i) \<and> plain_field (ci_tenantRef i) \<and> plain_field (ci_workspaceRef i) \<and> plain_field (ci_resourceType i)
     \<and> plain_field (ci_resourceRef i) \<and> plain_field (ci_connectionRef i)
     \<and> (case ci_brandRef i of None \<Rightarrow> True | Some b \<Rightarrow> plain_field b))"

lemma requireApplicationString_plain: "requireApplicationString v f = Inr s \<Longrightarrow> plain_field s"
  by (auto simp: plain_field_def)

lemma optionalApplicationString_plain:
  "optionalApplicationString v = Inr x \<Longrightarrow> case x of None \<Rightarrow> True | Some b \<Rightarrow> plain_field b"
  by (auto simp: optionalApplicationString_def plain_field_def split: if_splits)

lemma contextIdentity_ok: "contextIdentity context = Inr i \<Longrightarrow> identity_ok i"
  unfolding contextIdentity_def res_bind_Inr_iff sum.inject
  apply (elim exE conjE)
  apply hypsubst
  unfolding identity_ok_def context_identity.simps
  by (intro conjI TrueI; (erule requireApplicationString_plain | erule optionalApplicationString_plain))

lemma capsuleString_plain: "requireString (JStr s) f = Inr r \<Longrightarrow> plain_field s \<Longrightarrow> r = s"
  by (simp add: capsuleString_Inr plain_field_def)

lemma capsuleOptional_plain:
  "optionalString (jopt x) f = Inr y \<Longrightarrow> (case x of None \<Rightarrow> True | Some b \<Rightarrow> plain_field b) \<Longrightarrow> y = x"
  by (cases x) (auto simp: optionalString_def optional_with_def plain_field_def capsuleString_Inr)

lemma identity_described:
  assumes "createExecutionCapsule h (JObj (identity_fields i @ rest)) = Inr c" and "identity_ok i"
  shows "identity_matches c i"
proof -
  obtain a b d where d: "read_descriptor (JObj (identity_fields i @ rest)) a b = Inr d" "ca_descriptor c = d"
    using assms(1) by (auto simp: createExecutionCapsule_def Let_def)
  show ?thesis
    using d(1) assms(2)
    unfolding read_descriptor_def identity_matches_def d(2) Let_def identity_ok_def identity_fields_def
    by (auto dest!: capsuleString_plain capsuleOptional_plain)
qed

lemma own_dependencies_current:
  assumes sealed: "capsule_sealed h c ys" and short: "short_resource (scope_of (ca_descriptor c))"
  shows "\<exists>r. compareExecutionCapsuleDependencies h (JArr (map dependency_value (ca_invalidationDependencies c)))
      (JArr (map dependency_value (ca_invalidationDependencies c))) = Inr r
    \<and> \<not> cmp_staticInvalidated r \<and> \<not> cmp_dynamicRefreshRequired r"
proof -
  let ?ds = "ca_invalidationDependencies c" and ?autos = "automaticDependencies (scope_of (ca_descriptor c))"
  have ok: "\<forall>d \<in> set ?ds. dependency_ok d"
    using sealed_dependencies_ok [OF sealed short] by blast
  have deps: "?ds = sort_by (compareDependencies h) (?autos @ ys)" "distinct_keys (?autos @ ys)"
      "length ys \<le> MAX_CAPSULE_DEPENDENCIES"
    using sealed by (simp_all add: capsule_sealed_def Let_def)
  then have "length ?ds \<le> 139"
    using automatic_length [of "scope_of (ca_descriptor c)"]
    by (simp add: MAX_CAPSULE_DEPENDENCIES_def)
  then have map: "buildDependencyMap h (map dependency_value ?ds) f n = Inr (keyed ?ds)" if "139 \<le> n" for f n
    using buildDependencyLoop_value [OF ok, of "[]"] sealed_distinct [OF sealed] that by (simp add: buildDependencyMap_def)
  have "139 \<le> MAX_CAPSULE_DEPENDENCIES + length DependencyDomains" "139 \<le> MAX_CURRENT_DEPENDENCIES"
    by code_simp+
  note maps = this [THEN map]
  obtain r where r: "compareExecutionCapsuleDependencies h (JArr (map dependency_value ?ds))
      (JArr (map dependency_value ?ds)) = Inr r"
    unfolding compareExecutionCapsuleDependencies_def by (simp add: maps Let_def)
  show ?thesis
    using r comparison_exact [OF r normalizeDependencies_value [OF ok] normalizeDependencies_value [OF ok]] by auto
qed

lemma resolved_intact:
  assumes "resolveCapsule h ttl clock arg = Inr r"
  obtains i ys where "contextIdentity (get (get arg ''resolution'') ''context'') = Inr i"
    "is_object (get (get arg ''resolution'') ''context'')"
    "identity_matches (cr_capsule r) i" "capsule_sealed h (cr_capsule r) ys"
    "short_resource (scope_of (ca_descriptor (cr_capsule r)))"
    "assertExecutionCapsuleIntegrity h (capsule_value (cr_capsule r)) = Inr (cr_capsule r)"
proof -
  let ?ctx = "get (get arg ''resolution'') ''context''"
  obtain i key where ik: "resolvedIdentity (get arg ''resolution'') = Inr (i, key)"
    using assms by (auto simp: resolveCapsule_def)
  obtain rest p where r: "createExecutionCapsule h (JObj (identity_fields i @ rest)) = Inr (cr_capsule r)"
      "projectExecutionCapsule h (capsule_value (cr_capsule r)) (JStr ''tenant'') = Inr p"
    using assms unfolding resolveCapsule_def ik by auto
  have i: "contextIdentity ?ctx = Inr i" "is_object ?ctx"
    using ik by (auto simp: resolvedIdentity_def)
  obtain c' where c': "assertExecutionCapsuleIntegrity h (capsule_value (cr_capsule r)) = Inr c'"
    using r(2) by (auto simp: projectExecutionCapsule_def)
  obtain ys where sealed: "capsule_sealed h (cr_capsule r) ys"
    using create_sealed [OF r(1)] by blast
  note short = asserted_short [OF sealed c']
  have "is_hex64 (ca_capsuleHash (cr_capsule r))"
    using assert_Inr [OF c'] by (auto simp: capsule_value_fields)
  then show ?thesis
    using that [OF i identity_described [OF r(1) contextIdentity_ok [OF i(1)]] sealed short
        sealed_assert [OF sealed short]] by blast
qed

text \<open>An intact capsule of the current context is found valid, whatever the kind of operation.\<close>

lemma intact_validates:
  assumes i: "contextIdentity context = Inr i" "is_object context" "identity_matches c i"
    and sealed: "capsule_sealed h c ys" "short_resource (scope_of (ca_descriptor c))"
    and intact: "assertExecutionCapsuleIntegrity h (capsule_value c) = Inr c"
    and t: "time_ok t" "unexpired c t"
    and arg: "get arg ''capsule'' = capsule_value c" "get arg ''currentContext'' = context"
      "get arg ''currentDependencies'' = JArr (map dependency_value (ca_invalidationDependencies c))"
      "normalizedDate h (default_arg (get arg ''now'') clock) ''now'' = Inr t"
      "default_arg (get arg ''blockedReasonCodes'') (JArr []) = JArr []"
      "get arg ''interpretationRequired'' \<noteq> JBool True"
    and op: "default_arg (get arg ''operationKind'') (JStr ''read'') = JStr op" "op \<in> set CAPSULE_OPERATION_KINDS"
      "op = ''mutation'' \<longrightarrow> get arg ''dynamicRefreshComplete'' = JBool True"
  shows "\<exists>v. validateCapsule h clock arg = Inr v \<and> vr_status v = VALID"
proof -
  have same: "capsuleContextMismatchFields c i = []" "ds_contextRevision (ca_descriptor c) = ci_contextRevision i"
    using i(3) mismatch_Nil by blast+
  have fresh: "\<not> (case (date_parse h (ds_expiresAt (ca_descriptor c)), date_parse h (iso_string t)) of
         (Some e, Some n) \<Rightarrow> e \<le> n | _ \<Rightarrow> False)"
    using unexpired_iff [OF intact t(1)] t(2) by simp
  obtain cmp where "compareExecutionCapsuleDependencies h (JArr (map dependency_value (ca_invalidationDependencies c)))
      (JArr (map dependency_value (ca_invalidationDependencies c))) = Inr cmp"
      "\<not> cmp_staticInvalidated cmp" "\<not> cmp_dynamicRefreshRequired cmp"
    using own_dependencies_current [OF sealed] by blast
  then have "validateAgainst h c i (JArr (map dependency_value (ca_invalidationDependencies c))) op
      (get arg ''dynamicRefreshComplete'' = JBool True) (iso_string t)
      = Inr (validationResult VALID c [] [] (Some cmp) (iso_string t))"
    unfolding validateAgainst_def Let_def using same fresh op(3) by auto
  then show ?thesis
    using i(1,2) intact capsule_value_fields(8) [of c] op(2) arg(6)
    unfolding validateCapsule_def arg op(1)
    by (simp add: Let_def string_value_def)
qed

definition plain_request :: "capsule \<Rightarrow> jsval \<Rightarrow> int \<Rightarrow> jsval" where
  "plain_request c context t = JObj [(''capsule'', capsule_value c), (''currentContext'', context),
      (''currentDependencies'', JArr (map dependency_value (ca_invalidationDependencies c))),
      (''now'', JDate (Some t))]"

lemma plain_request_fields:
  "get (plain_request c context t) ''capsule'' = capsule_value c"
  "get (plain_request c context t) ''currentContext'' = context"
  "get (plain_request c context t) ''currentDependencies'' = JArr (map dependency_value (ca_invalidationDependencies c))"
  "time_ok t \<Longrightarrow> normalizedDate h (default_arg (get (plain_request c context t) ''now'') clock) ''now'' = Inr t"
  "default_arg (get (plain_request c context t) ''blockedReasonCodes'') (JArr []) = JArr []"
  "get (plain_request c context t) ''interpretationRequired'' \<noteq> JBool True"
  "default_arg (get (plain_request c context t) ''operationKind'') (JStr ''read'') = JStr ''read''"
  by (simp_all add: plain_request_def default_arg_def own_get_def [of "[]"] object_prototype_def normalizedDate_def
      time_clip_def)

lemma intact_validates_plain:
  assumes "contextIdentity context = Inr i" "is_object context" "identity_matches c i"
    and "capsule_sealed h c ys" "short_resource (scope_of (ca_descriptor c))"
    and "assertExecutionCapsuleIntegrity h (capsule_value c) = Inr c" "time_ok t" "unexpired c t"
  shows "\<exists>v. validateCapsule h clock (plain_request c context t) = Inr v \<and> vr_status v = VALID"
  using intact_validates [OF assms plain_request_fields(1-3) plain_request_fields(4) [OF assms(7)]
      plain_request_fields(5-7)] by (simp add: CAPSULE_OPERATION_KINDS_def)

text \<open>
  C26. A capsule that the service hands out is found valid again: for the context of the
  resolution it was made from, its own dependencies and any time before its expiry, the
  validation succeeds and answers that the capsule is valid.
\<close>

theorem resolved_capsule_validates:
  assumes "resolveCapsule h ttl clock arg = Inr r" and "time_ok t" and "unexpired (cr_capsule r) t"
  shows "\<exists>v. validateCapsule h clock' (plain_request (cr_capsule r) (get (get arg ''resolution'') ''context'') t) = Inr v \<and> vr_status v = VALID"
  using resolved_intact [OF assms(1)] intact_validates_plain assms(2,3) by metis

section \<open>A concrete resolution\<close>

definition demo_candidate :: jsval where
  "demo_candidate = JObj [(''candidateType'', JStr ''resource''), (''stableRef'', JStr ''s1''), (''tenantRef'', JStr ''t1''),
     (''workspaceRef'', JStr ''w1''), (''resourceType'', JStr ''post''), (''resourceRef'', JStr ''p1''),
     (''connectionRef'', JStr ''c1'')]"

definition demo_context :: jsval where
  "demo_context = JObj [(''contextHash'', JStr ''ch''), (''contextRevision'', JStr ''r1''),
     (''principal'', JObj [(''principalType'', JStr ''admin''), (''principalRef'', JStr ''u1'')]),
     (''effectiveSubject'', JObj [(''subjectRef'', JStr ''u2'')]),
     (''tenantRef'', JStr ''t1''), (''workspaceRef'', JStr ''w1''), (''resourceType'', JStr ''post''),
     (''resourceRef'', JStr ''p1''), (''connectionRef'', JStr ''c1''), (''authority'', JObj [(''tenantRef'', JStr ''t1'')]),
     (''capability'', JObj [(''capabilityKey'', JStr ''pub''), (''dispatchAllowed'', JBool True)]),
     (''selectedCandidate'', demo_candidate)]"

definition demo_request :: jsval where
  "demo_request = JObj [(''resolution'', JObj [(''status'', JStr ''resolved''), (''context'', demo_context),
       (''selectedCandidate'', demo_candidate), (''candidates'', JArr [demo_candidate])]),
     (''authorityPathRef'', JStr ''ap''), (''authorityRevision'', JStr ''ar''), (''capabilityRevision'', JStr ''cr''),
     (''registryRevision'', JStr ''rr''), (''credentialReadinessRevision'', JStr ''cv''),
     (''expiresAt'', JDate (Some 9000))]"

definition demo_identity :: context_identity where
  "demo_identity = \<lparr>ci_contextHash = ''ch'', ci_contextRevision = ''r1'', ci_principalType = ''admin'',
     ci_principalRef = ''u1'', ci_effectiveSubjectRef = ''u2'', ci_tenantRef = ''t1'', ci_workspaceRef = ''w1'',
     ci_brandRef = None, ci_resourceType = ''post'', ci_resourceRef = ''p1'', ci_connectionRef = ''c1''\<rparr>"

lemma demo_identity_resolved:
  "resolvedIdentity (get demo_request ''resolution'') = Inr (demo_identity, ''pub'')"
  "contextIdentity demo_context = Inr demo_identity"
  "is_object demo_context"
  by code_simp+

lemma demo_identity_matches: "identity_matches (demo_capsule ''post'' ''p1'') demo_identity"
  by (simp add: identity_matches_def demo_capsule_def demo_descriptor_def demo_identity_def)

lemma demo_unexpired: "unexpired (demo_capsule rtype rref) 5000"
  unfolding unexpired_def
  by (intro exI [of _ 9000]) (simp add: demo_capsule_def demo_descriptor_def time_ok_def)

lemma demo_short: "short_resource (scope_of (ca_descriptor (demo_capsule ''post'' ''p1'')))"
  by (simp add: demo_capsule_def short_resource_def scope_of_def demo_descriptor_def MAX_FIELD_LENGTH_def)

definition demo_input :: jsval where
  "demo_input = JObj (identity_fields demo_identity @
     [(''authorityPathRef'', JStr ''ap''), (''capabilityKey'', JStr ''pub''),
      (''authorityRevision'', JStr ''ar''), (''capabilityRevision'', JStr ''cr''), (''registryRevision'', JStr ''rr''),
      (''credentialReadinessRevision'', JStr ''cv''), (''invalidationDependencies'', JArr []),
      (''issuedAt'', JDate (Some 1000)), (''expiresAt'', JDate (Some 9000))])"

lemma demo_input_created: "createExecutionCapsule plain_host demo_input = Inr (demo_capsule ''post'' ''p1'')"
proof (rule create_from [OF demo_sealed [OF demo_short_fits]])
  let ?d = "ca_descriptor (demo_capsule ''post'' ''p1'')"
  show "read_descriptor demo_input (ds_issuedAt ?d) (ds_expiresAt ?d) = Inr ?d"
    by code_simp
  show "normalizeDate plain_host (get demo_input ''issuedAt'') ''issuedAt'' = Inr (ds_issuedAt ?d)"
      "normalizeDate plain_host (get demo_input ''expiresAt'') ''expiresAt'' = Inr (ds_expiresAt ?d)"
    by code_simp+
  show "get demo_input ''invalidationDependencies'' = JArr (map dependency_value (sort_by (compareDependencies plain_host) []))"
      "\<not> truthy (get demo_input ''capsuleRef'') \<or> get demo_input ''capsuleRef'' = JStr (ca_capsuleRef (demo_capsule ''post'' ''p1''))"
    by code_simp+
qed

lemma demo_projected:
  assumes "mode = ''tenant'' \<or> mode = ''admin''"
  shows "\<exists>p. projectExecutionCapsule plain_host (capsule_value (demo_capsule ''post'' ''p1'')) (JStr mode) = Inr p"
  using assms by (auto simp: projectExecutionCapsule_def demo_accepted default_arg_def ProjectionModes_def Let_def)

lemma demo_resolved:
  "\<exists>r. resolveCapsule plain_host 900000 (JDate (Some 1000)) demo_request = Inr r
     \<and> cr_capsule r = demo_capsule ''post'' ''p1''"
proof -
  have "normalizedDate plain_host (JDate (Some 1000)) ''clock result'' = Inr 1000"
      "capsuleExpiry plain_host 900000 1000 (get demo_request ''expiresAt'') = Inr (Some 9000)"
      "requireApplicationString (get demo_request ''authorityPathRef'') ''authorityPathRef'' = Inr ''ap''"
      "requireApplicationString (get demo_request ''authorityRevision'') ''authorityRevision'' = Inr ''ar''"
      "requireApplicationString (get demo_request ''capabilityRevision'') ''capabilityRevision'' = Inr ''cr''"
      "requireApplicationString (get demo_request ''registryRevision'') ''registryRevision'' = Inr ''rr''"
      "requireApplicationString (get demo_request ''credentialReadinessRevision'') ''credentialReadinessRevision''
         = Inr ''cv''"
      "default_arg (get demo_request ''invalidationDependencies'') (JArr []) = JArr []"
    by code_simp+
  note steps = this demo_identity_resolved(1) demo_input_created [unfolded demo_input_def]
  obtain p q where "projectExecutionCapsule plain_host (capsule_value (demo_capsule ''post'' ''p1'')) (JStr ''tenant'') = Inr p"
      "projectExecutionCapsule plain_host (capsule_value (demo_capsule ''post'' ''p1'')) (JStr ''admin'') = Inr q"
    using demo_projected [of "''tenant''"] demo_projected [of "''admin''"] by auto
  then show ?thesis
    unfolding resolveCapsule_def by (simp add: steps res_bind_def res_check_def)
qed

theorem capsule_valid_iff_witness:
  "\<exists>r. validateCapsule plain_host JNull (plain_request (demo_capsule ''post'' ''p1'') demo_context 5000) = Inr r \<and> vr_status r = VALID \<and> \<not> vr_executionAllowed r"
  using intact_validates_plain [OF demo_identity_resolved(2,3) demo_identity_matches demo_sealed [OF demo_short_fits]
      demo_short demo_accepted _ demo_unexpired, of JNull] capsule_valid_iff
  by (auto simp: time_ok_def)

theorem resolved_capsule_validates_witness:
  "\<exists>v. validateCapsule plain_host JNull (plain_request (demo_capsule ''post'' ''p1'') demo_context 5000) = Inr v \<and> vr_status v = VALID"
proof -
  obtain r where r: "resolveCapsule plain_host 900000 (JDate (Some 1000)) demo_request = Inr r"
      "cr_capsule r = demo_capsule ''post'' ''p1''"
    using demo_resolved by blast
  have "get (get demo_request ''resolution'') ''context'' = demo_context"
    by (simp add: demo_request_def)
  then show ?thesis
    using resolved_capsule_validates [OF r(1), of 5000 JNull] r(2) demo_unexpired by (simp add: time_ok_def)
qed

end
