(* ===== verification/Kernel_MutationGate.thy ===== *)
theory Kernel_MutationGate
  imports Kernel_CapsuleService
begin

text \<open>
  \<^verbatim>\<open>contextKernel/integration/executionCapsuleMutationDispatchGate.js\<close>: the gate in
  front of mutating operations. It lets a dispatcher run only after it has checked the
  contract of the operation, the capsule, the input, freshly gathered evidence and the
  governance decision, and it reports every attempt. The evidence provider and the
  dispatcher are functions the gate is given; each answers with a value or throws one.
  A run is the list of the gate's calls, in order, with its outcome.
\<close>

section \<open>Errors\<close>

text \<open>
  An error of the kernel's own modules, a refusal with its code and reasons, or whatever
  the provider or the dispatcher threw.
\<close>

datatype gate_error =
    Kernel_Error js_error
  | Refused string "string list"
  | Foreign jsval

type_synonym 'a gate_res = "gate_error + 'a"

definition from_kernel :: "'a res \<Rightarrow> 'a gate_res" where
  "from_kernel m = (case m of Inl e \<Rightarrow> Inl (Kernel_Error e) | Inr x \<Rightarrow> Inr x)"

definition from_foreign :: "jsval + jsval \<Rightarrow> jsval gate_res" where
  "from_foreign m = (case m of Inl e \<Rightarrow> Inl (Foreign e) | Inr x \<Rightarrow> Inr x)"

definition TOKEN_PATTERN :: "string \<Rightarrow> bool" where
  "TOKEN_PATTERN s = bounded_pattern is_alnum (\<lambda>c. is_alnum c \<or> c \<in> set ''_.:-'') 0 190 s"

definition is_hex :: "char \<Rightarrow> bool" where
  "is_hex c = (is_digit c \<or> 97 \<le> code c \<and> code c \<le> 102)"

definition SHA_PATTERN :: "string \<Rightarrow> bool" where
  "SHA_PATTERN s = (7 \<le> length s \<and> length s \<le> 64 \<and> list_all is_hex s
     \<or> take 7 s = ''sha256-'' \<and> 39 \<le> length s \<and> length s \<le> 135 \<and> list_all is_hex (drop 7 s))"

definition REQUIRED_STATUSES :: "(string \<times> string) list" where
  "REQUIRED_STATUSES = [(''approval'', ''approved''), (''capability_envelope'', ''active''),
     (''effective_authority'', ''active''), (''resource_version'', ''current''),
     (''provider_version'', ''current''), (''connection_status'', ''active''), (''expected_sha'', ''matched'')]"

definition REQUIRED_DYNAMIC_EVIDENCE_KEYS :: "string list" where
  "REQUIRED_DYNAMIC_EVIDENCE_KEYS = sort_strings (map fst REQUIRED_STATUSES)"

definition FORBIDDEN_INPUT_FIELDS :: "string list" where
  "FORBIDDEN_INPUT_FIELDS = [''authorization'', ''proxyauthorization'', ''cookie'', ''setcookie'', ''password'',
     ''passwd'', ''secret'', ''credential'', ''credentials'', ''accesstoken'', ''refreshtoken'', ''idtoken'',
     ''apikey'', ''clientsecret'', ''privatekey'', ''session'', ''sessionid'']"

text \<open>
  The patterns of secret values are those of the capsule, except that the word may also be
  followed by a colon, and by spaces before it.
\<close>

definition labelled_pattern :: rx where
  "labelled_pattern = rseqs [secret_words, RStar (RCls is_space), RCls (\<lambda>c. c \<in> set '':='')]"

definition secret_value :: "string \<Rightarrow> bool" where
  "secret_value s = (rx_find bearer_pattern s \<or> rx_find private_key_pattern s
     \<or> rx_find labelled_pattern s \<or> rx_full jwt_pattern s)"

definition token_of :: "jsval \<Rightarrow> string" where
  "token_of v = trim (string_value v)"

definition cleanToken :: "jsval \<Rightarrow> string \<Rightarrow> string res" where
  "cleanToken v fieldName = (if TOKEN_PATTERN (token_of v) then Inr (token_of v)
     else Inl (TypeError (fieldName @ '' must be a bounded token.'')))"

definition safeReasonCodes :: "jsval \<Rightarrow> string \<Rightarrow> string list" where
  "safeReasonCodes v fallback = (let
     bounded = take 16 (sort_strings (uniq (filter TOKEN_PATTERN (map token_of (array_items v))))) in
     if bounded \<noteq> [] then bounded else [fallback])"

definition failure :: "string \<Rightarrow> string list \<Rightarrow> gate_error" where
  "failure c reasonCodes = Refused c (safeReasonCodes (JArr (map JStr reasonCodes)) c)"

definition normalizedFieldName :: "string \<Rightarrow> string" where
  "normalizedFieldName k = to_lower (filter (\<lambda>c. c \<noteq> CHR ''_'' \<and> c \<noteq> CHR ''-'') k)"

section \<open>The safe copy of the input\<close>

text \<open>
  The copy counts the values it has visited. Cycles, accessors, symbols and array holes
  have no counterpart among the values of the model; the checks that reject them are the
  only ones left out.
\<close>

definition unsafe :: "string \<Rightarrow> gate_error" where
  "unsafe reason = failure ''execution_capsule_mutation_dispatch_input_unsafe'' [reason]"

definition safeKey :: "string \<Rightarrow> unit gate_res" where
  "safeKey k =
     (if k \<in> set [''__proto__'', ''prototype'', ''constructor''] then Inl (unsafe ''input_prototype_key'')
      else if normalizedFieldName k \<in> set FORBIDDEN_INPUT_FIELDS then Inl (unsafe ''input_authority_field'')
      else Inr ())"

definition sorted_entries :: "host \<Rightarrow> (string \<times> jsval) list \<Rightarrow> (string \<times> jsval) list" where
  "sorted_entries h kvs = sort_by (key fst (collate h)) kvs"

lemma size_sorted_entries: "size_list f (sorted_entries h kvs) = size_list f kvs"
  unfolding sorted_entries_def size_list_conv_sum_list using sum_list_sort by simp

function projectSafeValue :: "host \<Rightarrow> nat \<Rightarrow> jsval \<Rightarrow> nat \<Rightarrow> (jsval \<times> nat) gate_res"
  and projectSafeItems :: "host \<Rightarrow> nat \<Rightarrow> jsval list \<Rightarrow> nat \<Rightarrow> (jsval list \<times> nat) gate_res"
  and projectSafeEntries :: "host \<Rightarrow> nat \<Rightarrow> (string \<times> jsval) list \<Rightarrow> nat \<Rightarrow> ((string \<times> jsval) list \<times> nat) gate_res" where
  "projectSafeValue h depth v n = (let n = Suc n in
     if 512 < n then Inl (unsafe ''input_too_large'')
     else if 8 < depth then Inl (unsafe ''input_too_deep'')
     else (case v of
       JNull \<Rightarrow> Inr (JNull, n) | JBool b \<Rightarrow> Inr (JBool b, n) | JNum r \<Rightarrow> Inr (JNum r, n)
     | JNaN \<Rightarrow> Inl (unsafe ''input_non_finite'') | JInf p \<Rightarrow> Inl (unsafe ''input_non_finite'')
     | JStr s \<Rightarrow>
         if 16 * 1024 < length s then Inl (unsafe ''input_string_too_large'')
         else if secret_value s then Inl (unsafe ''input_secret_like'')
         else Inr (JStr s, n)
     | JUndef \<Rightarrow> Inl (unsafe ''input_type_unsupported'') | JFun f \<Rightarrow> Inl (unsafe ''input_type_unsupported'')
     | JDate t \<Rightarrow> Inl (unsafe ''input_object_type_unsupported'')
     | JArr vs \<Rightarrow>
         if 128 < length vs then Inl (unsafe ''input_array_too_large'')
         else res_bind (projectSafeItems h (Suc depth) vs n) (\<lambda>(ws, m). Inr (JArr ws, m))
     | JObj kvs \<Rightarrow>
         if 128 < length kvs then Inl (unsafe ''input_object_too_large'')
         else res_bind (projectSafeEntries h (Suc depth) (sorted_entries h kvs) n) (\<lambda>(ws, m). Inr (JObj ws, m))))"
| "projectSafeItems h depth [] n = Inr ([], n)"
| "projectSafeItems h depth (v # vs) n =
     res_bind (projectSafeValue h depth v n) (\<lambda>(w, m).
     res_bind (projectSafeItems h depth vs m) (\<lambda>(ws, k). Inr (w # ws, k)))"
| "projectSafeEntries h depth [] n = Inr ([], n)"
| "projectSafeEntries h depth ((k, v) # kvs) n =
     res_bind (safeKey k) (\<lambda>_.
     res_bind (projectSafeValue h depth v n) (\<lambda>(w, m).
     res_bind (projectSafeEntries h depth kvs m) (\<lambda>(ws, m'). Inr ((k, w) # ws, m'))))"
  by pat_completeness auto

termination
  by (relation "measure (case_sum (\<lambda>(h, d, v, n). 2 * size v)
      (case_sum (\<lambda>(h, d, vs, n). 2 * size_list size vs + 1)
        (\<lambda>(h, d, kvs, n). 2 * size_list (size_prod (\<lambda>_. 0) size) kvs + 1)))")
    (auto simp: size_sorted_entries)

declare projectSafeValue.simps [simp del]

definition projectSafeDispatchInput :: "host \<Rightarrow> jsval \<Rightarrow> jsval gate_res" where
  "projectSafeDispatchInput h v = res_bind (projectSafeValue h 0 v 0) (\<lambda>(w, n). Inr w)"

section \<open>Binding to the capsule\<close>

text \<open>\<^verbatim>\<open>Object.hasOwn(v, k)\<close>.\<close>

definition has_own :: "jsval \<Rightarrow> string \<Rightarrow> bool" where
  "has_own v k = (case v of JObj kvs \<Rightarrow> map_of kvs k \<noteq> None | _ \<Rightarrow> False)"

text \<open>A field the value carries and that differs from the one given.\<close>

definition deviates :: "jsval \<Rightarrow> string \<Rightarrow> jsval \<Rightarrow> bool" where
  "deviates v k expected = (has_own v k \<and> \<not> strict_eq (or_null_value (get v k)) (or_null_value expected))"

definition capsule_field :: "capsule \<Rightarrow> string \<Rightarrow> jsval" where
  "capsule_field c k = get (capsule_value c) k"

text \<open>\<^verbatim>\<open>value.replace(/_([a-z0-9])/gu, ...)\<close>: an underscore and the letter after it become the capital.\<close>

fun camel_case :: "string \<Rightarrow> string" where
  "camel_case (c # d # s) = (if c = CHR ''_'' \<and> (is_lower d \<or> is_digit d) then upper_char d @ camel_case s
     else c # camel_case (d # s))"
| "camel_case s = s"

definition resourceReferenceField :: "string \<Rightarrow> string option" where
  "resourceReferenceField resourceType =
     (if bounded_pattern is_lower (\<lambda>c. is_lower c \<or> is_digit c \<or> c = CHR ''_'') 0 62 resourceType
      then Some (camel_case resourceType @ ''Ref'') else None)"

definition re_resolve :: "string \<Rightarrow> gate_error" where
  "re_resolve reason = failure ''execution_capsule_mutation_dispatch_context_re_resolution_required'' [reason]"

definition inputFields :: "string list" where
  "inputFields = [''tenantRef'', ''workspaceRef'', ''brandRef'', ''resourceType'', ''resourceRef'', ''connectionRef'']"

definition evidenceFields :: "string list" where
  "evidenceFields = [''tenantRef'', ''workspaceRef'', ''brandRef'', ''resourceRef'', ''connectionRef'']"

text \<open>
  \<^verbatim>\<open>String(v || "").trim().toLowerCase()\<close>.
\<close>

definition sha_text :: "host \<Rightarrow> jsval \<Rightarrow> string" where
  "sha_text h v = to_lower (trim (string_if_truthy h v))"

text \<open>
  The objects of the safe copy have no prototype, so that converting one to a string throws.
\<close>

fun unprintable :: "jsval \<Rightarrow> bool" where
  "unprintable (JObj kvs) = True"
| "unprintable (JArr vs) = list_ex unprintable vs"
| "unprintable _ = False"

record dynamic_evidence =
  ev_evidenceKey :: string
  ev_status :: string
  ev_revision :: string
  ev_evidenceRef :: "string option"
  ev_expectedSha :: "string option"

definition assertDispatchInputBinding :: "host \<Rightarrow> jsval \<Rightarrow> capsule \<Rightarrow> dynamic_evidence list \<Rightarrow> unit gate_res" where
  "assertDispatchInputBinding h dispatchInput c dynamicEvidence =
     (if \<not> is_object dispatchInput then Inl (unsafe ''input_object_required'')
      else case find (\<lambda>k. deviates dispatchInput k (capsule_field c k)) inputFields of
        Some k \<Rightarrow> Inl (re_resolve (''execution_capsule_mutation_dispatch_input_'' @ k @ ''_mismatch''))
      | None \<Rightarrow>
        res_bind (case resourceReferenceField (ds_resourceType (ca_descriptor c)) of
          None \<Rightarrow> Inr ()
        | Some resourceAlias \<Rightarrow>
            res_check (\<not> (resourceAlias \<noteq> ''resourceRef''
                \<and> deviates dispatchInput resourceAlias (capsule_field c ''resourceRef'')))
              (re_resolve (''execution_capsule_mutation_dispatch_input_'' @ resourceAlias @ ''_mismatch''))) (\<lambda>_.
        res_bind (res_check (\<not> unprintable (get dispatchInput ''expectedSha''))
          (Kernel_Error (TypeError ''Cannot convert object to primitive value''))) (\<lambda>_.
        let inputExpectedSha = sha_text h (get dispatchInput ''expectedSha'') in
        res_check (case find (\<lambda>e. ev_evidenceKey e = ''expected_sha'') dynamicEvidence of
            None \<Rightarrow> False
          | Some e \<Rightarrow> has_own dispatchInput ''expectedSha'' \<and> SHA_PATTERN inputExpectedSha
              \<and> ev_expectedSha e = Some inputExpectedSha)
          (failure ''execution_capsule_mutation_dispatch_expected_sha_mismatch''
            [''execution_capsule_mutation_dispatch_expected_sha_mismatch'']))))"

section \<open>The contract and the governance decision\<close>

record mutation_contract =
  mc_operationKey :: string
  mc_riskClass :: string
  mc_rollbackOperationKey :: string
  mc_requiredDynamicEvidence :: "string list"

definition plain_failure :: "string \<Rightarrow> gate_error" where
  "plain_failure c = failure c [c]"

definition requiredEvidenceKey :: "nat \<times> jsval \<Rightarrow> string gate_res" where
  "requiredEvidenceKey = (\<lambda>(index, entry).
     res_bind (from_kernel (cleanToken entry (''operationContract.requiredDynamicEvidence['' @ show_nat index @ '']''))) (\<lambda>k.
     if map_of REQUIRED_STATUSES k = None
     then Inl (Kernel_Error (TypeError (''Unsupported dynamic evidence key: '' @ k))) else Inr k))"

definition requireMutationOperationContract :: "jsval \<Rightarrow> mutation_contract gate_res" where
  "requireMutationOperationContract v =
     res_bind (res_check (is_object v) (Kernel_Error (TypeError ''operationContract must be an object.''))) (\<lambda>_.
     res_bind (res_check (get v ''operationKind'' = JStr ''mutation'' \<and> get v ''mutationRequired'' = JBool True)
       (plain_failure ''execution_capsule_mutation_dispatch_requires_mutation_operation'')) (\<lambda>_.
     res_bind (res_check (get v ''reversible'' = JBool True)
       (plain_failure ''execution_capsule_mutation_dispatch_requires_reversible_operation'')) (\<lambda>_.
     res_bind (res_map requiredEvidenceKey (enumerate 0 (array_items (get v ''requiredDynamicEvidence'')))) (\<lambda>keys.
     let requiredDynamicEvidence = sort_strings (uniq keys);
         missingDynamicEvidence = filter (\<lambda>k. k \<notin> set requiredDynamicEvidence) REQUIRED_DYNAMIC_EVIDENCE_KEYS in
     res_bind (res_check (missingDynamicEvidence = [])
       (failure ''execution_capsule_mutation_dispatch_dynamic_evidence_contract_incomplete''
         (map (\<lambda>k. ''execution_capsule_mutation_dispatch_'' @ k @ ''_required'') missingDynamicEvidence))) (\<lambda>_.
     res_bind (from_kernel (cleanToken (get v ''operationKey'') ''operationContract.operationKey'')) (\<lambda>operationKey.
     res_bind (from_kernel (cleanToken (js_or (get v ''riskClass'') (JStr ''mutation'')) ''operationContract.riskClass''))
       (\<lambda>riskClass.
     res_bind (from_kernel (cleanToken (get v ''rollbackOperationKey'') ''operationContract.rollbackOperationKey''))
       (\<lambda>rollbackOperationKey.
     Inr \<lparr>mc_operationKey = operationKey, mc_riskClass = riskClass, mc_rollbackOperationKey = rollbackOperationKey,
       mc_requiredDynamicEvidence = requiredDynamicEvidence\<rparr>))))))))"

record governance =
  gv_decisionRef :: string
  gv_decisionRevision :: string
  gv_operationKey :: string
  gv_contextHash :: string

definition requireGovernanceDecision :: "jsval \<Rightarrow> mutation_contract \<Rightarrow> capsule \<Rightarrow> governance gate_res" where
  "requireGovernanceDecision v contract c =
     res_bind (res_check (is_object v) (plain_failure ''execution_capsule_mutation_dispatch_governance_missing'')) (\<lambda>_.
     res_bind (res_check (get v ''status'' = JStr ''allowed'' \<and> get v ''dispatchAllowed'' = JBool True
         \<and> get v ''mutationAllowed'' = JBool True)
       (failure ''execution_capsule_mutation_dispatch_governance_blocked''
         (safeReasonCodes (get v ''reasonCodes'') ''execution_capsule_mutation_dispatch_governance_blocked''))) (\<lambda>_.
     res_bind (from_kernel (cleanToken (get v ''operationKey'') ''governanceDecision.operationKey'')) (\<lambda>operationKey.
     res_bind (from_kernel (cleanToken (get v ''contextHash'') ''governanceDecision.contextHash'')) (\<lambda>contextHash.
     res_bind (res_check (operationKey = mc_operationKey contract)
       (plain_failure ''execution_capsule_mutation_dispatch_operation_mismatch'')) (\<lambda>_.
     res_bind (res_check (contextHash = ds_contextHash (ca_descriptor c))
       (plain_failure ''execution_capsule_mutation_dispatch_governance_context_mismatch'')) (\<lambda>_.
     res_bind (from_kernel (cleanToken (get v ''decisionRef'') ''governanceDecision.decisionRef'')) (\<lambda>decisionRef.
     res_bind (from_kernel (cleanToken (get v ''decisionRevision'') ''governanceDecision.decisionRevision''))
       (\<lambda>decisionRevision.
     Inr \<lparr>gv_decisionRef = decisionRef, gv_decisionRevision = decisionRevision, gv_operationKey = operationKey,
       gv_contextHash = contextHash\<rparr>))))))))"

section \<open>Dynamic evidence\<close>

text \<open>\<^verbatim>\<open>v && typeof v === "object"\<close>: here an array passes.\<close>

definition is_reference :: "jsval \<Rightarrow> bool" where
  "is_reference v = (is_object v \<or> (case v of JArr _ \<Rightarrow> True | _ \<Rightarrow> False))"

definition requireCurrentEvidence :: "jsval \<Rightarrow> jsval res" where
  "requireCurrentEvidence v =
     res_bind (res_check (is_object v) (TypeError ''dynamicEvidenceProvider must return an object.'')) (\<lambda>_.
     res_bind (res_check (is_reference (get v ''currentContext''))
       (TypeError ''dynamicEvidence.currentContext must be an object.'')) (\<lambda>_.
     res_bind (res_check (case get v ''currentDependencies'' of JArr _ \<Rightarrow> True | _ \<Rightarrow> False)
       (TypeError ''dynamicEvidence.currentDependencies must be an array.'')) (\<lambda>_.
     res_bind (res_check (is_object (get v ''items'')) (TypeError ''dynamicEvidence.items must be an object.'')) (\<lambda>_.
     Inr v))))"

definition assertNoContextSubstitution :: "jsval \<Rightarrow> capsule \<Rightarrow> string \<Rightarrow> unit gate_res" where
  "assertNoContextSubstitution item c k =
     (case find (\<lambda>f. deviates item f (capsule_field c f)) evidenceFields of
        Some f \<Rightarrow> Inl (re_resolve (''execution_capsule_mutation_dispatch_'' @ k @ ''_'' @ f @ ''_mismatch''))
      | None \<Rightarrow> Inr ())"

definition matchedSha :: "host \<Rightarrow> jsval \<Rightarrow> string \<Rightarrow> string option gate_res" where
  "matchedSha h item k =
     (if k = ''expected_sha'' then
        let expectedSha = sha_text h (get item ''expectedSha''); actualSha = sha_text h (get item ''actualSha'') in
        if SHA_PATTERN expectedSha \<and> SHA_PATTERN actualSha \<and> expectedSha = actualSha then Inr (Some expectedSha)
        else Inl (plain_failure ''execution_capsule_mutation_dispatch_expected_sha_mismatch'')
      else Inr None)"

definition projectEvidenceItem :: "host \<Rightarrow> jsval \<Rightarrow> mutation_contract \<Rightarrow> capsule \<Rightarrow> string \<Rightarrow> dynamic_evidence gate_res" where
  "projectEvidenceItem h items contract c k = (let
     item = get items k; path = ''dynamicEvidence.items.'' @ k; reason = ''execution_capsule_mutation_dispatch_'' @ k in
     res_bind (res_check (is_object item)
       (failure ''execution_capsule_mutation_dispatch_dynamic_evidence_missing'' [reason @ ''_missing''])) (\<lambda>_.
     res_bind (from_kernel (cleanToken (get item ''status'') (path @ ''.status''))) (\<lambda>status.
     res_bind (res_check (map_of REQUIRED_STATUSES k = Some status)
       (failure ''execution_capsule_mutation_dispatch_dynamic_evidence_blocked''
         (safeReasonCodes (get item ''reasonCodes'') (reason @ ''_'' @ status)))) (\<lambda>_.
     res_bind (from_kernel (cleanToken (get item ''operationKey'') (path @ ''.operationKey''))) (\<lambda>operationKey.
     res_bind (res_check (operationKey = mc_operationKey contract)
       (failure ''execution_capsule_mutation_dispatch_dynamic_evidence_operation_mismatch''
         [reason @ ''_operation_mismatch''])) (\<lambda>_.
     res_bind (from_kernel (cleanToken (get item ''contextHash'') (path @ ''.contextHash''))) (\<lambda>contextHash.
     res_bind (res_check (contextHash = ds_contextHash (ca_descriptor c)) (re_resolve (reason @ ''_context_mismatch''))) (\<lambda>_.
     res_bind (assertNoContextSubstitution item c k) (\<lambda>_.
     res_bind (from_kernel (cleanToken (get item ''revision'') (path @ ''.revision''))) (\<lambda>revision.
     res_bind (if nullish (get item ''evidenceRef'') then Inr None
       else res_bind (from_kernel (cleanToken (get item ''evidenceRef'') (path @ ''.evidenceRef''))) (\<lambda>r. Inr (Some r)))
       (\<lambda>evidenceRef.
     res_bind (matchedSha h item k) (\<lambda>sha.
     Inr \<lparr>ev_evidenceKey = k, ev_status = status, ev_revision = revision, ev_evidenceRef = evidenceRef,
       ev_expectedSha = sha\<rparr>))))))))))))"

definition projectDynamicEvidence :: "host \<Rightarrow> jsval \<Rightarrow> mutation_contract \<Rightarrow> capsule \<Rightarrow> dynamic_evidence list gate_res" where
  "projectDynamicEvidence h items contract c =
     res_map (projectEvidenceItem h items contract c) (mc_requiredDynamicEvidence contract)"

section \<open>The gate\<close>

definition safeExecutionContext :: "capsule \<Rightarrow> jsval" where
  "safeExecutionContext c = (let d = ca_descriptor c in JObj
     [(''capsuleRef'', JStr (ca_capsuleRef c)), (''contextHash'', JStr (ds_contextHash d)),
      (''contextRevision'', JStr (ds_contextRevision d)), (''tenantRef'', JStr (ds_tenantRef d)),
      (''workspaceRef'', JStr (ds_workspaceRef d)), (''brandRef'', jopt (ds_brandRef d)),
      (''resourceType'', JStr (ds_resourceType d)), (''resourceRef'', JStr (ds_resourceRef d)),
      (''connectionRef'', JStr (ds_connectionRef d))])"

definition contract_value :: "mutation_contract \<Rightarrow> jsval" where
  "contract_value m = JObj
     [(''operationKey'', JStr (mc_operationKey m)), (''operationKind'', JStr ''mutation''),
      (''riskClass'', JStr (mc_riskClass m)), (''mutationRequired'', JBool True), (''reversible'', JBool True),
      (''rollbackOperationKey'', JStr (mc_rollbackOperationKey m)),
      (''requiredDynamicEvidence'', JArr (map JStr (mc_requiredDynamicEvidence m)))]"

definition governance_value :: "governance \<Rightarrow> jsval" where
  "governance_value g = JObj
     [(''decisionRef'', JStr (gv_decisionRef g)), (''decisionRevision'', JStr (gv_decisionRevision g)),
      (''operationKey'', JStr (gv_operationKey g)), (''contextHash'', JStr (gv_contextHash g)),
      (''status'', JStr ''allowed''), (''dispatchAllowed'', JBool True), (''mutationAllowed'', JBool True)]"

definition evidence_value :: "dynamic_evidence \<Rightarrow> jsval" where
  "evidence_value e = JObj
     ([(''evidenceKey'', JStr (ev_evidenceKey e)), (''status'', JStr (ev_status e)),
       (''revision'', JStr (ev_revision e)), (''evidenceRef'', jopt (ev_evidenceRef e))]
      @ (case ev_expectedSha e of None \<Rightarrow> [] | Some s \<Rightarrow> [(''expectedSha'', JStr s)]))"

definition dispatchEnvelope :: "mutation_contract \<Rightarrow> governance \<Rightarrow> capsule \<Rightarrow> dynamic_evidence list \<Rightarrow> jsval \<Rightarrow> jsval" where
  "dispatchEnvelope m g c dynamicEvidence dispatchInput = JObj
     [(''operationContract'', contract_value m), (''governanceDecision'', governance_value g),
      (''executionContext'', safeExecutionContext c),
      (''dynamicEvidence'', JArr (map evidence_value dynamicEvidence)),
      (''rollbackContract'', JObj [(''required'', JBool True), (''operationKey'', JStr (mc_rollbackOperationKey m))]),
      (''dispatchInput'', dispatchInput)]"

record telemetry =
  te_operationKey :: string
  te_validationStatus :: "validation_status option"
  te_governanceStatus :: "string option"
  te_dynamicEvidenceCount :: nat
  te_dispatcherInvoked :: bool
  te_dispatchSucceeded :: bool
  te_mutationAllowed :: bool
  te_reversible :: bool
  te_capsuleGrantedAuthority :: bool
  te_reasonCodes :: "string list"
  te_secretsIncluded :: bool

datatype gate_action =
    ProviderCalled jsval
  | DispatcherCalled jsval
  | Emitted telemetry

text \<open>What the gate has established so far, which is what it reports on failure.\<close>

record progress =
  pr_contract :: "mutation_contract option"
  pr_validation :: "validation_result option"
  pr_governance :: "governance option"
  pr_dispatcherInvoked :: bool
  pr_actions :: "gate_action list"

definition step :: "progress \<Rightarrow> 'a gate_res \<Rightarrow> ('a \<Rightarrow> progress \<times> 'b gate_res) \<Rightarrow> progress \<times> 'b gate_res" where
  "step p m k = (case m of Inl e \<Rightarrow> (p, Inl e) | Inr x \<Rightarrow> k x)"

definition providerRequest :: "capsule \<Rightarrow> mutation_contract \<Rightarrow> jsval \<Rightarrow> jsval" where
  "providerRequest c m dispatchInput = JObj [(''capsule'', capsule_value c),
     (''operationContract'', contract_value m), (''dispatchInput'', dispatchInput)]"

definition validationRequest :: "capsule \<Rightarrow> jsval \<Rightarrow> jsval \<Rightarrow> jsval" where
  "validationRequest c evidence clock = JObj [(''capsule'', capsule_value c),
     (''currentContext'', get evidence ''currentContext''),
     (''currentDependencies'', get evidence ''currentDependencies''),
     (''operationKind'', JStr ''mutation''), (''dynamicRefreshComplete'', JBool True),
     (''interpretationRequired'', JBool (get evidence ''interpretationRequired'' = JBool True)),
     (''blockedReasonCodes'', JArr (array_items (get evidence ''blockedReasonCodes''))),
     (''now'', if nullish (get evidence ''now'') then clock else get evidence ''now'')]"

definition requireValid :: "validation_result \<Rightarrow> unit gate_res" where
  "requireValid v = res_check (vr_status v = VALID)
     (failure (if vr_requiresContextReresolution v
         then ''execution_capsule_mutation_dispatch_context_re_resolution_required''
         else ''execution_capsule_mutation_dispatch_'' @ status_string (vr_status v))
       (vr_reasonCodes v))"

definition attempt :: "host \<Rightarrow> (jsval \<Rightarrow> validation_result res) \<Rightarrow> (jsval \<Rightarrow> jsval + jsval) \<Rightarrow> (jsval \<Rightarrow> jsval + jsval)
    \<Rightarrow> jsval \<Rightarrow> jsval \<Rightarrow> progress \<times> (jsval \<times> nat) gate_res" where
  "attempt h validate dynamicEvidenceProvider dispatchMutationOperation clock arg = (let
     p0 = \<lparr>pr_contract = None, pr_validation = None, pr_governance = None, pr_dispatcherInvoked = False, pr_actions = []\<rparr> in
     step p0 (requireMutationOperationContract (get arg ''operationContract'')) (\<lambda>m. let p1 = p0\<lparr>pr_contract := Some m\<rparr> in
     step p1 (from_kernel (assertExecutionCapsuleIntegrity h (get arg ''capsule''))) (\<lambda>c.
     step p1 (projectSafeDispatchInput h (get arg ''dispatchInput'')) (\<lambda>input. let
       request = providerRequest c m input; p2 = p1\<lparr>pr_actions := [ProviderCalled request]\<rparr> in
     step p2 (from_foreign (dynamicEvidenceProvider request)) (\<lambda>answer.
     step p2 (from_kernel (requireCurrentEvidence answer)) (\<lambda>evidence.
     step p2 (projectDynamicEvidence h (get evidence ''items'') m c) (\<lambda>dynamicEvidence.
     step p2 (assertDispatchInputBinding h input c dynamicEvidence) (\<lambda>_.
     step p2 (from_kernel (validate (validationRequest c evidence clock))) (\<lambda>validation. let
       p3 = p2\<lparr>pr_validation := Some validation\<rparr> in
     step p3 (requireValid validation) (\<lambda>_.
     step p3 (requireGovernanceDecision (get arg ''governanceDecision'') m c) (\<lambda>g. let
       envelope = dispatchEnvelope m g c dynamicEvidence input;
       p4 = p3\<lparr>pr_governance := Some g, pr_dispatcherInvoked := True,
         pr_actions := [ProviderCalled request, DispatcherCalled envelope]\<rparr> in
     step p4 (from_foreign (dispatchMutationOperation envelope)) (\<lambda>result.
     (p4, Inr (result, length dynamicEvidence))))))))))))))"

definition errorReasons :: "gate_error \<Rightarrow> jsval" where
  "errorReasons e = (case e of
     Kernel_Error (AppError c s) \<Rightarrow> JArr [JStr c]
   | Kernel_Error _ \<Rightarrow> JArr [JUndef]
   | Refused c rs \<Rightarrow> JArr (map JStr rs)
   | Foreign v \<Rightarrow> js_or (get v ''reasonCodes'') (JArr [get v ''code'']))"

definition report :: "progress \<Rightarrow> nat \<Rightarrow> bool \<Rightarrow> string list \<Rightarrow> telemetry" where
  "report p evidenceCount succeeded reasonCodes =
     \<lparr>te_operationKey = (case pr_contract p of None \<Rightarrow> ''unknown'' | Some m \<Rightarrow> mc_operationKey m),
      te_validationStatus = map_option vr_status (pr_validation p),
      te_governanceStatus = map_option (\<lambda>_. ''allowed'') (pr_governance p),
      te_dynamicEvidenceCount = evidenceCount, te_dispatcherInvoked = pr_dispatcherInvoked p,
      te_dispatchSucceeded = succeeded, te_mutationAllowed = succeeded, te_reversible = True,
      te_capsuleGrantedAuthority = False, te_reasonCodes = reasonCodes, te_secretsIncluded = False\<rparr>"

definition dispatch :: "host \<Rightarrow> (jsval \<Rightarrow> validation_result res) \<Rightarrow> (jsval \<Rightarrow> jsval + jsval) \<Rightarrow> (jsval \<Rightarrow> jsval + jsval)
    \<Rightarrow> jsval \<Rightarrow> jsval \<Rightarrow> gate_action list \<times> jsval gate_res" where
  "dispatch h validate dynamicEvidenceProvider dispatchMutationOperation clock arg =
     (case attempt h validate dynamicEvidenceProvider dispatchMutationOperation clock arg of
        (p, Inr (result, n)) \<Rightarrow> (pr_actions p @ [Emitted (report p n True [])], Inr result)
      | (p, Inl e) \<Rightarrow> (pr_actions p @ [Emitted (report p 0 False
           (safeReasonCodes (errorReasons e) ''execution_capsule_mutation_dispatch_failed''))], Inl e))"

section \<open>Creating a gate\<close>

text \<open>
  The enabled gate, and the disabled one that hands the input to the dispatcher as it is.
\<close>

datatype gate_mode = legacy_mutation_dispatch | execution_capsule_mutation_dispatch_gate

definition is_function :: "jsval \<Rightarrow> bool" where
  "is_function v = (case v of JFun _ \<Rightarrow> True | _ \<Rightarrow> False)"

definition createExecutionCapsuleMutationDispatchGate :: "jsval \<Rightarrow> gate_mode res" where
  "createExecutionCapsuleMutationDispatchGate options =
     (if \<not> is_function (get options ''dispatchMutationOperation'') then
        Inl (TypeError ''dispatchMutationOperation must be a function.'')
      else if get options ''enabled'' \<noteq> JBool True then Inr legacy_mutation_dispatch
      else if \<not> truthy (get options ''capsuleService'') \<or> \<not> is_function (get (get options ''capsuleService'') ''validate'') then
        Inl (TypeError ''capsuleService.validate must be a function when enabled.'')
      else if \<not> is_function (get options ''dynamicEvidenceProvider'') then
        Inl (TypeError ''dynamicEvidenceProvider must be a function when enabled.'')
      else if \<not> is_function (get options ''emitTelemetry'') then
        Inl (TypeError ''emitTelemetry must be a function when enabled.'')
      else if \<not> is_function (default_arg (get options ''clock'') (JFun ''now'')) then
        Inl (TypeError ''clock must be a function.'')
      else Inr execution_capsule_mutation_dispatch_gate)"

definition rollback :: "gate_mode \<Rightarrow> gate_mode" where
  "rollback mode = legacy_mutation_dispatch"

definition gateDispatch :: "gate_mode \<Rightarrow> host \<Rightarrow> (jsval \<Rightarrow> validation_result res) \<Rightarrow> (jsval \<Rightarrow> jsval + jsval)
    \<Rightarrow> (jsval \<Rightarrow> jsval + jsval) \<Rightarrow> jsval \<Rightarrow> jsval \<Rightarrow> gate_action list \<times> jsval gate_res" where
  "gateDispatch mode h validate dynamicEvidenceProvider dispatchMutationOperation clock arg = (case mode of
     legacy_mutation_dispatch \<Rightarrow>
       ([DispatcherCalled (get arg ''dispatchInput'')], from_foreign (dispatchMutationOperation (get arg ''dispatchInput'')))
   | execution_capsule_mutation_dispatch_gate \<Rightarrow>
       dispatch h validate dynamicEvidenceProvider dispatchMutationOperation clock arg)"

section \<open>What the safe copy guarantees\<close>

text \<open>
  How many values a value consists of, how deep they are nested, and what every part of a
  safe copy satisfies.
\<close>

fun json_nodes :: "jsval \<Rightarrow> nat" where
  "json_nodes (JArr vs) = Suc (sum_list (map json_nodes vs))"
| "json_nodes (JObj kvs) = Suc (sum_list (map (\<lambda>kv. json_nodes (snd kv)) kvs))"
| "json_nodes _ = 1"

fun within_depth :: "nat \<Rightarrow> jsval \<Rightarrow> bool" where
  "within_depth d (JArr vs) = (\<forall>v \<in> set vs. 0 < d \<and> within_depth (d - 1) v)"
| "within_depth d (JObj kvs) = (\<forall>kv \<in> set kvs. 0 < d \<and> within_depth (d - 1) (snd kv))"
| "within_depth d _ = True"

fun safe_value :: "jsval \<Rightarrow> bool" where
  "safe_value (JStr s) = (length s \<le> 16 * 1024 \<and> \<not> secret_value s)"
| "safe_value (JArr vs) = (length vs \<le> 128 \<and> (\<forall>v \<in> set vs. safe_value v))"
| "safe_value (JObj kvs) = (length kvs \<le> 128
     \<and> (\<forall>kv \<in> set kvs. safeKey (fst kv) = Inr () \<and> safe_value (snd kv)))"
| "safe_value JNull = True"
| "safe_value (JBool b) = True"
| "safe_value (JNum r) = True"
| "safe_value _ = False"

lemma projectSafeValue_Inr:
  "projectSafeValue h d v n = Inr (w, m) \<longleftrightarrow> n < 512 \<and> d \<le> 8
     \<and> ((v = JNull \<or> (\<exists>b. v = JBool b) \<or> (\<exists>r. v = JNum r)
          \<or> (\<exists>s. v = JStr s \<and> length s \<le> 16 * 1024 \<and> \<not> secret_value s)) \<and> w = v \<and> m = Suc n
        \<or> (\<exists>vs ws. v = JArr vs \<and> length vs \<le> 128 \<and> projectSafeItems h (Suc d) vs (Suc n) = Inr (ws, m) \<and> w = JArr ws)
        \<or> (\<exists>kvs es. v = JObj kvs \<and> length kvs \<le> 128
             \<and> projectSafeEntries h (Suc d) (sorted_entries h kvs) (Suc n) = Inr (es, m) \<and> w = JObj es))"
  by (cases v) (auto simp: projectSafeValue.simps Let_def)

lemma projectSafe_counts:
  "projectSafeValue h d v n = Inr (w, m) \<Longrightarrow> m = n + json_nodes w \<and> m \<le> 512"
  "projectSafeItems h d vs n = Inr (ws, m) \<Longrightarrow> n \<le> 512 \<Longrightarrow> m = n + sum_list (map json_nodes ws) \<and> m \<le> 512"
  "projectSafeEntries h d kvs n = Inr (es, m) \<Longrightarrow> n \<le> 512
     \<Longrightarrow> m = n + sum_list (map (\<lambda>kv. json_nodes (snd kv)) es) \<and> m \<le> 512"
proof (induction h d v n and h d vs n and h d kvs n arbitrary: w m and ws m and es m
    rule: projectSafeValue_projectSafeItems_projectSafeEntries.induct)
  case (1 h d v n)
  from 1(3) show ?case
    unfolding projectSafeValue_Inr
    using 1(1,2) by (fastforce dest!: 1(1,2))
next
  case (3 h d v vs n)
  then show ?case by fastforce
next
  case (5 h d k v kvs n)
  then show ?case by fastforce
qed auto

lemma projectSafe_safe:
  "projectSafeValue h d v n = Inr (w, m) \<Longrightarrow> d \<le> 8 \<and> safe_value w \<and> within_depth (8 - d) w"
  "projectSafeItems h d vs n = Inr (ws, m) \<Longrightarrow> length ws = length vs
     \<and> (\<forall>w \<in> set ws. d \<le> 8 \<and> safe_value w \<and> within_depth (8 - d) w)"
  "projectSafeEntries h d kvs n = Inr (es, m) \<Longrightarrow> length es = length kvs
     \<and> (\<forall>e \<in> set es. safeKey (fst e) = Inr () \<and> d \<le> 8 \<and> safe_value (snd e) \<and> within_depth (8 - d) (snd e))"
proof (induction h d v n and h d vs n and h d kvs n arbitrary: w m and ws m and es m
    rule: projectSafeValue_projectSafeItems_projectSafeEntries.induct)
  case (1 h d v n)
  from 1(3) show ?case
    unfolding projectSafeValue_Inr
    using 1(1,2) by (fastforce simp: sorted_entries_def dest!: 1(1,2))
next
  case (3 h d v vs n)
  then show ?case by fastforce
next
  case (5 h d k v kvs n)
  then show ?case by fastforce
qed auto

text \<open>
  C29. The input a dispatcher receives is a safe copy: it has at most 512 values, nested at
  most 8 deep, no key that names a credential or a prototype, only finite numbers, and no
  overlong or secret-like string.
\<close>

theorem dispatch_input_safe:
  assumes "projectSafeDispatchInput h v = Inr w"
  shows "safe_value w \<and> json_nodes w \<le> 512 \<and> within_depth 8 w"
proof -
  obtain n where "projectSafeValue h 0 v 0 = Inr (w, n)"
    using assms by (auto simp: projectSafeDispatchInput_def)
  then show ?thesis
    using projectSafe_counts(1) [of h 0 v 0 w n] projectSafe_safe(1) [of h 0 v 0 w n] by simp
qed

definition demo_dispatch_input :: jsval where
  "demo_dispatch_input = JObj [(''title'', JStr ''Hello''), (''expectedSha'', JStr ''abcdef0''),
     (''postRef'', JStr ''p1''), (''tags'', JArr [JStr ''a'', JNum 1, JNull])]"

definition demo_safe_input :: jsval where
  "demo_safe_input = JObj [(''expectedSha'', JStr ''abcdef0''), (''postRef'', JStr ''p1''),
     (''tags'', JArr [JStr ''a'', JNum 1, JNull]), (''title'', JStr ''Hello'')]"

lemma demo_input_projected: "projectSafeDispatchInput plain_host demo_dispatch_input = Inr demo_safe_input"
  by code_simp

theorem dispatch_input_safe_witness:
  "safe_value demo_safe_input \<and> json_nodes demo_safe_input \<le> 512 \<and> within_depth 8 demo_safe_input"
  by (rule dispatch_input_safe [OF demo_input_projected])

section \<open>What an invocation presupposes\<close>

lemma step_elim:
  assumes "step p m k = (q, r)"
  obtains e where "m = Inl e" "q = p" "r = Inl e" | x where "m = Inr x" "k x = (q, r)"
  using assms by (cases m) (auto simp: step_def)

lemma from_kernel_Inr [simp]: "from_kernel m = Inr x \<longleftrightarrow> m = Inr x"
  by (cases m) (simp_all add: from_kernel_def)

lemma from_foreign_Inr [simp]: "from_foreign m = Inr x \<longleftrightarrow> m = Inr x" "from_foreign (Inr x) = Inr x"
  by (cases m) (simp_all add: from_foreign_def)

lemma cleanToken_Inr: "cleanToken v f = Inr s \<longleftrightarrow> s = token_of v \<and> TOKEN_PATTERN s"
  by (auto simp: cleanToken_def split: if_splits)

text \<open>All checks of an attempt have passed, with these results.\<close>

definition cleared :: "host \<Rightarrow> (jsval \<Rightarrow> validation_result res) \<Rightarrow> (jsval \<Rightarrow> jsval + jsval) \<Rightarrow> jsval \<Rightarrow> jsval
    \<Rightarrow> mutation_contract \<Rightarrow> capsule \<Rightarrow> jsval \<Rightarrow> jsval \<Rightarrow> dynamic_evidence list \<Rightarrow> validation_result \<Rightarrow> governance \<Rightarrow> bool" where
  "cleared h validate provider clock arg m c input evidence dyn v g =
     (requireMutationOperationContract (get arg ''operationContract'') = Inr m
      \<and> assertExecutionCapsuleIntegrity h (get arg ''capsule'') = Inr c
      \<and> projectSafeDispatchInput h (get arg ''dispatchInput'') = Inr input
      \<and> provider (providerRequest c m input) = Inr evidence
      \<and> requireCurrentEvidence evidence = Inr evidence
      \<and> projectDynamicEvidence h (get evidence ''items'') m c = Inr dyn
      \<and> assertDispatchInputBinding h input c dyn = Inr ()
      \<and> validate (validationRequest c evidence clock) = Inr v \<and> vr_status v = VALID
      \<and> requireGovernanceDecision (get arg ''governanceDecision'') m c = Inr g)"

lemma requireCurrentEvidence_id: "requireCurrentEvidence v = Inr w \<Longrightarrow> w = v"
  by (auto simp: requireCurrentEvidence_def)

lemma attempt_cases:
  assumes "attempt h validate provider dispatcher clock arg = (p, r)"
  obtains (stopped) e where "\<not> pr_dispatcherInvoked p" "r = Inl e"
      "pr_actions p = [] \<or> (\<exists>q. pr_actions p = [ProviderCalled q])"
  | (invoked) m c input evidence dyn v g where
      "cleared h validate provider clock arg m c input evidence dyn v g" "pr_dispatcherInvoked p"
      "pr_actions p = [ProviderCalled (providerRequest c m input), DispatcherCalled (dispatchEnvelope m g c dyn input)]"
      "r = res_bind (from_foreign (dispatcher (dispatchEnvelope m g c dyn input))) (\<lambda>x. Inr (x, length dyn))"
proof -
  show ?thesis
    using assms unfolding attempt_def Let_def
    apply (elim step_elim)
    apply (rule stopped; simp)
    apply (rule stopped; simp)
    apply (rule stopped; simp)
    apply (rule stopped; simp)
    apply (rule stopped; simp)
    apply (rule stopped; simp)
    apply (rule stopped; simp)
    apply (rule stopped; simp)
    apply (rule stopped; simp)
    apply (rule stopped; simp)
    subgoal for m c input answer evidence dyn u v u' g e
      by (rule invoked [of m c input evidence dyn v g])
        (use requireCurrentEvidence_id [of answer evidence] in \<open>auto simp: cleared_def requireValid_def\<close>)
    subgoal for m c input answer evidence dyn u v u' g result
      by (rule invoked [of m c input evidence dyn v g])
        (use requireCurrentEvidence_id [of answer evidence] in \<open>auto simp: cleared_def requireValid_def\<close>)
    done
qed

text \<open>
  What the checks establish, each stated over the values themselves: a reversible mutation
  with a rollback, a capsule that is current, evidence of the required status for this
  operation and context, a governance decision for them, and an input that names nothing
  but what the capsule was sealed for.
\<close>

definition reversible_mutation :: "jsval \<Rightarrow> mutation_contract \<Rightarrow> bool" where
  "reversible_mutation v m = (get v ''operationKind'' = JStr ''mutation'' \<and> get v ''reversible'' = JBool True
     \<and> mc_operationKey m = token_of (get v ''operationKey'') \<and> TOKEN_PATTERN (mc_operationKey m)
     \<and> mc_rollbackOperationKey m = token_of (get v ''rollbackOperationKey'') \<and> TOKEN_PATTERN (mc_rollbackOperationKey m)
     \<and> set (map fst REQUIRED_STATUSES) = set (mc_requiredDynamicEvidence m))"

definition capsule_current :: "host \<Rightarrow> capsule \<Rightarrow> jsval \<Rightarrow> jsval \<Rightarrow> bool" where
  "capsule_current h c evidence now = (\<exists>i t ws cs.
     contextIdentity (get evidence ''currentContext'') = Inr i \<and> identity_matches c i
     \<and> normalizedDate h now ''now'' = Inr t \<and> unexpired c t
     \<and> get evidence ''currentDependencies'' = JArr ws
     \<and> normalizeDependencies h ''currentDependencies'' 0 ws = Inr cs \<and> set (ca_invalidationDependencies c) \<subseteq> set cs
     \<and> array_items (get evidence ''blockedReasonCodes'') = [] \<and> get evidence ''interpretationRequired'' \<noteq> JBool True)"

definition evidenced :: "jsval \<Rightarrow> string \<Rightarrow> mutation_contract \<Rightarrow> capsule \<Rightarrow> bool" where
  "evidenced item status m c = (is_object item \<and> token_of (get item ''status'') = status
     \<and> token_of (get item ''operationKey'') = mc_operationKey m
     \<and> token_of (get item ''contextHash'') = ds_contextHash (ca_descriptor c)
     \<and> list_all (\<lambda>f. \<not> deviates item f (capsule_field c f)) evidenceFields)"

definition governed :: "jsval \<Rightarrow> mutation_contract \<Rightarrow> capsule \<Rightarrow> bool" where
  "governed v m c = (get v ''status'' = JStr ''allowed'' \<and> get v ''dispatchAllowed'' = JBool True
     \<and> get v ''mutationAllowed'' = JBool True \<and> token_of (get v ''operationKey'') = mc_operationKey m
     \<and> token_of (get v ''contextHash'') = ds_contextHash (ca_descriptor c))"

definition bound_input :: "host \<Rightarrow> jsval \<Rightarrow> capsule \<Rightarrow> jsval \<Rightarrow> bool" where
  "bound_input h input c item = (list_all (\<lambda>f. \<not> deviates input f (capsule_field c f)) inputFields
     \<and> sha_text h (get input ''expectedSha'') = sha_text h (get item ''expectedSha'')
     \<and> sha_text h (get item ''expectedSha'') = sha_text h (get item ''actualSha''))"

lemma find_None_list_all: "find P xs = None \<longleftrightarrow> list_all (\<lambda>x. \<not> P x) xs"
  by (auto simp: find_None_iff list_all_iff)

lemma requiredEvidenceKey_Inr: "requiredEvidenceKey (i, v) = Inr k \<Longrightarrow> k \<in> set (map fst REQUIRED_STATUSES)"
  by (auto simp: requiredEvidenceKey_def REQUIRED_STATUSES_def split: if_splits)

lemma contract_reversible:
  assumes "requireMutationOperationContract v = Inr m"
  shows "reversible_mutation v m"
proof -
  obtain ks where ks: "res_map requiredEvidenceKey (enumerate 0 (array_items (get v ''requiredDynamicEvidence''))) = Inr ks"
      "filter (\<lambda>k. k \<notin> set ks) REQUIRED_DYNAMIC_EVIDENCE_KEYS = []" "set (mc_requiredDynamicEvidence m) = set ks"
    using assms by (auto simp: requireMutationOperationContract_def Let_def)
  have "set ks \<subseteq> set (map fst REQUIRED_STATUSES)"
    using ks(1) requiredEvidenceKey_Inr by (force dest: res_map_set)
  moreover have "set (map fst REQUIRED_STATUSES) \<subseteq> set ks"
    using ks(2) by (auto simp: filter_empty_conv REQUIRED_DYNAMIC_EVIDENCE_KEYS_def)
  ultimately show ?thesis
    using assms ks(3)
    by (auto simp: reversible_mutation_def requireMutationOperationContract_def cleanToken_Inr Let_def)
qed

lemma governance_governed: "requireGovernanceDecision v m c = Inr g \<Longrightarrow> governed v m c"
  by (auto simp: requireGovernanceDecision_def governed_def cleanToken_Inr)

lemma item_evidenced:
  assumes "projectEvidenceItem h items m c k = Inr e"
  shows "ev_evidenceKey e = k" and "map_of REQUIRED_STATUSES k = Some (ev_status e)"
    and "evidenced (get items k) (ev_status e) m c" and "matchedSha h (get items k) k = Inr (ev_expectedSha e)"
  using assms
  by (auto simp: projectEvidenceItem_def evidenced_def assertNoContextSubstitution_def cleanToken_Inr Let_def
      find_None_list_all split: option.splits)

lemma evidence_complete:
  assumes "projectDynamicEvidence h items m c = Inr dyn" "reversible_mutation v m" "(k, st) \<in> set REQUIRED_STATUSES"
  shows "evidenced (get items k) st m c"
proof -
  have "k \<in> set (mc_requiredDynamicEvidence m)"
    using assms(2,3) by (force simp: reversible_mutation_def)
  then obtain e where e: "projectEvidenceItem h items m c k = Inr e"
    using assms(1) res_map_set_arg unfolding projectDynamicEvidence_def by metis
  moreover have "map_of REQUIRED_STATUSES k = Some st"
    using assms(3) by (auto simp: REQUIRED_STATUSES_def)
  ultimately show ?thesis
    using item_evidenced(2,3) [OF e] by simp
qed

lemma input_bound:
  assumes "assertDispatchInputBinding h input c dyn = Inr ()"
    and "projectDynamicEvidence h items m c = Inr dyn"
  shows "bound_input h input c (get items ''expected_sha'')"
proof -
  obtain e where e: "find (\<lambda>e. ev_evidenceKey e = ''expected_sha'') dyn = Some e"
      "ev_expectedSha e = Some (sha_text h (get input ''expectedSha''))"
      "list_all (\<lambda>f. \<not> deviates input f (capsule_field c f)) inputFields"
    using assms(1) by (auto simp: assertDispatchInputBinding_def find_None_list_all Let_def split: option.splits if_splits)
  then have "e \<in> set dyn" "ev_evidenceKey e = ''expected_sha''"
    by (auto simp: find_Some_iff)
  then obtain k where "projectEvidenceItem h items m c k = Inr e"
    using assms(2) res_map_set unfolding projectDynamicEvidence_def by metis
  note this [THEN item_evidenced(4)] this [THEN item_evidenced(1)]
  then have "matchedSha h (get items ''expected_sha'') ''expected_sha'' = Inr (Some (sha_text h (get input ''expectedSha'')))"
    using \<open>ev_evidenceKey e = ''expected_sha''\<close> e(2) by simp
  then show ?thesis
    using e(3) by (auto simp: bound_input_def matchedSha_def Let_def split: if_splits)
qed

lemma reasserted:
  assumes "assertExecutionCapsuleIntegrity h v = Inr c" "assertExecutionCapsuleIntegrity h (capsule_value c) = Inr c'"
  shows "c' = c"
proof -
  obtain ys where sealed: "capsule_sealed h c ys"
    using asserted_sealed [OF assms(1)] by blast
  have "is_hex64 (ca_capsuleHash c)"
    using assert_Inr [OF assms(1)] by auto
  then show ?thesis
    using sealed_assert [OF sealed asserted_short [OF sealed assms(2)]] assms(2) by simp
qed

lemma validationRequest_fields:
  "get (validationRequest c evidence clock) ''capsule'' = capsule_value c"
  "get (validationRequest c evidence clock) ''currentContext'' = get evidence ''currentContext''"
  "get (validationRequest c evidence clock) ''currentDependencies'' = get evidence ''currentDependencies''"
  "get (validationRequest c evidence clock) ''now''
     = (if nullish (get evidence ''now'') then clock else get evidence ''now'')"
  "default_arg (get (validationRequest c evidence clock) ''blockedReasonCodes'') d
     = JArr (array_items (get evidence ''blockedReasonCodes''))"
  "get (validationRequest c evidence clock) ''interpretationRequired''
     = JBool (get evidence ''interpretationRequired'' = JBool True)"
  "default_arg (get (validationRequest c evidence clock) ''operationKind'') d = JStr ''mutation''"
  "get (validationRequest c evidence clock) ''dynamicRefreshComplete'' = JBool True"
  by (simp_all add: validationRequest_def default_arg_def)

lemma against_status: "validateAgainst h c i ds op b t = Inr r \<Longrightarrow> vr_valid r = (vr_status r = VALID)"
  by (auto simp: validateAgainst_def Let_def split: if_splits)

lemma status_valid:
  assumes "validateCapsule h clock arg = Inr r"
  shows "vr_valid r = (vr_status r = VALID)"
proof (cases "assertExecutionCapsuleIntegrity h (get arg ''capsule'')")
  case (Inl e)
  then show ?thesis
    using assms by (auto simp: validateCapsule_def Let_def integrityFailureResult_def)
next
  case (Inr c)
  obtain now where now: "normalizedDate h (default_arg (get arg ''now'') clock) ''now'' = Inr now"
    using assms by (auto simp: validateCapsule_def)
  obtain ws rs where "get arg ''currentDependencies'' = JArr ws"
      "default_arg (get arg ''blockedReasonCodes'') (JArr []) = JArr rs"
    using assms now Inr by (auto simp: validateCapsule_def Let_def split: jsval.splits)
  then show ?thesis
    using assms now Inr by (auto simp: validateCapsule_def Let_def dest: against_status split: if_splits)
qed

lemma valid_current:
  assumes "assertExecutionCapsuleIntegrity h v = Inr c"
    and "validateCapsule h serviceClock (validationRequest c evidence clock) = Inr r" "vr_status r = VALID"
  shows "capsule_current h c evidence (default_arg
    (if nullish (get evidence ''now'') then clock else get evidence ''now'') serviceClock)"
  using validation_exact [OF assms(2)] status_valid [OF assms(2)] assms(3) reasserted [OF assms(1)]
  unfolding validationRequest_fields capsule_current_def by auto

text \<open>
  C27. The gate lets a mutation through only under its guards: whenever the dispatcher is
  called, the capsule of the request is intact and current, the operation is a reversible
  mutation with a rollback, the governance decision allows this operation in this context,
  every required kind of evidence has its required status for this operation and context
  and names no other resource, and the input is a safe copy that names only what the
  capsule was sealed for, with the hash the evidence found in place.
\<close>

theorem mutation_dispatch_guarded:
  assumes "dispatch h (validateCapsule h serviceClock) provider dispatcher clock arg = (actions, r)"
    and "DispatcherCalled envelope \<in> set actions"
  shows "\<exists>m c input evidence dyn g. envelope = dispatchEnvelope m g c dyn input
    \<and> assertExecutionCapsuleIntegrity h (get arg ''capsule'') = Inr c
    \<and> projectSafeDispatchInput h (get arg ''dispatchInput'') = Inr input
    \<and> provider (providerRequest c m input) = Inr evidence
    \<and> reversible_mutation (get arg ''operationContract'') m
    \<and> governed (get arg ''governanceDecision'') m c
    \<and> capsule_current h c evidence (default_arg
        (if nullish (get evidence ''now'') then clock else get evidence ''now'') serviceClock)
    \<and> list_all (\<lambda>(k, status). evidenced (get (get evidence ''items'') k) status m c) REQUIRED_STATUSES
    \<and> bound_input h input c (get (get evidence ''items'') ''expected_sha'')"
proof -
  obtain p q where a: "attempt h (validateCapsule h serviceClock) provider dispatcher clock arg = (p, q)"
    by fastforce
  have called: "DispatcherCalled envelope \<in> set (pr_actions p)"
    using assms a by (auto simp: dispatch_def split: sum.splits)
  from a show ?thesis
  proof (cases rule: attempt_cases)
    case (stopped e)
    with called show ?thesis by auto
  next
    case (invoked m c input evidence dyn v g)
    note cl = invoked(1) [unfolded cleared_def]
    have "reversible_mutation (get arg ''operationContract'') m"
      using cl contract_reversible by blast
    moreover from this have "list_all (\<lambda>(k, status). evidenced (get (get evidence ''items'') k) status m c) REQUIRED_STATUSES"
      using cl evidence_complete by (fastforce simp: list_all_iff)
    moreover have "envelope = dispatchEnvelope m g c dyn input"
      using called invoked(3) by simp
    moreover have "governed (get arg ''governanceDecision'') m c"
      using cl governance_governed by blast
    moreover have "bound_input h input c (get (get evidence ''items'') ''expected_sha'')"
      using cl input_bound by blast
    moreover have "capsule_current h c evidence (default_arg
        (if nullish (get evidence ''now'') then clock else get evidence ''now'') serviceClock)"
      using cl valid_current by blast
    ultimately show ?thesis
      using cl by blast
  qed
qed

text \<open>Conversely, nothing else holds the gate back: once every check has passed, the dispatcher is called.\<close>

lemma cleared_attempt:
  assumes "cleared h validate provider clock arg m c input evidence dyn v g"
  shows "DispatcherCalled (dispatchEnvelope m g c dyn input)
    \<in> set (fst (dispatch h validate provider dispatcher clock arg))"
  using assms unfolding cleared_def
  by (cases "dispatcher (dispatchEnvelope m g c dyn input)")
    (simp_all add: dispatch_def attempt_def step_def Let_def requireValid_def from_kernel_def from_foreign_def)

section \<open>A concrete run\<close>

definition demo_contract :: jsval where
  "demo_contract = JObj [(''operationKind'', JStr ''mutation''), (''mutationRequired'', JBool True),
     (''reversible'', JBool True), (''requiredDynamicEvidence'', JArr (map (\<lambda>(k, st). JStr k) REQUIRED_STATUSES)),
     (''operationKey'', JStr ''op''), (''rollbackOperationKey'', JStr ''undo'')]"

definition demo_items :: jsval where
  "demo_items = JObj (map (\<lambda>(k, st). (k, JObj [(''status'', JStr st), (''operationKey'', JStr ''op''),
     (''contextHash'', JStr ''ch''), (''revision'', JStr ''1''), (''tenantRef'', JStr ''t1''),
     (''expectedSha'', JStr ''abcdef0''), (''actualSha'', JStr ''ABCDEF0'')])) REQUIRED_STATUSES)"

definition demo_current :: jsval where
  "demo_current = JObj [(''currentContext'', demo_context),
     (''currentDependencies'', JArr (map dependency_value (ca_invalidationDependencies (demo_capsule ''post'' ''p1'')))),
     (''items'', demo_items), (''now'', JDate (Some 5000))]"

definition demo_governance :: jsval where
  "demo_governance = JObj [(''status'', JStr ''allowed''), (''dispatchAllowed'', JBool True),
     (''mutationAllowed'', JBool True), (''operationKey'', JStr ''op''), (''contextHash'', JStr ''ch''),
     (''decisionRef'', JStr ''d1''), (''decisionRevision'', JStr ''1'')]"

definition demo_mutation :: jsval where
  "demo_mutation = JObj [(''capsule'', capsule_value (demo_capsule ''post'' ''p1'')), (''operationContract'', demo_contract),
     (''governanceDecision'', demo_governance), (''dispatchInput'', demo_dispatch_input)]"

definition demo_mc :: mutation_contract where
  "demo_mc = \<lparr>mc_operationKey = ''op'', mc_riskClass = ''mutation'', mc_rollbackOperationKey = ''undo'',
     mc_requiredDynamicEvidence = REQUIRED_DYNAMIC_EVIDENCE_KEYS\<rparr>"

definition demo_dynamic :: "dynamic_evidence list" where
  "demo_dynamic = map (\<lambda>k. \<lparr>ev_evidenceKey = k, ev_status = the (map_of REQUIRED_STATUSES k), ev_revision = ''1'',
     ev_evidenceRef = None, ev_expectedSha = (if k = ''expected_sha'' then Some ''abcdef0'' else None)\<rparr>)
     REQUIRED_DYNAMIC_EVIDENCE_KEYS"

definition demo_gov :: governance where
  "demo_gov = \<lparr>gv_decisionRef = ''d1'', gv_decisionRevision = ''1'', gv_operationKey = ''op'', gv_contextHash = ''ch''\<rparr>"

lemma demo_checks:
  "requireMutationOperationContract demo_contract = Inr demo_mc"
  "requireGovernanceDecision demo_governance demo_mc (demo_capsule ''post'' ''p1'') = Inr demo_gov"
  "projectDynamicEvidence plain_host demo_items demo_mc (demo_capsule ''post'' ''p1'') = Inr demo_dynamic"
  "assertDispatchInputBinding plain_host demo_safe_input (demo_capsule ''post'' ''p1'') demo_dynamic = Inr ()"
  by code_simp+

lemma demo_valid:
  "\<exists>v. validateCapsule plain_host JNull (validationRequest (demo_capsule ''post'' ''p1'') demo_current JNull) = Inr v
    \<and> vr_status v = VALID"
proof (rule intact_validates [OF demo_identity_resolved(2,3) demo_identity_matches demo_sealed [OF demo_short_fits]
      demo_short demo_accepted _ demo_unexpired, where op = "''mutation''"])
  show "normalizedDate plain_host (default_arg (get (validationRequest (demo_capsule ''post'' ''p1'') demo_current JNull)
      ''now'') JNull) ''now'' = Inr 5000"
    unfolding validationRequest_fields
    by (simp add: demo_current_def nullish_def default_arg_def normalizedDate_def time_clip_def time_ok_def)
qed (simp_all add: validationRequest_fields demo_current_def time_ok_def array_items_def own_get_def [of "[]"]
    object_prototype_def CAPSULE_OPERATION_KINDS_def)

lemma demo_dispatched:
  "\<exists>actions r. dispatch plain_host (validateCapsule plain_host JNull) (\<lambda>_. Inr demo_current) (\<lambda>_. Inr JNull)
      JNull demo_mutation = (actions, r)
    \<and> DispatcherCalled (dispatchEnvelope demo_mc demo_gov (demo_capsule ''post'' ''p1'') demo_dynamic demo_safe_input)
        \<in> set actions"
proof -
  obtain v where "validateCapsule plain_host JNull (validationRequest (demo_capsule ''post'' ''p1'') demo_current JNull) = Inr v"
      "vr_status v = VALID"
    using demo_valid by blast
  moreover have "requireCurrentEvidence demo_current = Inr demo_current"
    by (simp add: requireCurrentEvidence_def demo_current_def demo_items_def demo_identity_resolved(3)
        is_object_def [of "JObj _"] is_reference_def)
  moreover have "get demo_current ''items'' = demo_items"
    by (simp add: demo_current_def)
  ultimately have "cleared plain_host (validateCapsule plain_host JNull) (\<lambda>_. Inr demo_current) JNull demo_mutation
      demo_mc (demo_capsule ''post'' ''p1'') demo_safe_input demo_current demo_dynamic v demo_gov"
    by (simp add: cleared_def demo_mutation_def demo_checks demo_accepted demo_input_projected)
  from cleared_attempt [OF this] show ?thesis
    by (metis prod.collapse)
qed

theorem mutation_dispatch_guarded_witness:
  "\<exists>m c input evidence dyn g. dispatchEnvelope demo_mc demo_gov (demo_capsule ''post'' ''p1'') demo_dynamic demo_safe_input
      = dispatchEnvelope m g c dyn input
    \<and> assertExecutionCapsuleIntegrity plain_host (get demo_mutation ''capsule'') = Inr c
    \<and> reversible_mutation (get demo_mutation ''operationContract'') m
    \<and> governed (get demo_mutation ''governanceDecision'') m c"
  using demo_dispatched mutation_dispatch_guarded [of plain_host JNull "\<lambda>_. Inr demo_current" "\<lambda>_. Inr JNull" JNull demo_mutation]
  by blast

section \<open>What is reported\<close>

lemma TOKEN_failed: "TOKEN_PATTERN ''execution_capsule_mutation_dispatch_failed''"
  by code_simp

lemma safeReasonCodes_bounded:
  "TOKEN_PATTERN fallback \<Longrightarrow> list_all TOKEN_PATTERN (safeReasonCodes v fallback)
    \<and> length (safeReasonCodes v fallback) \<le> 16 \<and> safeReasonCodes v fallback \<noteq> []"
  by (auto simp: safeReasonCodes_def Let_def list_all_iff dest!: in_set_takeD)

text \<open>
  C28. Every attempt is reported exactly once and truthfully: the calls of a run are at most
  one to the evidence provider followed by at most one to the dispatcher, then the one
  telemetry event, which says that the dispatcher was invoked exactly when it was, and that
  the dispatch succeeded exactly when the run returns. The outcome after an invocation is
  the dispatcher's own. The reported reasons are at most 16 bounded tokens.
\<close>

theorem dispatch_reported:
  "case dispatch h validate provider dispatcher clock arg of (actions, r) \<Rightarrow>
     (\<exists>calls t. actions = calls @ [Emitted t]
       \<and> (calls = [] \<or> (\<exists>q. calls = [ProviderCalled q])
          \<or> (\<exists>q envelope. calls = [ProviderCalled q, DispatcherCalled envelope] \<and> r = from_foreign (dispatcher envelope)))
       \<and> te_dispatcherInvoked t = (\<exists>envelope. DispatcherCalled envelope \<in> set calls)
       \<and> te_dispatchSucceeded t = (\<exists>x. r = Inr x)
       \<and> list_all TOKEN_PATTERN (te_reasonCodes t) \<and> length (te_reasonCodes t) \<le> 16
       \<and> (\<exists>x. r = Inr x) = (te_reasonCodes t = []))"
proof -
  obtain p q where a: "attempt h validate provider dispatcher clock arg = (p, q)"
    by fastforce
  from a show ?thesis
  proof (cases rule: attempt_cases)
    case (stopped e)
    with a show ?thesis
      using safeReasonCodes_bounded [OF TOKEN_failed, of "errorReasons e"]
      by (auto simp: dispatch_def report_def)
  next
    case (invoked m c input evidence dyn v g)
    show ?thesis
    proof (cases "dispatcher (dispatchEnvelope m g c dyn input)")
      case (Inl e)
      with a invoked show ?thesis
        using safeReasonCodes_bounded [OF TOKEN_failed, of "errorReasons (Foreign e)"]
        by (auto simp: dispatch_def report_def from_foreign_def)
    next
      case (Inr x)
      with a invoked show ?thesis
        by (auto simp: dispatch_def report_def)
    qed
  qed
qed

end
