(* ===== verification/Spec2Isabelle.thy ===== *)
theory Spec2Isabelle
  imports Kernel_Decision Kernel_Hash Kernel_PolicyGrant Kernel_EndpointCert Kernel_Sealing
    Kernel_Delegation Kernel_GraphSearch Kernel_Parity Kernel_MutationGate
begin

text \<open>
  A verification of the context kernel.
\<close>

end
